(* ===== verification/Prelude.thy ===== *)
theory Prelude
  imports Main "HOL-Library.Word" "HOL-Library.AList" "HOL-Library.Sublist" "HOL-Library.Multiset"
begin

text \<open>
  Shared ground of the development: Go's error values and their wrapping, effectful Go functions
  as state transformers with an error result, loops over slices with early return, Go maps filled
  by a loop, Go strings and durations. The two locales at the end state the contracts that several
  loops of the program share (a map filled last-wins, a slice filtered first-wins); the components
  interpret them on their own loops. The locale \<open>state_preorder\<close> gives frame rules for effectful
  code: a relation between the state before and after that every step respects.
\<close>

named_theorems frame_intros \<open>frame facts of the operations\<close>

section \<open>Errors\<close>

text \<open>
  A Go \<open>error\<close>. \<open>Wrap m e\<close> is \<open>fmt.Errorf("m: %w", e)\<close>; \<open>DigdirError\<close> is \<open>*digdir.Error\<close> with the
  sentinel it unwraps to, its status line, status code and message; \<open>Retryable\<close> is the marker of
  \<open>retry.RetryableError\<close>; \<open>Err\<close> is any other error with its text, \<open>Sentinel\<close> a package-level error
  value compared with \<open>errors.Is\<close>; \<open>Panicked\<close> is a run-time panic (a nil dereference), which
  unwinds like an error nobody handles.
\<close>

datatype errKind = ErrServer | ErrClient

datatype gerror =
    Err string
  | Sentinel string
  | Wrap string gerror
  | DigdirError errKind string int string
  | Retryable gerror
  | ApiNotFound string
  | Panicked string

text \<open>\<open>errors.As(err, &digdirErr)\<close>: the first \<open>*digdir.Error\<close> on the chain of wrapped errors.\<close>

fun as_digdir_error :: "gerror \<Rightarrow> (errKind \<times> string \<times> int \<times> string) option" where
  "as_digdir_error (DigdirError k st c m) = Some (k, st, c, m)"
| "as_digdir_error (Wrap _ e) = as_digdir_error e"
| "as_digdir_error (Retryable e) = as_digdir_error e"
| "as_digdir_error _ = None"

text \<open>\<open>errors.Is(err, target)\<close> for a package-level sentinel error.\<close>

fun is_sentinel :: "string \<Rightarrow> gerror \<Rightarrow> bool" where
  "is_sentinel t (Sentinel n) = (n = t)"
| "is_sentinel t (Wrap _ e) = is_sentinel t e"
| "is_sentinel t (Retryable e) = is_sentinel t e"
| "is_sentinel t _ = False"

text \<open>\<open>errors.As(err, &retryableError)\<close>: the error inside the first retry marker on the chain.\<close>

fun as_retryable :: "gerror \<Rightarrow> gerror option" where
  "as_retryable (Retryable e) = Some e"
| "as_retryable (Wrap _ e) = as_retryable e"
| "as_retryable _ = None"

text \<open>A panic is not an error value: no caller wraps or inspects it.\<close>

fun is_panic :: "gerror \<Rightarrow> bool" where
  "is_panic (Panicked _) = True"
| "is_panic _ = False"

text \<open>\<open>err.Error()\<close>\<close>

fun error_text :: "gerror \<Rightarrow> string" where
  "error_text (Err m) = m"
| "error_text (Sentinel m) = m"
| "error_text (Wrap m e) = m @ '': '' @ error_text e"
| "error_text (DigdirError k st c m) = ''HTTP '' @ st @ '': '' @ m"
| "error_text (Retryable e) = ''retryable: '' @ error_text e"
| "error_text (ApiNotFound m) = m"
| "error_text (Panicked m) = m"

section \<open>Strings\<close>

text \<open>\<open>strings.Join\<close>\<close>

fun join :: "string \<Rightarrow> string list \<Rightarrow> string" where
  "join sep [] = []"
| "join sep [x] = x"
| "join sep (x # y # ys) = x @ sep @ join sep (y # ys)"

text \<open>\<open>strings.Contains(s, sub)\<close> for a one-character \<open>sub\<close>.\<close>

definition contains_char :: "string \<Rightarrow> char \<Rightarrow> bool" where
  "contains_char s c = List.member s c"

lemma contains_char_iff [simp]: "contains_char s c \<longleftrightarrow> c \<in> set s"
  by (simp add: contains_char_def)

lemma takeWhile_append_hd: "\<forall>x \<in> set p. P x \<Longrightarrow> \<not> P c \<Longrightarrow> takeWhile P (p @ c # n) = p"
  by (induction p) auto

text \<open>\<open>strings.HasSuffix(s, suf)\<close>\<close>

definition has_suffix :: "string \<Rightarrow> string \<Rightarrow> bool" where
  "has_suffix s suf = (length suf \<le> length s \<and> drop (length s - length suf) s = suf)"

lemma has_suffix_iff: "has_suffix s suf \<longleftrightarrow> (\<exists>p. s = p @ suf)"
proof
  assume "has_suffix s suf"
  then have "s = take (length s - length suf) s @ suf"
    by (metis append_take_drop_id has_suffix_def)
  then show "\<exists>p. s = p @ suf" by blast
next
  assume "\<exists>p. s = p @ suf"
  then show "has_suffix s suf" by (auto simp: has_suffix_def)
qed

text \<open>
  \<open>%q\<close>: double quotes around the string, the quote and the backslash escaped, the control
  characters as Go writes them. Bytes of printable UTF-8 sequences are kept.
\<close>

definition hex_digit :: "nat \<Rightarrow> char" where
  "hex_digit n = (if n < 10 then char_of (48 + n) else char_of (87 + n))"

fun quote_char :: "char \<Rightarrow> string" where
  "quote_char c =
     (let n = (of_char c :: nat) in
      if n = 34 then [CHR 0x5C, CHR 0x22]
      else if n = 92 then [CHR 0x5C, CHR 0x5C]
      else if n = 7 then [CHR 0x5C, CHR ''a'']
      else if n = 8 then [CHR 0x5C, CHR ''b'']
      else if n = 9 then [CHR 0x5C, CHR ''t'']
      else if n = 10 then [CHR 0x5C, CHR ''n'']
      else if n = 11 then [CHR 0x5C, CHR ''v'']
      else if n = 12 then [CHR 0x5C, CHR ''f'']
      else if n = 13 then [CHR 0x5C, CHR ''r'']
      else if n < 32 \<or> n = 127 then [CHR 0x5C, CHR ''x'', hex_digit (n div 16), hex_digit (n mod 16)]
      else [c])"

definition quote :: "string \<Rightarrow> string" where
  "quote s = [CHR 0x22] @ concat (map quote_char s) @ [CHR 0x22]"

section \<open>Durations and times\<close>

text \<open>
  Instants are nanoseconds on an unbounded line; \<open>time.Time.Sub\<close> gives an \<open>int64\<close> duration and
  saturates at its bounds.
\<close>

type_synonym duration = int

definition Second :: duration where
  "Second = 1000000000"

definition Minute :: duration where
  "Minute = 60 * Second"

definition Hour :: duration where
  "Hour = 60 * Minute"

lemmas duration_defs = Second_def Minute_def Hour_def

definition maxDuration :: int where
  "maxDuration = 2 ^ 63 - 1"

definition minDuration :: int where
  "minDuration = - (2 ^ 63)"

text \<open>\<open>t.Sub(u)\<close>\<close>

definition time_sub :: "int \<Rightarrow> int \<Rightarrow> duration" where
  "time_sub t u = max minDuration (min maxDuration (t - u))"

text \<open>Saturation is invisible to a comparison with a duration inside the range.\<close>

lemma time_sub_less:
  "minDuration < d \<Longrightarrow> d \<le> maxDuration \<Longrightarrow> time_sub t u < d \<longleftrightarrow> t - u < d"
  by (auto simp: time_sub_def)

lemma time_sub_greater:
  "minDuration \<le> d \<Longrightarrow> d < maxDuration \<Longrightarrow> d < time_sub t u \<longleftrightarrow> d < t - u"
  by (auto simp: time_sub_def)

section \<open>Effectful functions\<close>

text \<open>
  A Go function that returns \<open>(T, error)\<close> and changes state. \<open>bindE\<close> is the pattern
  \<open>x, err := m(); if err != nil { return err }\<close>, \<open>wrapE msg\<close> returns the wrapped error instead,
  \<open>catchE\<close> lets the caller inspect the error. A panic passes through all of them.
\<close>

type_synonym ('s, 'a) eff = "'s \<Rightarrow> (gerror + 'a) \<times> 's"

definition returnE :: "'a \<Rightarrow> ('s, 'a) eff" where
  "returnE x = (\<lambda>s. (Inr x, s))"

definition failE :: "gerror \<Rightarrow> ('s, 'a) eff" where
  "failE e = (\<lambda>s. (Inl e, s))"

definition bindE :: "('s, 'a) eff \<Rightarrow> ('a \<Rightarrow> ('s, 'b) eff) \<Rightarrow> ('s, 'b) eff" where
  "bindE m k = (\<lambda>s. case m s of (Inl e, s') \<Rightarrow> (Inl e, s') | (Inr x, s') \<Rightarrow> k x s')"

definition catchE :: "('s, 'a) eff \<Rightarrow> (gerror \<Rightarrow> ('s, 'b) eff) \<Rightarrow> ('a \<Rightarrow> ('s, 'b) eff) \<Rightarrow> ('s, 'b) eff" where
  "catchE m h k = (\<lambda>s. case m s of
     (Inl e, s') \<Rightarrow> if is_panic e then (Inl e, s') else h e s'
   | (Inr x, s') \<Rightarrow> k x s')"

definition wrapE :: "string \<Rightarrow> ('s, 'a) eff \<Rightarrow> ('s, 'a) eff" where
  "wrapE msg m = catchE m (\<lambda>e. failE (Wrap msg e)) returnE"

definition getE :: "('s \<Rightarrow> 'a) \<Rightarrow> ('s, 'a) eff" where
  "getE f = (\<lambda>s. (Inr (f s), s))"

definition modifyE :: "('s \<Rightarrow> 's) \<Rightarrow> ('s, unit) eff" where
  "modifyE f = (\<lambda>s. (Inr (), f s))"

definition liftE :: "gerror + 'a \<Rightarrow> ('s, 'a) eff" where
  "liftE r = (\<lambda>s. (r, s))"

definition whenE :: "bool \<Rightarrow> ('s, unit) eff \<Rightarrow> ('s, unit) eff" where
  "whenE b m = (if b then m else returnE ())"

text \<open>\<open>for _, x := range xs { if err := f(x); err != nil { return err } }\<close>\<close>

fun forE :: "'a list \<Rightarrow> ('a \<Rightarrow> ('s, unit) eff) \<Rightarrow> ('s, unit) eff" where
  "forE [] f = returnE ()"
| "forE (x # xs) f = bindE (f x) (\<lambda>_. forE xs f)"

text \<open>The same loop with local variables \<open>acc\<close> that the body updates.\<close>

fun foldE :: "('b \<Rightarrow> 'a \<Rightarrow> ('s, 'b) eff) \<Rightarrow> 'b \<Rightarrow> 'a list \<Rightarrow> ('s, 'b) eff" where
  "foldE f acc [] = returnE acc"
| "foldE f acc (x # xs) = bindE (f acc x) (\<lambda>acc'. foldE f acc' xs)"

lemmas eff_defs = returnE_def failE_def bindE_def catchE_def wrapE_def getE_def modifyE_def
  liftE_def whenE_def

lemma returnE_eq [simp]: "returnE x s = (r, s') \<longleftrightarrow> r = Inr x \<and> s' = s"
  by (auto simp: returnE_def)

lemma returnE_proj [simp]:
  "fst (returnE x s) = Inr x" "snd (returnE x s) = s" "case_prod f (returnE x s) = f (Inr x) s"
  by (simp_all add: returnE_def)

lemma failE_eq [simp]: "failE e s = (r, s') \<longleftrightarrow> r = Inl e \<and> s' = s"
  by (auto simp: failE_def)

lemma failE_proj [simp]:
  "fst (failE e s) = Inl e" "snd (failE e s) = s" "case_prod f (failE e s) = f (Inl e) s"
  by (simp_all add: failE_def)

lemma liftE_eq [simp]: "liftE r s = (r', s') \<longleftrightarrow> r = r' \<and> s' = s"
  by (auto simp: liftE_def)

lemma liftE_proj [simp]:
  "fst (liftE r s) = r" "snd (liftE r s) = s" "case_prod f (liftE r s) = f r s"
  by (simp_all add: liftE_def)

lemma liftE_Inr: "liftE (Inr x) = returnE x"
  by (simp add: fun_eq_iff liftE_def returnE_def)

lemma getE_run [simp]: "getE f s = (Inr (f s), s)"
  by (simp add: getE_def)

lemma modifyE_run [simp]: "modifyE f s = (Inr (), f s)"
  by (simp add: modifyE_def)

lemma bindE_returnE [simp]: "bindE (returnE x) k = k x"
  by (simp add: bindE_def returnE_def)

lemma bindE_failE [simp]: "bindE (failE e) k = failE e"
  by (simp add: bindE_def failE_def fun_eq_iff)

lemma bindE_assoc: "bindE (bindE m f) g = bindE m (\<lambda>x. bindE (f x) g)"
  by (simp add: bindE_def fun_eq_iff split: prod.split sum.split)

lemma bindE_Inr: "m s = (Inr x, s') \<Longrightarrow> bindE m k s = k x s'"
  by (simp add: bindE_def)

lemma bindE_Inl: "m s = (Inl e, s') \<Longrightarrow> bindE m k s = (Inl e, s')"
  by (simp add: bindE_def)

text \<open>Inversion of the combinators on a successful and on a failed run.\<close>

lemma bindE_InrE:
  assumes "bindE m k s = (Inr y, s'')"
  obtains x s' where "m s = (Inr x, s')" and "k x s' = (Inr y, s'')"
  using assms by (auto simp: bindE_def split: prod.splits sum.splits)

lemma bindE_InlE:
  assumes "bindE m k s = (Inl e, s'')"
  obtains (first) "m s = (Inl e, s'')"
    | (second) x s' where "m s = (Inr x, s')" and "k x s' = (Inl e, s'')"
  using assms by (auto simp: bindE_def split: prod.splits sum.splits)

lemma catchE_E:
  assumes "catchE m h k s = r"
  obtains (panic) e s' where "m s = (Inl e, s')" and "is_panic e" and "r = (Inl e, s')"
    | (error) e s' where "m s = (Inl e, s')" and "\<not> is_panic e" and "h e s' = r"
    | (ok) x s' where "m s = (Inr x, s')" and "k x s' = r"
  using assms by (auto simp: catchE_def split: prod.splits sum.splits if_splits)

lemma wrapE_Inr_iff [simp]: "wrapE msg m s = (Inr x, s') \<longleftrightarrow> m s = (Inr x, s')"
  by (auto simp: wrapE_def catchE_def split: prod.splits sum.splits if_splits)

text \<open>The error a caller sees that wraps every error it gets.\<close>

definition wrapped :: "string \<Rightarrow> gerror \<Rightarrow> gerror" where
  "wrapped msg e = (if is_panic e then e else Wrap msg e)"

lemma wrapE_Inl_iff:
  "wrapE msg m s = (Inl e, s') \<longleftrightarrow> (\<exists>e0. e = wrapped msg e0 \<and> m s = (Inl e0, s'))"
  by (auto simp: wrapE_def catchE_def wrapped_def split: prod.splits sum.splits if_splits)

lemma as_digdir_error_wrapped [simp]: "as_digdir_error (wrapped msg e) = as_digdir_error e"
  by (cases e) (simp_all add: wrapped_def)

lemma is_panic_wrapped [simp]: "is_panic (wrapped msg e) = is_panic e"
  by (simp add: wrapped_def)

lemma wrapE_run: "wrapE msg m s = (case m s of (Inl e, s') \<Rightarrow> (Inl (wrapped msg e), s') | (Inr x, s') \<Rightarrow> (Inr x, s'))"
  by (auto simp: wrapE_def catchE_def wrapped_def split: prod.splits sum.splits)

lemma snd_wrapE [simp]: "snd (wrapE msg m s) = snd (m s)"
  by (simp add: wrapE_def catchE_def split: prod.split sum.split)

lemma forE_append: "forE (xs @ ys) f = bindE (forE xs f) (\<lambda>_. forE ys f)"
  by (induction xs) (simp_all add: bindE_assoc)

lemma foldE_append: "foldE f acc (xs @ ys) = bindE (foldE f acc xs) (\<lambda>acc'. foldE f acc' ys)"
  by (induction xs arbitrary: acc) (simp_all add: bindE_assoc)

lemma find_append: "List.find P (xs @ ys) = (case List.find P xs of None \<Rightarrow> List.find P ys | Some x \<Rightarrow> Some x)"
  by (induction xs) simp_all

lemma find_SomeD: "List.find P xs = Some x \<Longrightarrow> P x \<and> x \<in> set xs"
  by (auto simp: find_Some_iff)

section \<open>Hoare triples for effectful functions\<close>

text \<open>
  \<open>triple P m Q E\<close>: from a state with \<open>P\<close>, a run of \<open>m\<close> that returns \<open>x\<close> ends in a state with
  \<open>Q x\<close>, and one that returns the error \<open>e\<close> ends in a state with \<open>E e\<close>. Every function of the model is
  total, so a triple says what each of the two kinds of return leaves behind.
\<close>

definition triple ::
  "('s \<Rightarrow> bool) \<Rightarrow> ('s, 'a) eff \<Rightarrow> ('a \<Rightarrow> 's \<Rightarrow> bool) \<Rightarrow> (gerror \<Rightarrow> 's \<Rightarrow> bool) \<Rightarrow> bool" where
  "triple P m Q E \<longleftrightarrow>
     (\<forall>s. P s \<longrightarrow> (case m s of (Inr x, s') \<Rightarrow> Q x s' | (Inl e, s') \<Rightarrow> E e s'))"

lemma tripleI:
  assumes "\<And>s x s'. P s \<Longrightarrow> m s = (Inr x, s') \<Longrightarrow> Q x s'"
    and "\<And>s e s'. P s \<Longrightarrow> m s = (Inl e, s') \<Longrightarrow> E e s'"
  shows "triple P m Q E"
  using assms by (auto simp: triple_def split: prod.splits sum.splits)

lemma triple_Inr: "triple P m Q E \<Longrightarrow> P s \<Longrightarrow> m s = (Inr x, s') \<Longrightarrow> Q x s'"
  by (fastforce simp: triple_def)

lemma triple_Inl: "triple P m Q E \<Longrightarrow> P s \<Longrightarrow> m s = (Inl e, s') \<Longrightarrow> E e s'"
  by (fastforce simp: triple_def)

lemma triple_weaken:
  assumes "triple P m Q E"
    and "\<And>s. P' s \<Longrightarrow> P s" and "\<And>x s. Q x s \<Longrightarrow> Q' x s" and "\<And>e s. E e s \<Longrightarrow> E' e s"
  shows "triple P' m Q' E'"
proof (rule tripleI)
  show "Q' x s'" if "P' s" and "m s = (Inr x, s')" for s x s'
    using that triple_Inr [OF assms(1) assms(2)] assms(3) by blast
  show "E' e s'" if "P' s" and "m s = (Inl e, s')" for s e s'
    using that triple_Inl [OF assms(1) assms(2)] assms(4) by blast
qed

lemma triple_bindE:
  assumes "triple P m R E" and "\<And>x. triple (R x) (k x) Q E"
  shows "triple P (bindE m k) Q E"
proof (rule tripleI)
  fix s y s'' assume "P s" and "bindE m k s = (Inr y, s'')"
  then show "Q y s''"
    by (auto elim!: bindE_InrE dest: triple_Inr [OF assms(1)] triple_Inr [OF assms(2)])
next
  fix s e s'' assume "P s" and "bindE m k s = (Inl e, s'')"
  then show "E e s''"
    by (auto elim!: bindE_InlE dest: triple_Inl [OF assms(1)] triple_Inr [OF assms(1)]
        triple_Inl [OF assms(2)])
qed

lemma triple_forE:
  assumes "\<And>x. x \<in> set xs \<Longrightarrow> triple I (f x) (\<lambda>_. I) E"
  shows "triple I (forE xs f) (\<lambda>_. I) E"
  using assms
proof (induction xs)
  case Nil
  then show ?case by (simp add: triple_def)
next
  case (Cons x xs)
  have "triple I (f x) (\<lambda>_. I) E" and "triple I (forE xs f) (\<lambda>_. I) E"
    using Cons by auto
  then show ?case by (simp add: triple_bindE)
qed

text \<open>An operation that never fails in the states of an invariant and keeps it.\<close>

definition works :: "('s \<Rightarrow> bool) \<Rightarrow> ('s, 'a) eff \<Rightarrow> bool" where
  "works I m \<longleftrightarrow> triple I m (\<lambda>_. I) (\<lambda>_ _. False)"

lemma works_bindE: "works I m \<Longrightarrow> (\<And>x. works I (k x)) \<Longrightarrow> works I (bindE m k)"
  unfolding works_def by (rule triple_bindE)

lemma works_iff: "works I m \<longleftrightarrow> (\<forall>s. I s \<longrightarrow> (\<exists>x s'. m s = (Inr x, s') \<and> I s'))"
  unfolding works_def triple_def by (intro iff_allI imp_cong) (auto split: prod.split sum.split)

lemma works_wrapE: "works I m \<Longrightarrow> works I (wrapE msg m)"
  unfolding works_iff by (simp only: wrapE_Inr_iff)

lemma works_return: "works I (returnE x)"
  by (simp add: works_iff)

lemma works_if: "(b \<Longrightarrow> works I m) \<Longrightarrow> (\<not> b \<Longrightarrow> works I n) \<Longrightarrow> works I (if b then m else n)"
  by simp

lemma works_liftE: "\<not> isl r \<Longrightarrow> works I (liftE r)"
  by (cases r) (simp_all add: works_iff)

lemmas works_intros = works_bindE works_wrapE works_return

section \<open>Frame rules\<close>

text \<open>
  A reflexive and transitive relation between the state before and the state after. An operation
  keeps it when every run, successful or not, ends in a related state. The combinators keep what
  their parts keep; the components prove the primitive facts and put them in \<open>frame_intros\<close>.
\<close>

definition keeps :: "('s \<Rightarrow> 's \<Rightarrow> bool) \<Rightarrow> ('s, 'a) eff \<Rightarrow> bool" where
  "keeps R m \<longleftrightarrow> (\<forall>s. R s (snd (m s)))"

lemma keepsI: "(\<And>s. R s (snd (m s))) \<Longrightarrow> keeps R m"
  by (simp add: keeps_def)

lemma keepsD: "keeps R m \<Longrightarrow> m s = (r, s') \<Longrightarrow> R s s'"
  by (metis keeps_def snd_conv)

lemma keeps_if: "(b \<Longrightarrow> keeps R m) \<Longrightarrow> (\<not> b \<Longrightarrow> keeps R n) \<Longrightarrow> keeps R (if b then m else n)"
  by simp

lemma keeps_option:
  "keeps R m \<Longrightarrow> (\<And>x. keeps R (k x)) \<Longrightarrow> keeps R (case v of None \<Rightarrow> m | Some x \<Rightarrow> k x)"
  by (simp split: option.split)

lemma keeps_Let: "(\<And>x. keeps R (k x)) \<Longrightarrow> keeps R (let x = v in k x)"
  by simp

lemma keeps_prod: "(\<And>x y. keeps R (k x y)) \<Longrightarrow> keeps R (case p of (x, y) \<Rightarrow> k x y)"
  by (simp split: prod.split)

lemma keeps_sum:
  "(\<And>x. keeps R (f x)) \<Longrightarrow> (\<And>y. keeps R (g y)) \<Longrightarrow> keeps R (case v of Inl x \<Rightarrow> f x | Inr y \<Rightarrow> g y)"
  by (simp split: sum.split)

lemmas keeps_splits = keeps_if keeps_option keeps_Let keeps_prod

text \<open>One run of a sequence: the second part may use what the first part returned.\<close>

lemma run_bindE:
  assumes "R s (snd (m s))" and "\<And>x s1. m s = (Inr x, s1) \<Longrightarrow> R s (snd (k x s1))"
  shows "R s (snd (bindE m k s))"
proof (cases "m s")
  case (Pair r s1)
  with assms show ?thesis by (cases r) (simp_all add: bindE_def)
qed
lemma keeps_conj: "keeps R m \<Longrightarrow> keeps Q m \<Longrightarrow> keeps (\<lambda>s s'. R s s' \<and> Q s s') m"
  by (simp add: keeps_def)

locale state_preorder =
  fixes R :: "'s \<Rightarrow> 's \<Rightarrow> bool"
  assumes refl: "R s s"
    and trans: "R s t \<Longrightarrow> R t u \<Longrightarrow> R s u"
begin

lemma keeps_returnE [intro, simp]: "keeps R (returnE x)"
  by (simp add: keeps_def refl)

lemma keeps_failE [intro, simp]: "keeps R (failE e)"
  by (simp add: keeps_def refl)

lemma keeps_getE [intro, simp]: "keeps R (getE f)"
  by (simp add: keeps_def refl)

lemma keeps_liftE [intro, simp]: "keeps R (liftE r)"
  by (simp add: keeps_def refl)

lemma keeps_bindE [intro]:
  assumes "keeps R m" and "\<And>x. keeps R (k x)"
  shows "keeps R (bindE m k)"
proof (rule keepsI)
  fix s
  show "R s (snd (bindE m k s))"
  proof (cases "m s")
    case (Pair r s')
    have m: "R s s'" using assms(1) Pair by (rule keepsD)
    have "R s' (snd (k x s'))" for x using assms(2) by (simp add: keeps_def)
    with m Pair show ?thesis by (cases r) (auto simp: bindE_def intro: trans)
  qed
qed

lemma keeps_catchE [intro]:
  assumes "keeps R m" and "\<And>e. keeps R (h e)" and "\<And>x. keeps R (k x)"
  shows "keeps R (catchE m h k)"
proof (rule keepsI)
  fix s
  show "R s (snd (catchE m h k s))"
  proof (cases "m s")
    case (Pair r s')
    have m: "R s s'" using assms(1) Pair by (rule keepsD)
    have "R s' (snd (k x s'))" and "R s' (snd (h e s'))" for x e
      using assms(2,3) by (simp_all add: keeps_def)
    with m Pair show ?thesis by (cases r) (auto simp: catchE_def intro: trans)
  qed
qed

lemma keeps_wrapE [intro]: "keeps R m \<Longrightarrow> keeps R (wrapE msg m)"
  by (simp add: keeps_def)

lemma keeps_whenE [intro]: "(b \<Longrightarrow> keeps R m) \<Longrightarrow> keeps R (whenE b m)"
  by (simp add: whenE_def)

lemma keeps_forE [intro]: "(\<And>x. x \<in> set xs \<Longrightarrow> keeps R (f x)) \<Longrightarrow> keeps R (forE xs f)"
  by (induction xs) auto

lemma keeps_foldE [intro]:
  "(\<And>x acc. x \<in> set xs \<Longrightarrow> keeps R (f acc x)) \<Longrightarrow> keeps R (foldE f acc xs)"
  by (induction xs arbitrary: acc) auto

text \<open>Every iteration of a loop that succeeds succeeded, between related states.\<close>

lemma forE_each:
  assumes "\<And>x. x \<in> set xs \<Longrightarrow> keeps R (f x)" and "forE xs f s = (Inr u, s')" and "x \<in> set xs"
  shows "\<exists>s1 s2. R s s1 \<and> f x s1 = (Inr (), s2) \<and> R s2 s'"
  using assms
proof (induction xs arbitrary: s)
  case (Cons y xs)
  then obtain s0 where y: "f y s = (Inr (), s0)" and r: "forE xs f s0 = (Inr u, s')"
    by (auto elim!: bindE_InrE)
  have k: "keeps R (forE xs f)" using Cons.prems(1) by (intro keeps_forE) auto
  show ?case
  proof (cases "x = y")
    case True
    with y keepsD [OF k r] refl show ?thesis by blast
  next
    case False
    with Cons.prems have "x \<in> set xs" by simp
    with Cons.IH [OF _ r] Cons.prems(1) obtain s1 s2 where "R s0 s1" "f x s1 = (Inr (), s2)" "R s2 s'" by auto
    moreover have "R s s0" by (rule keepsD [OF Cons.prems(1) y]) simp
    ultimately show ?thesis using trans by blast
  qed
qed simp

lemma foldE_each:
  assumes "\<And>x acc. x \<in> set xs \<Longrightarrow> keeps R (f acc x)" and "foldE f acc xs s = (Inr r, s')" and "x \<in> set xs"
  shows "\<exists>s1 a a' s2. R s s1 \<and> f a x s1 = (Inr a', s2) \<and> R s2 s'"
  using assms
proof (induction xs arbitrary: s acc)
  case (Cons y xs)
  then obtain a0 s0 where y: "f acc y s = (Inr a0, s0)" and r: "foldE f a0 xs s0 = (Inr r, s')"
    by (auto elim!: bindE_InrE)
  have k: "keeps R (foldE f a0 xs)" using Cons.prems(1) by (intro keeps_foldE) auto
  show ?case
  proof (cases "x = y")
    case True
    with y keepsD [OF k r] refl show ?thesis by blast
  next
    case False
    with Cons.prems have "x \<in> set xs" by simp
    with Cons.IH [OF _ r] Cons.prems(1) obtain s1 a a' s2 where "R s0 s1" "f a x s1 = (Inr a', s2)" "R s2 s'" by auto
    moreover have "R s s0" by (rule keepsD [OF Cons.prems(1) y]) simp
    ultimately show ?thesis using trans by blast
  qed
qed simp

lemmas keeps_intros = keeps_returnE keeps_failE keeps_getE keeps_liftE keeps_bindE keeps_catchE
  keeps_wrapE keeps_whenE keeps_forE keeps_foldE

end

section \<open>Loops that fill a map or filter a slice\<close>

text \<open>
  \<open>m := make(map[K]V); for _, x := range xs { m[key(x)] = val(x) }\<close>: later elements overwrite
  earlier ones. A map is an association list with distinct keys.
\<close>

locale last_wins =
  fixes build :: "'a list \<Rightarrow> ('k \<times> 'v) list"
    and key :: "'a \<Rightarrow> 'k"
    and val :: "'a \<Rightarrow> 'v"
  assumes build_eq: "build xs = foldl (\<lambda>m x. AList.update (key x) (val x) m) [] xs"
begin

lemma build_Nil [simp]: "build [] = []"
  by (simp add: build_eq)

lemma build_snoc: "build (xs @ [x]) = AList.update (key x) (val x) (build xs)"
  by (simp add: build_eq)

lemma distinct_keys: "distinct (map fst (build xs))"
  by (induction xs rule: rev_induct) (simp_all add: build_snoc distinct_update)

lemma lookup_snoc:
  "map_of (build (xs @ [x])) k = (if key x = k then Some (val x) else map_of (build xs) k)"
  by (simp add: build_snoc update_conv')

text \<open>A lookup finds the last element with that key.\<close>

lemma lookup_eq:
  "map_of (build xs) k = map_option val (List.find (\<lambda>x. key x = k) (rev xs))"
  by (induction xs rule: rev_induct) (simp_all add: lookup_snoc)

lemma lookup_None_iff: "map_of (build xs) k = None \<longleftrightarrow> k \<notin> key ` set xs"
  by (induction xs rule: rev_induct) (auto simp: lookup_snoc)

lemma lookup_SomeD: "map_of (build xs) k = Some v \<Longrightarrow> \<exists>x \<in> set xs. key x = k \<and> val x = v"
  by (induction xs rule: rev_induct) (auto simp: lookup_snoc split: if_splits)

lemma keys_eq: "fst ` set (build xs) = key ` set xs"
  using lookup_None_iff [of xs] by (auto simp: map_of_eq_None_iff)

lemma mem_iff: "(k, v) \<in> set (build xs) \<longleftrightarrow> map_of (build xs) k = Some v"
  using distinct_keys by simp

end

text \<open>
  \<open>seen := map; for _, x := range xs { if keep(x) && !seen[key(x)] { seen[key(x)] = true;
  out = append(out, x) } }\<close>: the first element with a key is kept.
\<close>

locale first_wins =
  fixes dedup :: "'a list \<Rightarrow> 'a list"
    and key :: "'a \<Rightarrow> 'k"
    and keep :: "'a \<Rightarrow> bool"
  assumes dedup_Nil: "dedup [] = []"
    and dedup_snoc: "dedup (xs @ [x]) =
      (if keep x \<and> key x \<notin> key ` set (dedup xs) then dedup xs @ [x] else dedup xs)"
begin

lemma distinct_keys: "distinct (map key (dedup xs))"
  by (induction xs rule: rev_induct) (auto simp: dedup_Nil dedup_snoc)

lemma keys_eq: "key ` set (dedup xs) = key ` {x \<in> set xs. keep x}"
  by (induction xs rule: rev_induct) (auto simp: dedup_Nil dedup_snoc)

lemma in_order: "subseq (dedup xs) xs"
proof (induction xs rule: rev_induct)
  case Nil
  then show ?case by (simp add: dedup_Nil)
next
  case (snoc x xs)
  then show ?case
    by (auto simp: dedup_snoc intro: subseq_rev_drop_many list_emb_append_mono)
qed

lemma kept: "x \<in> set (dedup xs) \<Longrightarrow> x \<in> set xs \<and> keep x"
  by (induction xs rule: rev_induct) (auto simp: dedup_Nil dedup_snoc split: if_splits)

lemma append_prefix: "\<exists>ys. dedup (xs @ zs) = dedup xs @ ys"
proof (induction zs rule: rev_induct)
  case (snoc z zs)
  then obtain ys where "dedup (xs @ zs) = dedup xs @ ys" by blast
  then show ?case using dedup_snoc [of "xs @ zs" z] by simp
qed simp

lemma head: "keep x \<Longrightarrow> \<exists>ys. dedup (x # zs) = x # ys"
  using append_prefix [of "[x]" zs] dedup_snoc [of "[]" x] by (auto simp: dedup_Nil)

end

end
