(* ===== verification/Types.thy ===== *)
theory Types
  imports Prelude
begin

text \<open>
  The data the program works on: the payloads of DigDir's self-service API (\<open>pkg/digdir/types\<close>,
  \<open>pkg/crypto/jwks.go\<close>) and the fields of the custom resources, of their status and of the secrets
  that the code reads or writes. The Go string types (\<open>type IntegrationType string\<close> and their kin)
  are open, since the code converts arbitrary strings into them, so they stay strings with named
  constants. A slice that is marshalled to JSON keeps the difference between nil and empty.
\<close>

section \<open>Constants of the self-service API\<close>

type_synonym 'a slice = "'a list option"

definition ApplicationTypeWeb :: string where
  "ApplicationTypeWeb = ''web''"

definition GrantTypeAuthorizationCode :: string where
  "GrantTypeAuthorizationCode = ''authorization_code''"

definition GrantTypeRefreshToken :: string where
  "GrantTypeRefreshToken = ''refresh_token''"

definition GrantTypeJwtBearer :: string where
  "GrantTypeJwtBearer = ''urn:ietf:params:oauth:grant-type:jwt-bearer''"

definition IntegrationTypeApiKlient :: string where
  "IntegrationTypeApiKlient = ''api_klient''"

definition IntegrationTypeIDPorten :: string where
  "IntegrationTypeIDPorten = ''idporten''"

definition IntegrationTypeMaskinporten :: string where
  "IntegrationTypeMaskinporten = ''maskinporten''"

definition IntegrationTypeKrr :: string where
  "IntegrationTypeKrr = ''krr''"

definition IntegrationTypeUnknown :: string where
  "IntegrationTypeUnknown = ''unknown''"

definition RefreshTokenUsageOneTime :: string where
  "RefreshTokenUsageOneTime = ''ONETIME''"

definition TokenEndpointAuthMethodPrivateKeyJwt :: string where
  "TokenEndpointAuthMethodPrivateKeyJwt = ''private_key_jwt''"

definition ScopeAccessApproved :: string where
  "ScopeAccessApproved = ''APPROVED''"

definition ScopeVisibilityPrivate :: string where
  "ScopeVisibilityPrivate = ''PRIVATE''"

definition ScopeVisibilityPublic :: string where
  "ScopeVisibilityPublic = ''PUBLIC''"

definition TokenTypeSelfContained :: string where
  "TokenTypeSelfContained = ''SELF_CONTAINED''"

definition ScopeStateApproved :: string where
  "ScopeStateApproved = ''APPROVED''"

definition ScopeStateDenied :: string where
  "ScopeStateDenied = ''DENIED''"

lemmas integration_type_defs = IntegrationTypeApiKlient_def IntegrationTypeIDPorten_def
  IntegrationTypeMaskinporten_def IntegrationTypeKrr_def IntegrationTypeUnknown_def

lemmas scope_state_defs = ScopeStateApproved_def ScopeStateDenied_def

lemma scope_states_differ [simp]:
  "ScopeStateApproved \<noteq> ScopeStateDenied" "ScopeStateDenied \<noteq> ScopeStateApproved"
  by (simp_all add: scope_state_defs)

section \<open>Payloads of the self-service API\<close>

record clientRegistration =
  cr_AccessTokenLifetime :: int
  cr_ApplicationType :: string
  cr_AuthorizationLifeTime :: int
  cr_ClientID :: string
  cr_ClientName :: string
  cr_ClientOrgno :: string
  cr_ClientURI :: string
  cr_Description :: string
  cr_FrontchannelLogoutSessionRequired :: bool
  cr_FrontchannelLogoutURI :: string
  cr_GrantTypes :: "string slice"
  cr_IntegrationType :: string
  cr_PostLogoutRedirectURIs :: "string slice"
  cr_RedirectURIs :: "string slice"
  cr_RefreshTokenLifetime :: int
  cr_RefreshTokenUsage :: string
  cr_Scopes :: "string slice"
  cr_SSODisabled :: bool
  cr_TokenEndpointAuthMethod :: string

record digdirJwk =
  dk_KeyID :: string
  dk_Expiry :: "64 word"

record jwksResponse =
  jr_Created :: string
  jr_LastUpdated :: string
  jr_Keys :: "digdirJwk list"

record accessScope =
  as_ConsumerOrgNo :: string
  as_OwnerOrgNo :: string
  as_Scope :: string
  as_State :: string

definition IsAccessible :: "accessScope \<Rightarrow> bool" where
  "IsAccessible s = (as_State s = ScopeAccessApproved)"

record scopeRegistration =
  sr_AccessibleForAll :: bool
  sr_Active :: bool
  sr_AllowedIntegrationType :: "string slice"
  sr_AtMaxAge :: int
  sr_AuthorizationMaxLifetime :: int
  sr_DelegationSource :: string
  sr_Description :: string
  sr_LongDescription :: string
  sr_Name :: string
  sr_OwnerOrgno :: string
  sr_Prefix :: string
  sr_RequiresPseudonymousTokens :: bool
  sr_RequiresUserAuthentication :: bool
  sr_RequiresUserConsent :: bool
  sr_Subscope :: string
  sr_TokenType :: string
  sr_Visibility :: string

record consumerRegistration =
  co_ConsumerOrgno :: string
  co_Created :: int
  co_LastUpdated :: int
  co_OwnerOrgno :: string
  co_Scope :: string
  co_State :: string

record delegationSource =
  del_Name :: string
  del_Issuer :: string

section \<open>Custom resources\<close>

text \<open>
  \<open>MaskinportenClient\<close> and \<open>IDPortenClient\<close> come from the liberator module; these are the fields
  the program uses. A pointer field is an option. The two resource kinds share metadata and status,
  and a Go type switch on the instance is a case distinction on the specification.
\<close>

record exposedScopeConsumer =
  ec_Name :: string
  ec_Orgno :: string

record exposedScope =
  es_Enabled :: bool
  es_Name :: string
  es_Product :: string
  es_Separator :: "string option"
  es_AtMaxAge :: "int option"
  es_AllowedIntegrations :: "string list"
  es_Consumers :: "exposedScopeConsumer list"
  es_DelegationSource :: "string option"
  es_AccessibleForAll :: "bool option"
  es_Visibility :: "string option"

record idportenSpec =
  is_ClientName :: string
  is_ClientURI :: string
  is_RedirectURI :: string
  is_RedirectURIs :: "string list"
  is_SecretName :: string
  is_FrontchannelLogoutURI :: string
  is_PostLogoutRedirectURIs :: "string list"
  is_SessionLifetime :: "int option"
  is_AccessTokenLifetime :: "int option"
  is_IntegrationType :: string
  is_Scopes :: "string list"
  is_SSODisabled :: "bool option"

record maskinportenSpec =
  ms_ClientName :: string
  ms_SecretName :: string
  ms_ConsumedScopes :: "string list"
  ms_ExposedScopes :: "exposedScope list"

datatype clientSpec = IDPortenClient idportenSpec | MaskinportenClient maskinportenSpec

record condition =
  cond_Type :: string
  cond_Status :: string
  cond_Reason :: string
  cond_Message :: string
  cond_ObservedGeneration :: int

record digdiratorStatus =
  st_ClientID :: string
  st_KeyIDs :: "string list"
  st_Conditions :: "condition list option"
  st_ObservedGeneration :: "int option"
  st_SynchronizationHash :: string
  st_SynchronizationSecretName :: string
  st_SynchronizationState :: string
  st_SynchronizationTime :: "int option"
  st_CorrelationID :: string

record objectMeta =
  om_Name :: string
  om_Namespace :: string
  om_Generation :: int
  om_Annotations :: "(string \<times> string) list"
  om_Finalizers :: "string list"
  om_DeletionTimestamp :: "int option"

record clientInstance =
  inst_Meta :: objectMeta
  inst_Spec :: clientSpec
  inst_Status :: digdiratorStatus

record namespacedName =
  nn_Namespace :: string
  nn_Name :: string

section \<open>Keys and secrets\<close>

text \<open>
  \<open>jose.JSONWebKey\<close>: the key material is a private or a public RSA key, identified by its modulus.
\<close>

datatype keyMaterial = RSAPrivate int | RSAPublic int

fun is_private :: "keyMaterial \<Rightarrow> bool" where
  "is_private (RSAPrivate _) = True"
| "is_private (RSAPublic _) = False"

record jsonWebKey =
  jwk_Key :: keyMaterial
  jwk_KeyID :: string
  jwk_Use :: string
  jwk_Algorithm :: string

text \<open>The zero \<open>time.Time\<close>, 1 January of year 1, in nanoseconds from the Unix epoch.\<close>

definition zeroTime :: int where
  "zeroTime = - 62135596800 * 1000000000"

record secret =
  sec_Name :: string
  sec_Namespace :: string
  sec_CreationTimestamp :: int
  sec_Annotations :: "(string \<times> string) list"
  sec_Labels :: "(string \<times> string) list"
  sec_Data :: "(string \<times> string) list"
  sec_Owner :: "(string \<times> string) option"

record secretLists =
  sl_Used :: "secret list"
  sl_Unused :: "secret list"

end
