(* ===== verification/Config.thy ===== *)
theory Config
  imports Types "HOL-Library.List_Lexorder" "HOL-Library.Char_ord"
begin

text \<open>
  \<open>pkg/config/config.go\<close>: the configuration record, its flags and their defaults, validation of the
  required keys, the redacted print-out, the URL of the admin API and the metadata fetched at
  start-up. Viper (the key-value store behind the flags, the environment and the file), the OAuth
  metadata client and \<open>net/url\<close> are arguments of the definitions that call them.
\<close>

named_theorems config_defs \<open>unfolding rules of the configuration component\<close>

section \<open>The configuration\<close>

record metadata =
  md_Issuer :: string
  md_JwksURI :: string
  md_TokenEndpoint :: string

record digDirCommon =
  dc_AccessTokenLifetime :: int
  dc_ClientName :: string
  dc_ClientURI :: string
  dc_SessionLifetime :: int

record admin =
  ad_BaseURL :: string
  ad_ClientID :: string
  ad_CertChain :: string
  ad_KMSKeyPath :: string
  ad_Scopes :: string

record idporten =
  idp_WellKnownURL :: string
  idp_Metadata :: metadata

record maskinporten =
  mp_DefaultClientScope :: string
  mp_DefaultScopePrefix :: string
  mp_WellKnownURL :: string
  mp_Metadata :: metadata
  mp_DelegationSources :: "(string \<times> delegationSource) list"

record features =
  ft_IDPorten :: bool
  ft_Maskinporten :: bool

record leaderElection =
  le_Enabled :: bool
  le_Namespace :: string

record config =
  cfg_MetricsAddr :: string
  cfg_ClusterName :: string
  cfg_Admin :: admin
  cfg_IDPorten :: idporten
  cfg_Maskinporten :: maskinporten
  cfg_Common :: digDirCommon
  cfg_Features :: features
  cfg_LeaderElection :: leaderElection
  cfg_LogLevel :: string

section \<open>Keys, flags and defaults\<close>

definition LogLevel :: string where "LogLevel = ''log-level''"
definition MetricsAddress :: string where "MetricsAddress = ''metrics-address''"
definition ClusterName :: string where "ClusterName = ''cluster-name''"
definition LeaderElectionEnabled :: string where "LeaderElectionEnabled = ''leader-election.enabled''"
definition LeaderElectionNamespace :: string where "LeaderElectionNamespace = ''leader-election.namespace''"
definition DigDirAdminBaseURL :: string where "DigDirAdminBaseURL = ''digdir.admin.base-url''"
definition DigDirAdminClientID :: string where "DigDirAdminClientID = ''digdir.admin.client-id''"
definition DigDirAdminCertChain :: string where "DigDirAdminCertChain = ''digdir.admin.cert-chain''"
definition DigDirAdminKmsKeyPath :: string where "DigDirAdminKmsKeyPath = ''digdir.admin.kms-key-path''"
definition DigDirAdminScopes :: string where "DigDirAdminScopes = ''digdir.admin.scopes''"
definition DigDirCommonClientName :: string where "DigDirCommonClientName = ''digdir.common.client-name''"
definition DigDirCommonClientURI :: string where "DigDirCommonClientURI = ''digdir.common.client-uri''"
definition DigDirCommonAccessTokenLifetime :: string where
  "DigDirCommonAccessTokenLifetime = ''digdir.common.access-token-lifetime''"
definition DigDirCommonSessionLifetime :: string where
  "DigDirCommonSessionLifetime = ''digdir.common.session-lifetime''"
definition DigDirIDPortenWellKnownURL :: string where
  "DigDirIDPortenWellKnownURL = ''digdir.idporten.well-known-url''"
definition DigDirMaskinportenDefaultClientScope :: string where
  "DigDirMaskinportenDefaultClientScope = ''digdir.maskinporten.default.client-scope''"
definition DigDirMaskinportenDefaultScopePrefix :: string where
  "DigDirMaskinportenDefaultScopePrefix = ''digdir.maskinporten.default.scope-prefix''"
definition DigDirMaskinportenWellKnownURL :: string where
  "DigDirMaskinportenWellKnownURL = ''digdir.maskinporten.well-known-url''"
definition FeaturesIDPorten :: string where "FeaturesIDPorten = ''features.idporten''"
definition FeaturesMaskinporten :: string where "FeaturesMaskinporten = ''features.maskinporten''"

lemmas key_defs [config_defs] = LogLevel_def MetricsAddress_def ClusterName_def LeaderElectionEnabled_def
  LeaderElectionNamespace_def DigDirAdminBaseURL_def DigDirAdminClientID_def DigDirAdminCertChain_def
  DigDirAdminKmsKeyPath_def DigDirAdminScopes_def DigDirCommonClientName_def DigDirCommonClientURI_def
  DigDirCommonAccessTokenLifetime_def DigDirCommonSessionLifetime_def DigDirIDPortenWellKnownURL_def
  DigDirMaskinportenDefaultClientScope_def DigDirMaskinportenDefaultScopePrefix_def
  DigDirMaskinportenWellKnownURL_def FeaturesIDPorten_def FeaturesMaskinporten_def

text \<open>The flags that \<open>init\<close> declares, in its order, with their default values.\<close>

datatype flagValue = FString string | FBool bool | FInt int

definition flag_defaults :: "(string \<times> flagValue) list" where
  "flag_defaults =
    [(MetricsAddress, FString '':8080''),
     (ClusterName, FString ''''),
     (LeaderElectionEnabled, FBool False),
     (LeaderElectionNamespace, FString ''''),
     (LogLevel, FString ''info''),
     (DigDirAdminBaseURL, FString ''''),
     (DigDirAdminClientID, FString ''''),
     (DigDirAdminScopes, FString ''idporten:dcr.write idporten:dcr.read idporten:scopes.write''),
     (DigDirAdminKmsKeyPath, FString ''projects/<project-id>/locations/<location>/keyRings/<key-ring-name>/cryptoKeys/<key-name>/cryptoKeyVersions/<key-version>''),
     (DigDirAdminCertChain, FString ''''),
     (DigDirCommonClientName, FString ''ARBEIDS- OG VELFERDSETATEN''),
     (DigDirCommonClientURI, FString ''https://www.nav.no''),
     (DigDirCommonAccessTokenLifetime, FInt 3600),
     (DigDirCommonSessionLifetime, FInt 7200),
     (DigDirIDPortenWellKnownURL, FString ''''),
     (DigDirMaskinportenDefaultClientScope, FString ''nav:test/api''),
     (DigDirMaskinportenDefaultScopePrefix, FString ''nav''),
     (DigDirMaskinportenWellKnownURL, FString ''''),
     (FeaturesMaskinporten, FBool False),
     (FeaturesIDPorten, FBool True)]"

section \<open>Printing\<close>

text \<open>
  The lines \<open>Print\<close> logs, for the keys of the store (\<open>viper.AllKeys\<close>) and its \<open>viper.GetString\<close>.
\<close>

definition Print :: "string list \<Rightarrow> (string \<Rightarrow> string) \<Rightarrow> string list \<Rightarrow> string list" where
  "Print allKeys getString redacted =
     map (\<lambda>key. if \<not> List.member redacted key then key @ '': '' @ getString key
                else key @ '': ***REDACTED***'') (sort allKeys)"

section \<open>Validation\<close>

text \<open>
  The inner function \<open>present\<close>: a key that is not required is always present; a required one is when
  its value is not empty.
\<close>

fun present :: "(string \<Rightarrow> string) \<Rightarrow> string list \<Rightarrow> string \<Rightarrow> bool" where
  "present getString [] key = True"
| "present getString (requiredKey # rest) key =
     (if requiredKey = key then length (getString requiredKey) > 0 else present getString rest key)"

record url =
  u_Rest :: string
  u_Path :: string

record urlLib =
  url_Parse :: "string \<Rightarrow> gerror + url"
  url_JoinPath :: "url \<Rightarrow> string list \<Rightarrow> url"
  url_String :: "url \<Rightarrow> string"

text \<open>\<open>Validate\<close> returns the error, if any, and the keys it logs as missing.\<close>

definition Validate ::
  "urlLib \<Rightarrow> config \<Rightarrow> string list \<Rightarrow> (string \<Rightarrow> string) \<Rightarrow> string list \<Rightarrow> (gerror + unit) \<times> string list" where
  "Validate u c allKeys getString required =
     (let errs = filter (\<lambda>key. \<not> present getString required key) (sort allKeys) in
      if length errs > 0 then (Inl (Err ''missing configuration values''), errs)
      else case url_Parse u (ad_BaseURL (cfg_Admin c)) of
             Inl e \<Rightarrow> (Inl (Wrap (''parsing '' @ quote DigDirAdminBaseURL) e), errs)
           | Inr _ \<Rightarrow> (Inr (), errs))"

section \<open>The admin URL\<close>

text \<open>\<open>ApiV1URL\<close>; an unparsable base URL ends the process, which the model gives as a panic.\<close>

definition ApiV1URL :: "urlLib \<Rightarrow> admin \<Rightarrow> gerror + url" where
  "ApiV1URL u a =
     (case url_Parse u (ad_BaseURL a) of
        Inl e \<Rightarrow> Inl (Panicked ''os.Exit(1)'')
      | Inr adminURL \<Rightarrow>
          if has_suffix (u_Path adminURL) ''/api/v1'' then Inr adminURL
          else Inr (url_JoinPath u adminURL [''/api/v1'']))"

section \<open>Provider metadata\<close>

text \<open>
  \<open>delegationSources\<close>: the response body is decoded whatever the status code. The arguments stand
  for \<open>http.NewRequestWithContext\<close>, \<open>http.DefaultClient.Do\<close> (giving the body) and the JSON decoder.
\<close>

definition delegationSourceMap :: "delegationSource list \<Rightarrow> (string \<times> delegationSource) list" where
  "delegationSourceMap delegationSources =
     foldl (\<lambda>m source. AList.update (del_Name source) source m) [] delegationSources"

definition delegationSources ::
  "urlLib \<Rightarrow> (string \<Rightarrow> gerror + 'req) \<Rightarrow> ('req \<Rightarrow> ('s, string) eff) \<Rightarrow>
   (string \<Rightarrow> gerror + delegationSource list) \<Rightarrow> config \<Rightarrow>
   ('s, (string \<times> delegationSource) list) eff" where
  "delegationSources u newRequest do decode c =
     bindE (liftE (ApiV1URL u (cfg_Admin c))) (\<lambda>base.
     bindE (wrapE ''make delegation source request''
              (liftE (newRequest (url_String u (url_JoinPath u base [''delegationsources'']))))) (\<lambda>req.
     bindE (wrapE ''fetch delegation sources'' (do req)) (\<lambda>body.
     bindE (wrapE ''decode delegation sources'' (liftE (decode body))) (\<lambda>sources.
     returnE (delegationSourceMap sources)))))"

definition WithProviderMetadata ::
  "(string \<Rightarrow> ('s, metadata) eff) \<Rightarrow> (string \<Rightarrow> ('s, metadata) eff) \<Rightarrow>
   (config \<Rightarrow> ('s, (string \<times> delegationSource) list) eff) \<Rightarrow> config \<Rightarrow> ('s, config) eff" where
  "WithProviderMetadata newMetadataOAuth newMetadataOpenID sources c =
     bindE (wrapE (''resolving Maskinporten metadata from '' @ quote (mp_WellKnownURL (cfg_Maskinporten c)))
              (newMetadataOAuth (mp_WellKnownURL (cfg_Maskinporten c)))) (\<lambda>maskinportenMetadata.
     bindE (wrapE ''resolving delegation sources'' (sources c)) (\<lambda>delegationSources.
     let c1 = c\<lparr>cfg_Maskinporten := (cfg_Maskinporten c)
                  \<lparr>mp_Metadata := maskinportenMetadata, mp_DelegationSources := delegationSources\<rparr>\<rparr> in
     if ft_IDPorten (cfg_Features c1) then
       bindE (wrapE (''resolving ID-porten metadata from '' @ quote (idp_WellKnownURL (cfg_IDPorten c1)))
                (newMetadataOpenID (idp_WellKnownURL (cfg_IDPorten c1)))) (\<lambda>idportenMetadata.
       returnE (c1\<lparr>cfg_IDPorten := (cfg_IDPorten c1)\<lparr>idp_Metadata := idportenMetadata\<rparr>\<rparr>))
     else returnE c1))"

section \<open>Reading the configuration\<close>

text \<open>
  \<open>New\<close>. \<open>readInConfig\<close> is the result of \<open>viper.ReadInConfig\<close>: no error, the file-not-found error or
  another one. The guard asserts the error's dynamic type without the comma-ok form, so any other
  error panics before it can be returned; a file-not-found error is equal to itself and ignored.
\<close>

datatype viperError = ConfigFileNotFoundError string | OtherViperError string

definition New :: "viperError option \<Rightarrow> gerror + unit \<Rightarrow> gerror + config \<Rightarrow> gerror + config" where
  "New readInConfig bindPFlags unmarshal =
     (case readInConfig of
        Some (OtherViperError m) \<Rightarrow> Inl (Panicked ''interface conversion'')
      | _ \<Rightarrow> (case bindPFlags of Inl e \<Rightarrow> Inl e | Inr _ \<Rightarrow> unmarshal))"

lemmas [config_defs] = Print_def Validate_def ApiV1URL_def delegationSourceMap_def
  delegationSources_def WithProviderMetadata_def New_def

section \<open>Properties\<close>

lemma present_iff: "present g required key \<longleftrightarrow> (key \<in> set required \<longrightarrow> g key \<noteq> [])"
  by (induction required) auto

interpretation ds: last_wins delegationSourceMap del_Name "\<lambda>s. s"
  by unfold_locales (simp add: delegationSourceMap_def)

text \<open>Validation logs, in order, exactly the required keys of the store that have no value.\<close>

lemma Validate_missing:
  "snd (Validate u c allKeys g required) =
     sort (filter (\<lambda>k. k \<in> set required \<and> g k = []) allKeys)"
proof -
  have "snd (Validate u c allKeys g required) =
      filter (\<lambda>k. \<not> present g required k) (sort allKeys)"
    by (simp add: Validate_def Let_def split: sum.split)
  then show ?thesis by (simp add: present_iff filter_sort conj_commute)
qed

lemma Validate_ok_iff:
  "fst (Validate u c allKeys g required) = Inr () \<longleftrightarrow>
     (\<forall>k \<in> set allKeys \<inter> set required. g k \<noteq> []) \<and> (\<exists>url. url_Parse u (ad_BaseURL (cfg_Admin c)) = Inr url)"
  by (auto simp: Validate_def Let_def present_iff filter_empty_conv split: sum.splits)

end
