(* ===== verification/Scopes.thy ===== *)
theory Scopes
  imports Types
begin

text \<open>
  \<open>pkg/digdir/scopes\<close>: naming of Maskinporten scopes (\<open>scope.go\<close>), the difference between the
  consumers a scope should have and its access control list in DigDir (\<open>scope.go\<close>, \<open>consumer.go\<close>),
  and the split of the desired scopes into those to create and those to update
  (\<open>operations.go\<close>). Go iterates over maps in an unspecified order: \<open>FilterConsumers\<close> takes the order
  of each of its two \<open>range\<close> loops as an argument, and every property holds for every order.
\<close>

section \<open>Names\<close>

record scope =
  sc_ScopeRegistration :: scopeRegistration
  sc_CurrentScope :: exposedScope

definition CurrentScopeInfo :: "scopeRegistration \<Rightarrow> exposedScope \<Rightarrow> scope" where
  "CurrentScopeInfo registration s =
     \<lparr>sc_ScopeRegistration = registration, sc_CurrentScope = s\<rparr>"

definition ToString :: "scope \<Rightarrow> string" where
  "ToString s = sr_Prefix (sc_ScopeRegistration s) @ '':'' @ sr_Subscope (sc_ScopeRegistration s)"

definition Description :: "objectMeta \<Rightarrow> string \<Rightarrow> string \<Rightarrow> string" where
  "Description resource clusterName productName =
     productName @ '' - '' @ clusterName @ '':'' @ om_Namespace resource @ '':'' @ om_Name resource"

definition Subscope :: "exposedScope \<Rightarrow> string" where
  "Subscope e =
     (let separator = (case es_Separator e of Some sep \<Rightarrow> sep | None \<Rightarrow> '''');
          separator' = (if separator = ''''
                        then (if contains_char (es_Name e) (CHR ''/'') then ''/'' else '':'')
                        else separator)
      in es_Product e @ separator' @ es_Name e)"

section \<open>Consumers\<close>

record consumer =
  c_ShouldBeAdded :: bool
  c_State :: string
  c_Orgno :: string

definition CreateConsumer :: "bool \<Rightarrow> string \<Rightarrow> string \<Rightarrow> consumer" where
  "CreateConsumer shouldBeAdded state orgno =
     \<lparr>c_ShouldBeAdded = shouldBeAdded, c_State = state, c_Orgno = orgno\<rparr>"

type_synonym consumers = "(string \<times> consumer) list"

fun findIn :: "consumer \<Rightarrow> consumers \<Rightarrow> bool" where
  "findIn c [] = False"
| "findIn c ((_, x) # rest) = (if c_Orgno x = c_Orgno c then True else findIn c rest)"

definition addOrUpdate :: "consumer \<Rightarrow> bool \<Rightarrow> bool \<Rightarrow> consumer list \<Rightarrow> consumer list" where
  "addOrUpdate c found swapped consumerList =
     (let (c1, list1) =
            (if \<not> found \<and> \<not> swapped
             then (let c' = c\<lparr>c_ShouldBeAdded := True, c_State := ScopeStateApproved\<rparr>
                   in (c', consumerList @ [c']))
             else (c, consumerList));
          list2 =
            (if \<not> found \<and> swapped \<and> c_State c1 \<noteq> ScopeStateDenied then list1 @ [c1] else list1)
      in if found \<and> swapped \<and> c_State c1 = ScopeStateDenied
         then list2 @ [c1\<lparr>c_ShouldBeAdded := True\<rparr>] else list2)"

definition addConsumerStatus :: "bool \<Rightarrow> bool \<Rightarrow> string \<Rightarrow> string list \<Rightarrow> string list" where
  "addConsumerStatus found swapped consumerOrgno consumerStatus =
     (if found \<and> \<not> swapped then consumerStatus @ [consumerOrgno] else consumerStatus)"

text \<open>The two functions \<open>toConsumers\<close>: of a scope's desired consumers and of an ACL.\<close>

definition expectedConsumers :: "exposedScopeConsumer list \<Rightarrow> consumers" where
  "expectedConsumers cs =
     foldl (\<lambda>m c. AList.update (ec_Orgno c) (CreateConsumer False ScopeStateDenied (ec_Orgno c)) m) [] cs"

definition Scope_toConsumers :: "scope \<Rightarrow> consumers" where
  "Scope_toConsumers s = expectedConsumers (es_Consumers (sc_CurrentScope s))"

definition toConsumers :: "consumerRegistration list \<Rightarrow> consumers" where
  "toConsumers acl =
     foldl (\<lambda>m c. AList.update (co_ConsumerOrgno c) (CreateConsumer False (co_State c) (co_ConsumerOrgno c)) m)
       [] acl"

section \<open>The difference between an ACL and the desired consumers\<close>

type_synonym rangeOrder = "consumers \<Rightarrow> consumers"

definition range_order :: "rangeOrder \<Rightarrow> bool" where
  "range_order ord \<longleftrightarrow> (\<forall>m. mset (ord m) = mset m)"

definition NumberOfPermutation :: nat where
  "NumberOfPermutation = 2"

text \<open>The inner loop, over the visited entries of one of the two maps.\<close>

definition filter_pass ::
  "bool \<Rightarrow> consumers \<Rightarrow> consumers \<Rightarrow> string list \<times> consumer list \<Rightarrow> string list \<times> consumer list" where
  "filter_pass swapped visited aclConsumerList acc =
     foldl (\<lambda>(consumerStatus, differance) (_, c).
              let found = findIn c aclConsumerList in
              (addConsumerStatus found swapped (c_Orgno c) consumerStatus,
               addOrUpdate c found swapped differance)) acc visited"

text \<open>The outer loop over \<open>i\<close>, which swaps the two maps after its first round.\<close>

fun filter_rounds ::
  "(nat \<Rightarrow> rangeOrder) \<Rightarrow> nat \<Rightarrow> nat \<Rightarrow> bool \<Rightarrow> consumers \<Rightarrow> consumers \<Rightarrow>
   string list \<times> consumer list \<Rightarrow> string list \<times> consumer list" where
  "filter_rounds ord 0 i swapped expected acl acc = acc"
| "filter_rounds ord (Suc n) i swapped expected acl acc =
     (let acc' = filter_pass swapped (ord i expected) acl acc in
      if i = 0 then filter_rounds ord n (Suc i) True acl expected acc'
      else filter_rounds ord n (Suc i) swapped expected acl acc')"

definition FilterConsumers ::
  "(nat \<Rightarrow> rangeOrder) \<Rightarrow> scope \<Rightarrow> consumerRegistration list \<Rightarrow> string list \<times> consumer list" where
  "FilterConsumers ord s acl =
     filter_rounds ord NumberOfPermutation 0 False (Scope_toConsumers s) (toConsumers acl) ([], [])"

section \<open>Creating and updating scopes\<close>

record operations =
  ToCreate :: "exposedScope list"
  ToUpdate :: "scope list"

definition subscopes :: "scopeRegistration list \<Rightarrow> (string \<times> scopeRegistration) list" where
  "subscopes actualScopes = foldl (\<lambda>m actual. AList.update (sr_Subscope actual) actual m) [] actualScopes"

definition Generate :: "scopeRegistration list \<Rightarrow> exposedScope list \<Rightarrow> operations" where
  "Generate actualScopes desiredScopes =
     foldl (\<lambda>ops desired.
              case map_of (subscopes actualScopes) (Subscope desired) of
                Some subscope \<Rightarrow> ops\<lparr>ToUpdate := ToUpdate ops @ [CurrentScopeInfo subscope desired]\<rparr>
              | None \<Rightarrow> ops\<lparr>ToCreate := ToCreate ops @ [desired]\<rparr>)
       \<lparr>ToCreate = [], ToUpdate = []\<rparr> desiredScopes"

section \<open>The maps the loops fill\<close>

interpretation expected: last_wins expectedConsumers ec_Orgno
    "\<lambda>c. CreateConsumer False ScopeStateDenied (ec_Orgno c)"
  by unfold_locales (simp add: expectedConsumers_def)

interpretation actual: last_wins toConsumers co_ConsumerOrgno
    "\<lambda>c. CreateConsumer False (co_State c) (co_ConsumerOrgno c)"
  by unfold_locales (simp add: toConsumers_def)

interpretation subs: last_wins subscopes sr_Subscope "\<lambda>s. s"
  by unfold_locales (simp add: subscopes_def)

text \<open>The desired organisation numbers of a scope, and the state an ACL gives to an organisation.\<close>

definition desired_orgnos :: "scope \<Rightarrow> string set" where
  "desired_orgnos s = ec_Orgno ` set (es_Consumers (sc_CurrentScope s))"

definition acl_state :: "consumerRegistration list \<Rightarrow> string \<Rightarrow> string option" where
  "acl_state acl orgno = map_option co_State (List.find (\<lambda>c. co_ConsumerOrgno c = orgno) (rev acl))"

lemma CreateConsumer_sel [simp]:
  "c_ShouldBeAdded (CreateConsumer b st n) = b" "c_State (CreateConsumer b st n) = st"
  "c_Orgno (CreateConsumer b st n) = n"
  by (simp_all add: CreateConsumer_def)

lemma CreateConsumer_upd [simp]:
  "CreateConsumer b st n\<lparr>c_ShouldBeAdded := b'\<rparr> = CreateConsumer b' st n"
  "CreateConsumer b st n\<lparr>c_State := st'\<rparr> = CreateConsumer b st' n"
  by (simp_all add: CreateConsumer_def)

lemma CreateConsumer_inject [simp]:
  "CreateConsumer b st n = CreateConsumer b' st' n' \<longleftrightarrow> b = b' \<and> st = st' \<and> n = n'"
  by (simp add: CreateConsumer_def)

lemma mem_Scope_toConsumers:
  "(n, c) \<in> set (Scope_toConsumers s) \<longleftrightarrow>
     n \<in> desired_orgnos s \<and> c = CreateConsumer False ScopeStateDenied n"
proof -
  let ?m = "map_of (Scope_toConsumers s)"
  have "?m n = Some v \<Longrightarrow> v = CreateConsumer False ScopeStateDenied n" for v
    unfolding Scope_toConsumers_def by (auto dest: expected.lookup_SomeD)
  moreover have "?m n = None \<longleftrightarrow> n \<notin> desired_orgnos s"
    unfolding Scope_toConsumers_def desired_orgnos_def by (rule expected.lookup_None_iff)
  moreover have "(n, c) \<in> set (Scope_toConsumers s) \<longleftrightarrow> ?m n = Some c"
    unfolding Scope_toConsumers_def by (rule expected.mem_iff)
  ultimately show ?thesis by (cases "?m n") auto
qed

lemma distinct_Scope_toConsumers: "distinct (map fst (Scope_toConsumers s))"
  unfolding Scope_toConsumers_def by (rule expected.distinct_keys)

lemma acl_state_None_iff: "acl_state acl n = None \<longleftrightarrow> n \<notin> co_ConsumerOrgno ` set acl"
  by (auto simp: acl_state_def find_None_iff)

lemma map_of_toConsumers:
  "map_of (toConsumers acl) n = map_option (\<lambda>st. CreateConsumer False st n) (acl_state acl n)"
proof -
  have "co_ConsumerOrgno c = n" if "List.find (\<lambda>c. co_ConsumerOrgno c = n) (rev acl) = Some c" for c
    using that by (auto simp: find_Some_iff)
  then show ?thesis
    by (cases "List.find (\<lambda>c. co_ConsumerOrgno c = n) (rev acl)")
      (simp_all add: actual.lookup_eq acl_state_def)
qed

lemma mem_toConsumers:
  "(n, c) \<in> set (toConsumers acl) \<longleftrightarrow> (\<exists>st. acl_state acl n = Some st \<and> c = CreateConsumer False st n)"
  using actual.mem_iff [of n c acl] by (auto simp: map_of_toConsumers)

lemma set_Scope_toConsumers:
  "set (Scope_toConsumers s) = (\<lambda>n. (n, CreateConsumer False ScopeStateDenied n)) ` desired_orgnos s"
  by (auto simp: mem_Scope_toConsumers)

lemma set_toConsumers:
  "set (toConsumers acl) =
     (\<lambda>(n, st). (n, CreateConsumer False st n)) ` {(n, st). acl_state acl n = Some st}"
  by (auto simp: mem_toConsumers image_iff)

section \<open>What \<open>FilterConsumers\<close> computes\<close>

lemma findIn_iff: "findIn c m \<longleftrightarrow> (\<exists>(k, x) \<in> set m. c_Orgno x = c_Orgno c)"
  by (induction c m rule: findIn.induct) auto

lemma findIn_acl [simp]: "findIn (CreateConsumer b st n) (toConsumers acl) \<longleftrightarrow> acl_state acl n \<noteq> None"
  by (auto simp: findIn_iff set_toConsumers)

lemma findIn_expected [simp]: "findIn (CreateConsumer b st n) (Scope_toConsumers s) \<longleftrightarrow> n \<in> desired_orgnos s"
  by (auto simp: findIn_iff set_Scope_toConsumers)

text \<open>What a single entry contributes to the difference.\<close>

definition delta :: "bool \<Rightarrow> consumers \<Rightarrow> consumer \<Rightarrow> consumer list" where
  "delta swapped acl c =
     (if findIn c acl
      then (if swapped \<and> c_State c = ScopeStateDenied then [c\<lparr>c_ShouldBeAdded := True\<rparr>] else [])
      else if swapped then (if c_State c \<noteq> ScopeStateDenied then [c] else [])
      else [c\<lparr>c_ShouldBeAdded := True, c_State := ScopeStateApproved\<rparr>])"

lemma addOrUpdate_delta: "addOrUpdate c (findIn c acl) swapped xs = xs @ delta swapped acl c"
  by (simp add: addOrUpdate_def delta_def Let_def)

lemma filter_pass_eq:
  "filter_pass swapped visited acl (st, df) =
     (st @ (if swapped then [] else map c_Orgno (filter (\<lambda>c. findIn c acl) (map snd visited))),
      df @ concat (map (delta swapped acl) (map snd visited)))"
proof (induction visited arbitrary: st df)
  case Nil
  then show ?case by (simp add: filter_pass_def)
next
  case (Cons x visited)
  obtain k c where x: "x = (k, c)" by (cases x)
  have step: "filter_pass swapped (x # visited) acl (st, df) =
      filter_pass swapped visited acl
        (addConsumerStatus (findIn c acl) swapped (c_Orgno c) st, df @ delta swapped acl c)"
    by (simp add: filter_pass_def x Let_def addOrUpdate_delta)
  show ?case
    by (subst step, subst Cons.IH) (simp add: x addConsumerStatus_def)
qed

lemma FilterConsumers_eq:
  "FilterConsumers ord s acl =
     (map c_Orgno (filter (\<lambda>c. findIn c (toConsumers acl)) (map snd (ord 0 (Scope_toConsumers s)))),
      concat (map (delta False (toConsumers acl)) (map snd (ord 0 (Scope_toConsumers s)))) @
      concat (map (delta True (Scope_toConsumers s)) (map snd (ord 1 (toConsumers acl)))))"
  by (simp add: FilterConsumers_def NumberOfPermutation_def numeral_2_eq_2 Let_def filter_pass_eq)

lemma set_range_order: "range_order ord \<Longrightarrow> set (ord m) = set m"
  unfolding range_order_def by (metis set_mset_mset)

lemma distinct_range_order: "range_order ord \<Longrightarrow> distinct (map fst m) \<Longrightarrow> distinct (map fst (ord m))"
  unfolding range_order_def by (metis mset_map mset_eq_imp_distinct_iff)

text \<open>The consumers each of the two rounds contributes.\<close>

lemma set_delta_expected:
  assumes "range_order ord"
  shows "set (concat (map (delta False (toConsumers acl)) (map snd (ord (Scope_toConsumers s))))) =
    {CreateConsumer True ScopeStateApproved n | n. n \<in> desired_orgnos s \<and> acl_state acl n = None}"
  by (auto simp: set_range_order [OF assms] set_Scope_toConsumers delta_def)

lemma set_delta_acl:
  assumes "range_order ord"
  shows "set (concat (map (delta True (Scope_toConsumers s)) (map snd (ord (toConsumers acl))))) =
    {CreateConsumer (n \<in> desired_orgnos s) st n | n st.
       acl_state acl n = Some st \<and> (n \<in> desired_orgnos s \<longleftrightarrow> st = ScopeStateDenied)}"
  by (auto simp: set_range_order [OF assms] set_toConsumers delta_def)

text \<open>Each round lists the organisation numbers of some of its entries, in the order it visits them.\<close>

lemma orgnos_delta:
  assumes "\<And>k c. (k, c) \<in> set m \<Longrightarrow> c_Orgno c = k"
  shows "map c_Orgno (concat (map (delta sw other) (map snd m))) =
    map fst (filter (\<lambda>kc. delta sw other (snd kc) \<noteq> []) m)"
  using assms
proof (induction m)
  case (Cons x m)
  have "c_Orgno (snd x) = fst x" using Cons.prems by (metis list.set_intros(1) prod.collapse)
  with Cons show ?case by (auto simp: delta_def)
qed simp

lemma distinct_orgnos_difference:
  assumes "\<forall>i. range_order (ord i)"
  shows "distinct (map c_Orgno (snd (FilterConsumers ord s acl)))"
proof -
  let ?A = "ord 0 (Scope_toConsumers s)" and ?B = "ord 1 (toConsumers acl)"
  let ?P = "\<lambda>kc. delta False (toConsumers acl) (snd kc) \<noteq> []"
  let ?Q = "\<lambda>kc. delta True (Scope_toConsumers s) (snd kc) \<noteq> []"
  have A: "(k, c) \<in> set ?A \<Longrightarrow> c = CreateConsumer False ScopeStateDenied k"
    and B: "(k, c) \<in> set ?B \<Longrightarrow> \<exists>st. acl_state acl k = Some st \<and> c = CreateConsumer False st k" for k c
    by (auto simp: set_range_order [OF assms [rule_format]] set_Scope_toConsumers set_toConsumers)
  have "distinct (map fst ?A)" "distinct (map fst ?B)"
    using assms distinct_Scope_toConsumers actual.distinct_keys by (auto intro: distinct_range_order)
  then have "distinct (map fst (filter ?P ?A))" "distinct (map fst (filter ?Q ?B))"
    by (simp_all add: distinct_map_filter)
  moreover have "acl_state acl k = None" if "(k, c) \<in> set (filter ?P ?A)" for k c
  proof -
    have "c = CreateConsumer False ScopeStateDenied k" using that A by auto
    with that show ?thesis by (auto simp: delta_def split: if_splits)
  qed
  then have "fst ` set (filter ?P ?A) \<inter> fst ` set (filter ?Q ?B) = {}" using B by fastforce
  moreover have "map c_Orgno (concat (map (delta False (toConsumers acl)) (map snd ?A))) = map fst (filter ?P ?A)"
    "map c_Orgno (concat (map (delta True (Scope_toConsumers s)) (map snd ?B))) = map fst (filter ?Q ?B)"
    by (rule orgnos_delta, use A B in force)+
  ultimately show ?thesis by (simp only: FilterConsumers_eq snd_conv map_append distinct_append set_map)
qed

lemma set_difference:
  assumes "\<forall>i. range_order (ord i)"
  shows "c \<in> set (snd (FilterConsumers ord s acl)) \<longleftrightarrow>
    (\<exists>n. n \<in> desired_orgnos s \<and> acl_state acl n = None \<and> c = CreateConsumer True ScopeStateApproved n) \<or>
    (\<exists>n. n \<in> desired_orgnos s \<and> acl_state acl n = Some ScopeStateDenied \<and> c = CreateConsumer True ScopeStateDenied n) \<or>
    (\<exists>n st. n \<notin> desired_orgnos s \<and> acl_state acl n = Some st \<and> st \<noteq> ScopeStateDenied \<and> c = CreateConsumer False st n)"
  unfolding FilterConsumers_eq snd_conv set_append
    set_delta_expected [OF assms [rule_format]] set_delta_acl [OF assms [rule_format]]
  by auto

text \<open>
  C22: the difference between the desired consumers of a scope and its ACL names every organisation
  at most once, and lists exactly these: a desired one the ACL does not know, to be added as approved;
  a desired one the ACL denies, to be added again; and one that is not desired but has access that is
  not denied, to be removed. This holds for every order in which Go walks the two maps.
\<close>

theorem filter_consumers_difference:
  assumes "\<forall>i. range_order (ord i)"
  shows "distinct (map c_Orgno (snd (FilterConsumers ord s acl))) \<and>
    set (snd (FilterConsumers ord s acl)) =
      {CreateConsumer True ScopeStateApproved n | n. n \<in> desired_orgnos s \<and> acl_state acl n = None} \<union>
      {CreateConsumer True ScopeStateDenied n | n. n \<in> desired_orgnos s \<and> acl_state acl n = Some ScopeStateDenied} \<union>
      {CreateConsumer False st n | n st. n \<notin> desired_orgnos s \<and> acl_state acl n = Some st \<and> st \<noteq> ScopeStateDenied}"
  using distinct_orgnos_difference [of ord, OF assms] set_difference [of ord, OF assms] by blast

text \<open>A scope with two desired consumers, and an ACL that denies one of them and approves a third.\<close>

definition sample_scope :: scope where
  "sample_scope = CurrentScopeInfo
     \<lparr>sr_AccessibleForAll = False, sr_Active = True, sr_AllowedIntegrationType = None, sr_AtMaxAge = 30,
      sr_AuthorizationMaxLifetime = 0, sr_DelegationSource = [], sr_Description = [], sr_LongDescription = [],
      sr_Name = ''nav:arbeid/my'', sr_OwnerOrgno = [], sr_Prefix = ''nav'', sr_RequiresPseudonymousTokens = False,
      sr_RequiresUserAuthentication = False, sr_RequiresUserConsent = False, sr_Subscope = ''arbeid/my'',
      sr_TokenType = TokenTypeSelfContained, sr_Visibility = ScopeVisibilityPublic\<rparr>
     \<lparr>es_Enabled = True, es_Name = ''my'', es_Product = ''arbeid'', es_Separator = Some ''/'', es_AtMaxAge = None,
      es_AllowedIntegrations = [], es_Consumers = [\<lparr>ec_Name = ''a'', ec_Orgno = ''1''\<rparr>, \<lparr>ec_Name = ''b'', ec_Orgno = ''2''\<rparr>],
      es_DelegationSource = None, es_AccessibleForAll = None, es_Visibility = None\<rparr>"

definition sample_acl :: "consumerRegistration list" where
  "sample_acl = map (\<lambda>(n, st). \<lparr>co_ConsumerOrgno = n, co_Created = 0, co_LastUpdated = 0, co_OwnerOrgno = ''0'',
     co_Scope = ''nav:arbeid/my'', co_State = st\<rparr>) [(''2'', ScopeStateDenied), (''3'', ScopeStateApproved)]"

lemma range_order_rev: "range_order rev"
  by (simp add: range_order_def)

lemma sample_orgnos: "desired_orgnos sample_scope = {''1'', ''2''}"
  by (simp add: desired_orgnos_def sample_scope_def CurrentScopeInfo_def)

lemma sample_acl_state:
  "acl_state sample_acl n =
     (if n = ''2'' then Some ScopeStateDenied else if n = ''3'' then Some ScopeStateApproved else None)"
  by (simp add: acl_state_def sample_acl_def)

theorem filter_consumers_difference_witness:
  "(\<forall>i::nat. range_order ((\<lambda>_. rev) i)) \<and>
   distinct (map c_Orgno (snd (FilterConsumers (\<lambda>_. rev) sample_scope sample_acl))) \<and>
   set (snd (FilterConsumers (\<lambda>_. rev) sample_scope sample_acl)) =
     {CreateConsumer True ScopeStateApproved ''1'', CreateConsumer True ScopeStateDenied ''2'',
      CreateConsumer False ScopeStateApproved ''3''}"
proof -
  have h: "\<forall>i::nat. range_order ((\<lambda>_. rev) i)" by (simp add: range_order_rev)
  have orgnos: "n \<in> desired_orgnos sample_scope \<and> acl_state sample_acl n = None \<longleftrightarrow> n = ''1''"
    "n \<in> desired_orgnos sample_scope \<and> acl_state sample_acl n = Some ScopeStateDenied \<longleftrightarrow> n = ''2''"
    "n \<notin> desired_orgnos sample_scope \<and> acl_state sample_acl n = Some st \<and> st \<noteq> ScopeStateDenied \<longleftrightarrow>
       n = ''3'' \<and> st = ScopeStateApproved" for n st
    unfolding sample_orgnos sample_acl_state by (cases "n = ''2''"; cases "n = ''3''"; auto)+
  have sets: "{f n | n. n = a} = {f a}" "{g st n | n st. n = a \<and> st = b} = {g b a}"
    for f :: "string \<Rightarrow> consumer" and g :: "string \<Rightarrow> string \<Rightarrow> consumer" and a b
    by auto
  show ?thesis
    using filter_consumers_difference [where ord = "\<lambda>_. rev" and s = sample_scope and acl = sample_acl, OF h] h
    unfolding orgnos sets by (simp only: Un_insert_left sup_bot_left) simp
qed

text \<open>
  C25: the first result of \<open>FilterConsumers\<close> lists every desired organisation that has an entry in the
  ACL, each once, whatever the state of that entry: an organisation whose access was denied, and
  which the difference therefore adds again, is listed too.
\<close>

theorem filter_consumers_status:
  assumes "\<forall>i. range_order (ord i)"
  shows "set (fst (FilterConsumers ord s acl)) = {n \<in> desired_orgnos s. acl_state acl n \<noteq> None} \<and>
    distinct (fst (FilterConsumers ord s acl))"
proof -
  let ?A = "ord 0 (Scope_toConsumers s)"
  have A: "(k, c) \<in> set ?A \<Longrightarrow> c_Orgno c = k" for k c
    by (auto simp: set_range_order [OF assms [rule_format]] set_Scope_toConsumers)
  have eq: "fst (FilterConsumers ord s acl) =
      map fst (filter (\<lambda>kc. findIn (snd kc) (toConsumers acl)) ?A)"
    using A by (auto simp: FilterConsumers_eq filter_map comp_def)
  have "distinct (map fst ?A)"
    using assms [rule_format] distinct_Scope_toConsumers by (rule distinct_range_order)
  moreover have "fst ` {x \<in> (\<lambda>n. (n, f n)) ` A. P x} = {n \<in> A. P (n, f n)}"
    for f :: "string \<Rightarrow> consumer" and A P
    by force
  ultimately show ?thesis
    by (simp add: eq distinct_map_filter set_range_order [OF assms [rule_format]] set_Scope_toConsumers)
qed

theorem filter_consumers_status_witness:
  "(\<forall>i::nat. range_order ((\<lambda>_. rev) i)) \<and>
   set (fst (FilterConsumers (\<lambda>_. rev) sample_scope sample_acl)) = {''2''} \<and>
   distinct (fst (FilterConsumers (\<lambda>_. rev) sample_scope sample_acl))"
proof -
  have h: "\<forall>i::nat. range_order ((\<lambda>_. rev) i)" by (simp add: range_order_rev)
  show ?thesis
    using filter_consumers_status [where ord = "\<lambda>_. rev" and s = sample_scope and acl = sample_acl, OF h] h
    by (auto simp: sample_orgnos sample_acl_state split: if_splits)
qed

section \<open>The access control list as a map\<close>

text \<open>
  Specification: DigDir's ACL of a scope gives organisations a state; those whose state is not
  denied have (or have requested) access. Carrying out an entry of the difference approves or denies
  one organisation.
\<close>

definition active_orgnos :: "(string \<Rightarrow> string option) \<Rightarrow> string set" where
  "active_orgnos m = {n. \<exists>st. m n = Some st \<and> st \<noteq> ScopeStateDenied}"

definition apply_consumer :: "(string \<Rightarrow> string option) \<Rightarrow> consumer \<Rightarrow> (string \<Rightarrow> string option)" where
  "apply_consumer m c =
     m(c_Orgno c \<mapsto> (if c_ShouldBeAdded c then ScopeStateApproved else ScopeStateDenied))"

lemma foldl_apply_consumer:
  "distinct (map c_Orgno cs) \<Longrightarrow> foldl apply_consumer m cs n =
     (case List.find (\<lambda>c. c_Orgno c = n) cs of
        None \<Rightarrow> m n
      | Some c \<Rightarrow> Some (if c_ShouldBeAdded c then ScopeStateApproved else ScopeStateDenied))"
proof (induction cs arbitrary: m)
  case (Cons c cs)
  have "List.find (\<lambda>c'. c_Orgno c' = n) cs = None" if "c_Orgno c = n"
    using that Cons.prems by (auto simp: find_None_iff image_iff)
  with Cons show ?case by (simp add: apply_consumer_def)
qed simp

text \<open>Carrying out a difference touches the organisations it names and no other.\<close>

lemma active_apply_difference:
  assumes "distinct (map c_Orgno cs)"
  shows "active_orgnos (foldl apply_consumer m cs) =
    (active_orgnos m - c_Orgno ` set cs) \<union> c_Orgno ` {c \<in> set cs. c_ShouldBeAdded c}"
proof -
  have "n \<in> active_orgnos (foldl apply_consumer m cs) \<longleftrightarrow>
      n \<in> (active_orgnos m - c_Orgno ` set cs) \<union> c_Orgno ` {c \<in> set cs. c_ShouldBeAdded c}" for n
  proof (cases "List.find (\<lambda>c. c_Orgno c = n) cs")
    case None
    moreover have "n \<notin> c_Orgno ` set cs" using None by (auto simp: find_None_iff)
    ultimately show ?thesis
      by (auto simp: active_orgnos_def foldl_apply_consumer [OF assms])
  next
    case (Some c)
    then have c: "c \<in> set cs" "c_Orgno c = n" by (auto simp: find_Some_iff)
    have "c' = c" if "c' \<in> set cs" "c_Orgno c' = n" for c'
      using that c assms by (simp add: distinct_map inj_on_def)
    then have "n \<in> c_Orgno ` {c \<in> set cs. c_ShouldBeAdded c} \<longleftrightarrow> c_ShouldBeAdded c"
      using c by blast
    moreover have "n \<in> c_Orgno ` set cs" using c by blast
    moreover have "foldl apply_consumer m cs n =
        Some (if c_ShouldBeAdded c then ScopeStateApproved else ScopeStateDenied)"
      by (simp add: foldl_apply_consumer [OF assms] Some)
    ultimately show ?thesis by (simp add: active_orgnos_def)
  qed
  then show ?thesis by blast
qed

text \<open>
  C23: carrying out the difference leaves exactly the desired organisations with access.
\<close>

theorem filter_consumers_reaches_desired:
  assumes "\<forall>i. range_order (ord i)"
  shows "active_orgnos (foldl apply_consumer (acl_state acl) (snd (FilterConsumers ord s acl))) = desired_orgnos s"
    (is "?L = _")
proof -
  let ?D = "snd (FilterConsumers ord s acl)"
  note D = set_difference [of ord, OF assms]
  have L: "?L = (active_orgnos (acl_state acl) - c_Orgno ` set ?D) \<union> c_Orgno ` {c \<in> set ?D. c_ShouldBeAdded c}"
    by (rule active_apply_difference) (rule distinct_orgnos_difference [of ord, OF assms])
  have "n \<in> desired_orgnos s" if n: "n \<in> active_orgnos (acl_state acl)" and "n \<notin> c_Orgno ` set ?D" for n
  proof (rule ccontr)
    assume "n \<notin> desired_orgnos s"
    moreover obtain st where "acl_state acl n = Some st" "st \<noteq> ScopeStateDenied"
      using n by (auto simp: active_orgnos_def)
    ultimately have "CreateConsumer False st n \<in> set ?D" by (simp add: D)
    with that show False by force
  qed
  moreover have "n \<in> ?L" if n: "n \<in> desired_orgnos s" for n
  proof (cases "n \<in> active_orgnos (acl_state acl)")
    case True
    then have "n \<notin> c_Orgno ` set ?D" using n by (auto simp: D active_orgnos_def)
    with True show ?thesis by (simp add: L)
  next
    case False
    then obtain st where "CreateConsumer True st n \<in> set ?D"
      using n by (cases "acl_state acl n") (auto simp: D active_orgnos_def)
    then have "CreateConsumer True st n \<in> {c \<in> set ?D. c_ShouldBeAdded c}" by simp
    then have "c_Orgno (CreateConsumer True st n) \<in> c_Orgno ` {c \<in> set ?D. c_ShouldBeAdded c}" by (rule imageI)
    then have "n \<in> c_Orgno ` {c \<in> set ?D. c_ShouldBeAdded c}" by simp
    then show ?thesis unfolding L by (rule UnI2)
  qed
  moreover have "n \<in> desired_orgnos s" if "n \<in> c_Orgno ` {c \<in> set ?D. c_ShouldBeAdded c}" for n
    using that by (auto simp: D)
  ultimately show ?thesis unfolding L by blast
qed

theorem filter_consumers_reaches_desired_witness:
  "(\<forall>i::nat. range_order ((\<lambda>_. rev) i)) \<and>
   active_orgnos (foldl apply_consumer (acl_state sample_acl)
     (snd (FilterConsumers (\<lambda>_. rev) sample_scope sample_acl))) = {''1'', ''2''}"
proof -
  have h: "\<forall>i::nat. range_order ((\<lambda>_. rev) i)" by (simp add: range_order_rev)
  show ?thesis
    using filter_consumers_reaches_desired [where ord = "\<lambda>_. rev" and s = sample_scope and acl = sample_acl, OF h] h
    by (simp add: sample_orgnos)
qed

text \<open>
  C24: the difference is empty exactly when the organisations with access are the desired ones, so a
  scope that is in sync gives no requests.
\<close>

theorem filter_consumers_stable:
  assumes "\<forall>i. range_order (ord i)"
  shows "snd (FilterConsumers ord s acl) = [] \<longleftrightarrow> active_orgnos (acl_state acl) = desired_orgnos s"
proof -
  have "snd (FilterConsumers ord s acl) = [] \<longleftrightarrow> (\<forall>c. c \<notin> set (snd (FilterConsumers ord s acl)))"
    by simp
  also have "\<dots> \<longleftrightarrow> (\<forall>n. n \<in> active_orgnos (acl_state acl) \<longleftrightarrow> n \<in> desired_orgnos s)"
  proof -
    have "(\<exists>c. c \<in> set (snd (FilterConsumers ord s acl)) \<and> c_Orgno c = n) \<longleftrightarrow>
        (n \<in> desired_orgnos s \<and> acl_state acl n = None) \<or>
        (n \<in> desired_orgnos s \<and> acl_state acl n = Some ScopeStateDenied) \<or>
        (\<exists>st. n \<notin> desired_orgnos s \<and> acl_state acl n = Some st \<and> st \<noteq> ScopeStateDenied)" for n
      unfolding set_difference [of ord, OF assms] by force
    then have "(\<exists>c. c \<in> set (snd (FilterConsumers ord s acl)) \<and> c_Orgno c = n) \<longleftrightarrow>
        (n \<in> active_orgnos (acl_state acl) \<longleftrightarrow> n \<notin> desired_orgnos s)" for n
      by (cases "acl_state acl n") (auto simp: active_orgnos_def)
    then show ?thesis by blast
  qed
  finally show ?thesis by blast
qed

theorem filter_consumers_stable_witness:
  "(\<forall>i::nat. range_order ((\<lambda>_. rev) i)) \<and> snd (FilterConsumers (\<lambda>_. rev) sample_scope sample_acl) \<noteq> []"
proof -
  have h: "\<forall>i::nat. range_order ((\<lambda>_. rev) i)" by (simp add: range_order_rev)
  have "''3'' \<in> active_orgnos (acl_state sample_acl)" and "''3'' \<notin> desired_orgnos sample_scope"
    by (simp_all add: active_orgnos_def sample_acl_state sample_orgnos)
  then show ?thesis
    using filter_consumers_stable [where ord = "\<lambda>_. rev" and s = sample_scope and acl = sample_acl, OF h] h by auto
qed

section \<open>What \<open>Generate\<close> computes\<close>

lemma Generate_eq:
  "ToCreate (Generate actual desired) = filter (\<lambda>e. map_of (subscopes actual) (Subscope e) = None) desired"
  "ToUpdate (Generate actual desired) =
     map (\<lambda>e. CurrentScopeInfo (the (map_of (subscopes actual) (Subscope e))) e)
       (filter (\<lambda>e. map_of (subscopes actual) (Subscope e) \<noteq> None) desired)"
proof -
  let ?step = "\<lambda>ops e. case map_of (subscopes actual) (Subscope e) of
      Some subscope \<Rightarrow> ops\<lparr>ToUpdate := ToUpdate ops @ [CurrentScopeInfo subscope e]\<rparr>
    | None \<Rightarrow> ops\<lparr>ToCreate := ToCreate ops @ [e]\<rparr>"
  have "ToCreate (foldl ?step ops xs) =
        ToCreate ops @ filter (\<lambda>e. map_of (subscopes actual) (Subscope e) = None) xs \<and>
      ToUpdate (foldl ?step ops xs) =
        ToUpdate ops @ map (\<lambda>e. CurrentScopeInfo (the (map_of (subscopes actual) (Subscope e))) e)
          (filter (\<lambda>e. map_of (subscopes actual) (Subscope e) \<noteq> None) xs)" for ops :: operations and xs
    by (induction xs arbitrary: ops) (auto split: option.split)
  then show "ToCreate (Generate actual desired) = filter (\<lambda>e. map_of (subscopes actual) (Subscope e) = None) desired"
    and "ToUpdate (Generate actual desired) =
      map (\<lambda>e. CurrentScopeInfo (the (map_of (subscopes actual) (Subscope e))) e)
        (filter (\<lambda>e. map_of (subscopes actual) (Subscope e) \<noteq> None) desired)"
    by (simp_all add: Generate_def)
qed

lemma CurrentScopeInfo_sel [simp]:
  "sc_ScopeRegistration (CurrentScopeInfo r e) = r" "sc_CurrentScope (CurrentScopeInfo r e) = e"
  by (simp_all add: CurrentScopeInfo_def)

lemma subscopes_lookup: "map_of (subscopes actual) k = List.find (\<lambda>r. sr_Subscope r = k) (rev actual)"
  by (simp add: subs.lookup_eq option.map_ident)

lemma ToUpdate_pairs:
  "u \<in> set (ToUpdate (Generate actual desired)) \<Longrightarrow>
     List.find (\<lambda>r. sr_Subscope r = Subscope (sc_CurrentScope u)) (rev actual) = Some (sc_ScopeRegistration u)"
  by (auto simp: Generate_eq subscopes_lookup)

text \<open>
  C26: \<open>Generate\<close> splits the desired scopes, keeping their order: those whose subscope no registered
  scope has are created, the others are updated, each paired with the last registered scope of
  that subscope.
\<close>

theorem generate_partition:
  "ToCreate (Generate actual desired) = filter (\<lambda>e. Subscope e \<notin> sr_Subscope ` set actual) desired \<and>
   map sc_CurrentScope (ToUpdate (Generate actual desired)) =
     filter (\<lambda>e. Subscope e \<in> sr_Subscope ` set actual) desired \<and>
   list_all (\<lambda>u. List.find (\<lambda>r. sr_Subscope r = Subscope (sc_CurrentScope u)) (rev actual) =
                  Some (sc_ScopeRegistration u)) (ToUpdate (Generate actual desired))"
  by (simp add: Generate_eq(1) subs.lookup_None_iff list_all_iff ToUpdate_pairs)
    (simp add: Generate_eq(2) subs.lookup_None_iff comp_def)

section \<open>Names of subscopes\<close>


text \<open>
  The separator as the comment on \<open>Subscope\<close> gives it, and the characters one of which it starts with.
\<close>

definition explicit_separator :: "exposedScope \<Rightarrow> string option" where
  "explicit_separator e = (case es_Separator e of Some sep \<Rightarrow> if sep = '''' then None else Some sep | None \<Rightarrow> None)"

definition separator_starts :: "exposedScope \<Rightarrow> char set" where
  "separator_starts e = (case explicit_separator e of Some sep \<Rightarrow> {hd sep} | None \<Rightarrow> {CHR '':'', CHR ''/''})"

lemma Subscope_explicit: "explicit_separator e = Some sep \<Longrightarrow> Subscope e = es_Product e @ sep @ es_Name e"
  by (auto simp: explicit_separator_def Subscope_def split: option.splits if_splits)

lemma Subscope_default:
  "explicit_separator e = None \<Longrightarrow>
   Subscope e = es_Product e @ (if CHR ''/'' \<in> set (es_Name e) then CHR ''/'' else CHR '':'') # es_Name e"
  by (auto simp: explicit_separator_def Subscope_def split: option.splits if_splits)

lemma Subscope_split: "\<exists>x \<in> separator_starts e. \<exists>rest. Subscope e = es_Product e @ x # rest"
proof (cases "explicit_separator e")
  case None
  then show ?thesis by (auto simp: Subscope_default separator_starts_def)
next
  case (Some sep)
  then have "sep = hd sep # tl sep" by (auto simp: explicit_separator_def split: option.splits if_splits)
  then have "Subscope e = es_Product e @ hd sep # tl sep @ es_Name e" by (metis Some Subscope_explicit append_Cons)
  with Some show ?thesis by (simp add: separator_starts_def)
qed

lemma Subscope_product:
  assumes "set (es_Product e) \<inter> separator_starts e = {}"
  shows "takeWhile (\<lambda>c. c \<notin> separator_starts e) (Subscope e) = es_Product e"
proof -
  obtain x rest where x: "x \<in> separator_starts e" "Subscope e = es_Product e @ x # rest"
    using Subscope_split [of e] by blast
  show ?thesis unfolding x(2) by (rule takeWhile_append_hd) (use x(1) assms in auto)
qed

text \<open>
  C27: scopes with the same separator setting are never merged: when they are of one product, or when
  no product contains a character that a separator starts with (\<open>:\<close> and \<open>/\<close> for the default), two of them
  have the same subscope only when product and name agree. An explicit separator takes the place of
  the default: it stands between product and name. Without one, the separator is \<open>/\<close> for a name that
  contains a \<open>/\<close> and \<open>:\<close> otherwise.
\<close>

theorem subscope_injective:
  assumes "explicit_separator e1 = explicit_separator e2"
    and "es_Product e1 = es_Product e2 \<or>
      set (es_Product e1) \<inter> separator_starts e1 = {} \<and> set (es_Product e2) \<inter> separator_starts e2 = {}"
  shows "(Subscope e1 = Subscope e2 \<longleftrightarrow> es_Product e1 = es_Product e2 \<and> es_Name e1 = es_Name e2) \<and>
    Subscope e1 = es_Product e1 @ (case explicit_separator e1 of Some sep \<Rightarrow> sep
      | None \<Rightarrow> if CHR ''/'' \<in> set (es_Name e1) then ''/'' else '':'') @ es_Name e1"
proof -
  have starts: "separator_starts e2 = separator_starts e1" using assms(1) by (simp add: separator_starts_def)
  have product: "es_Product e1 = es_Product e2" if "Subscope e1 = Subscope e2"
    using assms(2) Subscope_product [of e1] Subscope_product [of e2, unfolded starts] that starts by auto
  have "Subscope e1 = Subscope e2 \<longleftrightarrow> es_Product e1 = es_Product e2 \<and> es_Name e1 = es_Name e2"
  proof (cases "explicit_separator e1")
    case None
    with assms(1) product show ?thesis by (auto simp: Subscope_default)
  next
    case (Some sep)
    note both = Subscope_explicit [OF this] Subscope_explicit [OF this [unfolded assms(1)]]
    show ?thesis using product by (auto simp: both)
  qed
  moreover have "Subscope e1 = es_Product e1 @ (case explicit_separator e1 of Some sep \<Rightarrow> sep
      | None \<Rightarrow> if CHR ''/'' \<in> set (es_Name e1) then ''/'' else '':'') @ es_Name e1"
    by (cases "explicit_separator e1") (simp_all add: Subscope_default Subscope_explicit)
  ultimately show ?thesis by blast
qed

theorem subscope_injective_witness:
  "Subscope (sc_CurrentScope sample_scope\<lparr>es_Separator := Some ''-''\<rparr>) = ''arbeid-my'' \<and>
   Subscope (sc_CurrentScope sample_scope\<lparr>es_Separator := Some ''-''\<rparr>) \<noteq>
     Subscope (sc_CurrentScope sample_scope\<lparr>es_Separator := Some ''-'', es_Name := ''other''\<rparr>)"
proof -
  let ?e1 = "sc_CurrentScope sample_scope\<lparr>es_Separator := Some ''-''\<rparr>"
  let ?e2 = "sc_CurrentScope sample_scope\<lparr>es_Separator := Some ''-'', es_Name := ''other''\<rparr>"
  have "explicit_separator ?e1 = explicit_separator ?e2" "es_Product ?e1 = es_Product ?e2"
    and neq: "es_Name ?e1 \<noteq> es_Name ?e2" and eq: "es_Product ?e1 @ ''-'' @ es_Name ?e1 = ''arbeid-my''"
    and sep: "explicit_separator ?e1 = Some ''-''"
    by (simp_all add: sample_scope_def CurrentScopeInfo_def explicit_separator_def)
  from subscope_injective [OF this(1) disjI1 [OF this(2)], unfolded sep option.case eq] neq show ?thesis by blast
qed

end
