(* ===== verification/Secrets.thy ===== *)
theory Secrets
  imports Config
begin

text \<open>
  \<open>pkg/secrets\<close>: the contents of the Kubernetes secret of each kind of client. Marshalling a JWK
  (go-jose) and validating provider metadata (liberator) are arguments.
\<close>

definition IDPortenClientIDKey :: string where "IDPortenClientIDKey = ''IDPORTEN_CLIENT_ID''"
definition IDPortenJwkKey :: string where "IDPortenJwkKey = ''IDPORTEN_CLIENT_JWK''"
definition IDPortenRedirectURIKey :: string where "IDPortenRedirectURIKey = ''IDPORTEN_REDIRECT_URI''"
definition IDPortenWellKnownURLKey :: string where "IDPortenWellKnownURLKey = ''IDPORTEN_WELL_KNOWN_URL''"
definition IDPortenIssuerKey :: string where "IDPortenIssuerKey = ''IDPORTEN_ISSUER''"
definition IDPortenJwksUriKey :: string where "IDPortenJwksUriKey = ''IDPORTEN_JWKS_URI''"
definition IDPortenTokenEndpointKey :: string where "IDPortenTokenEndpointKey = ''IDPORTEN_TOKEN_ENDPOINT''"
definition MaskinportenClientIDKey :: string where "MaskinportenClientIDKey = ''MASKINPORTEN_CLIENT_ID''"
definition MaskinportenJwkKey :: string where "MaskinportenJwkKey = ''MASKINPORTEN_CLIENT_JWK''"
definition MaskinportenScopesKey :: string where "MaskinportenScopesKey = ''MASKINPORTEN_SCOPES''"
definition MaskinportenWellKnownURLKey :: string where "MaskinportenWellKnownURLKey = ''MASKINPORTEN_WELL_KNOWN_URL''"
definition MaskinportenIssuerKey :: string where "MaskinportenIssuerKey = ''MASKINPORTEN_ISSUER''"
definition MaskinportenJwksUriKey :: string where "MaskinportenJwksUriKey = ''MASKINPORTEN_JWKS_URI''"
definition MaskinportenTokenEndpointKey :: string where "MaskinportenTokenEndpointKey = ''MASKINPORTEN_TOKEN_ENDPOINT''"

lemmas secret_key_defs = IDPortenClientIDKey_def IDPortenJwkKey_def IDPortenRedirectURIKey_def
  IDPortenWellKnownURLKey_def IDPortenIssuerKey_def IDPortenJwksUriKey_def IDPortenTokenEndpointKey_def
  MaskinportenClientIDKey_def MaskinportenJwkKey_def MaskinportenScopesKey_def
  MaskinportenWellKnownURLKey_def MaskinportenIssuerKey_def MaskinportenJwksUriKey_def
  MaskinportenTokenEndpointKey_def

text \<open>The closure \<open>redirectURI\<close>: the deprecated field first, then the first of the list.\<close>

definition redirectURI :: "idportenSpec \<Rightarrow> string" where
  "redirectURI sp =
     (if is_RedirectURI sp \<noteq> '''' then is_RedirectURI sp
      else case is_RedirectURIs sp of u # _ \<Rightarrow> u | [] \<Rightarrow> '''')"

definition IDPortenClientSecretData ::
  "(jsonWebKey \<Rightarrow> gerror + string) \<Rightarrow> (metadata \<Rightarrow> string \<Rightarrow> gerror + unit) \<Rightarrow>
   idportenSpec \<Rightarrow> digdiratorStatus \<Rightarrow> jsonWebKey \<Rightarrow> config \<Rightarrow> gerror + (string \<times> string) list" where
  "IDPortenClientSecretData marshalJSON validate sp st jwk c =
     (case marshalJSON jwk of
        Inl e \<Rightarrow> Inl (Wrap ''marshalling JWK'' e)
      | Inr jwkJson \<Rightarrow>
         (case validate (idp_Metadata (cfg_IDPorten c)) (idp_WellKnownURL (cfg_IDPorten c)) of
            Inl e \<Rightarrow> Inl (Wrap ''validating ID-porten metadata'' e)
          | Inr _ \<Rightarrow> Inr
             [(IDPortenJwkKey, jwkJson),
              (IDPortenWellKnownURLKey, idp_WellKnownURL (cfg_IDPorten c)),
              (IDPortenClientIDKey, st_ClientID st),
              (IDPortenRedirectURIKey, redirectURI sp),
              (IDPortenIssuerKey, md_Issuer (idp_Metadata (cfg_IDPorten c))),
              (IDPortenJwksUriKey, md_JwksURI (idp_Metadata (cfg_IDPorten c))),
              (IDPortenTokenEndpointKey, md_TokenEndpoint (idp_Metadata (cfg_IDPorten c)))]))"

definition MaskinportenClientSecretData ::
  "(jsonWebKey \<Rightarrow> gerror + string) \<Rightarrow> (metadata \<Rightarrow> string \<Rightarrow> gerror + unit) \<Rightarrow>
   maskinportenSpec \<Rightarrow> digdiratorStatus \<Rightarrow> jsonWebKey \<Rightarrow> config \<Rightarrow> gerror + (string \<times> string) list" where
  "MaskinportenClientSecretData marshalJSON validate sp st jwk c =
     (case marshalJSON jwk of
        Inl e \<Rightarrow> Inl (Wrap ''marshalling JWK'' e)
      | Inr jwkJson \<Rightarrow>
         (case validate (mp_Metadata (cfg_Maskinporten c)) (mp_WellKnownURL (cfg_Maskinporten c)) of
            Inl e \<Rightarrow> Inl (Wrap ''validating Maskinporten metadata'' e)
          | Inr _ \<Rightarrow> Inr
             [(MaskinportenJwkKey, jwkJson),
              (MaskinportenWellKnownURLKey, mp_WellKnownURL (cfg_Maskinporten c)),
              (MaskinportenClientIDKey, st_ClientID st),
              (MaskinportenScopesKey, join '' '' (ms_ConsumedScopes sp)),
              (MaskinportenIssuerKey, md_Issuer (mp_Metadata (cfg_Maskinporten c))),
              (MaskinportenJwksUriKey, md_JwksURI (mp_Metadata (cfg_Maskinporten c))),
              (MaskinportenTokenEndpointKey, md_TokenEndpoint (mp_Metadata (cfg_Maskinporten c)))]))"

text \<open>Both maps have distinct keys, so a lookup gives the value the code stored.\<close>

lemma IDPortenClientSecretData_Inr:
  assumes "IDPortenClientSecretData m v sp st jwk c = Inr d"
  shows "distinct (map fst d)" and "\<exists>j. m jwk = Inr j \<and> map_of d IDPortenJwkKey = Some j"
    and "map_of d IDPortenClientIDKey = Some (st_ClientID st)"
  using assms by (auto simp: IDPortenClientSecretData_def secret_key_defs split: sum.splits)

lemma MaskinportenClientSecretData_Inr:
  assumes "MaskinportenClientSecretData m v sp st jwk c = Inr d"
  shows "distinct (map fst d)" and "\<exists>j. m jwk = Inr j \<and> map_of d MaskinportenJwkKey = Some j"
    and "map_of d MaskinportenClientIDKey = Some (st_ClientID st)"
  using assms by (auto simp: MaskinportenClientSecretData_def secret_key_defs split: sum.splits)

end
