(* ===== verification/Clients.thy ===== *)
theory Clients
  imports Secrets Scopes
begin

text \<open>
  \<open>pkg/clients\<close>: what the program derives from a custom resource: the payloads sent to DigDir, the
  labels of its secrets, whether the resource is up to date, and whether its key must be rotated.
  \<open>kubernetes.UniformResourceName\<close> of liberator is the argument \<open>urn\<close>, the clock the argument \<open>now\<close>.
\<close>

section \<open>Constants\<close>

definition AnnotationResynchronize :: string where "AnnotationResynchronize = ''digdir.nais.io/resync''"
definition AnnotationRotate :: string where "AnnotationRotate = ''digdir.nais.io/rotate''"
definition MaskinportenDefaultAllowedIntegrationType :: string where
  "MaskinportenDefaultAllowedIntegrationType = ''maskinporten''"
definition MaskinportenDefaultAtAgeMax :: int where "MaskinportenDefaultAtAgeMax = 30"
definition MaskinportenDefaultAuthorizationMaxLifetime :: int where
  "MaskinportenDefaultAuthorizationMaxLifetime = 0"
definition StaleSyncThresholdDuration :: duration where
  "StaleSyncThresholdDuration = 7 * 24 * Hour"

definition AppLabelKey :: string where "AppLabelKey = ''app''"
definition TypeLabelKey :: string where "TypeLabelKey = ''type''"
definition IDPortenTypeLabelValue :: string where "IDPortenTypeLabelValue = ''digdirator.nais.io''"
definition MaskinportenTypeLabelValue :: string where
  "MaskinportenTypeLabelValue = ''maskinporten.digdirator.nais.io''"

lemmas annotation_defs = AnnotationResynchronize_def AnnotationRotate_def
lemmas label_defs = AppLabelKey_def TypeLabelKey_def IDPortenTypeLabelValue_def MaskinportenTypeLabelValue_def

section \<open>Labels\<close>

definition maskinportenLabels :: "objectMeta \<Rightarrow> (string \<times> string) list" where
  "maskinportenLabels m = [(AppLabelKey, om_Name m), (TypeLabelKey, MaskinportenTypeLabelValue)]"

definition idPortenLabels :: "objectMeta \<Rightarrow> (string \<times> string) list" where
  "idPortenLabels m = [(AppLabelKey, om_Name m), (TypeLabelKey, IDPortenTypeLabelValue)]"

definition MakeLabels :: "clientInstance \<Rightarrow> (string \<times> string) list" where
  "MakeLabels i = (case inst_Spec i of
     IDPortenClient _ \<Rightarrow> idPortenLabels (inst_Meta i)
   | MaskinportenClient _ \<Rightarrow> maskinportenLabels (inst_Meta i))"

section \<open>What an instance says\<close>

definition GetIntegrationType :: "clientInstance \<Rightarrow> string" where
  "GetIntegrationType i = (case inst_Spec i of
     IDPortenClient sp \<Rightarrow>
       if is_IntegrationType sp \<noteq> '''' then is_IntegrationType sp else IntegrationTypeIDPorten
   | MaskinportenClient _ \<Rightarrow> IntegrationTypeMaskinporten)"

definition GetSecretName :: "clientInstance \<Rightarrow> string" where
  "GetSecretName i = (case inst_Spec i of
     IDPortenClient sp \<Rightarrow> is_SecretName sp | MaskinportenClient sp \<Rightarrow> ms_SecretName sp)"

definition GetSecretJwkKey :: "clientInstance \<Rightarrow> string" where
  "GetSecretJwkKey i = (case inst_Spec i of
     IDPortenClient _ \<Rightarrow> IDPortenJwkKey | MaskinportenClient _ \<Rightarrow> MaskinportenJwkKey)"

definition hasAnnotation :: "(string \<times> string) list \<Rightarrow> string \<Rightarrow> bool" where
  "hasAnnotation annotations want = (case map_of annotations want of
     None \<Rightarrow> False | Some value \<Rightarrow> value = ''true'')"

definition isStale :: "int \<Rightarrow> digdiratorStatus \<Rightarrow> bool" where
  "isStale now st = (case st_SynchronizationTime st of
     None \<Rightarrow> False | Some lastSync \<Rightarrow> time_sub now lastSync > StaleSyncThresholdDuration)"

definition IsUpToDate :: "int \<Rightarrow> clientInstance \<Rightarrow> bool" where
  "IsUpToDate now i =
     (let st = inst_Status i;
          observedGeneration = (case st_ObservedGeneration st of Some g \<Rightarrow> g | None \<Rightarrow> 0) in
      if observedGeneration = 0 then False
      else let generationChanged = (om_Generation (inst_Meta i) \<noteq> observedGeneration);
               a = om_Annotations (inst_Meta i);
               resync = hasAnnotation a AnnotationResynchronize;
               rotate = hasAnnotation a AnnotationRotate
           in \<not> generationChanged \<and> \<not> resync \<and> \<not> rotate \<and> \<not> isStale now st)"

definition NeedsSecretRotation :: "clientInstance \<Rightarrow> bool" where
  "NeedsSecretRotation i =
     (let nameChanged = (st_SynchronizationSecretName (inst_Status i) \<noteq> GetSecretName i);
          hasRotateAnnotation = hasAnnotation (om_Annotations (inst_Meta i)) AnnotationRotate
      in nameChanged \<or> hasRotateAnnotation)"

section \<open>ID-porten clients\<close>

definition GetIDPortenDefaultScopes :: "string \<Rightarrow> string list" where
  "GetIDPortenDefaultScopes integrationType =
     (if integrationType = IntegrationTypeIDPorten \<or> integrationType = IntegrationTypeApiKlient
      then [''openid'', ''profile'']
      else if integrationType = IntegrationTypeKrr
      then [''krr:global/kontaktinformasjon.read'', ''krr:global/digitalpost.read'']
      else [])"

definition SetIDportenClientDefaultValues :: "idportenSpec \<Rightarrow> config \<Rightarrow> idportenSpec" where
  "SetIDportenClientDefaultValues sp0 c =
     (let common = cfg_Common c;
          sp1 = (if is_AccessTokenLifetime sp0 = None
                 then sp0\<lparr>is_AccessTokenLifetime := Some (dc_AccessTokenLifetime common)\<rparr> else sp0);
          sp2 = (if is_SessionLifetime sp1 = None
                 then sp1\<lparr>is_SessionLifetime := Some (dc_SessionLifetime common)\<rparr> else sp1);
          sp3 = (if length (is_ClientURI sp2) = 0 then sp2\<lparr>is_ClientURI := dc_ClientURI common\<rparr> else sp2);
          sp4 = (if length (is_PostLogoutRedirectURIs sp3) = 0
                 then sp3\<lparr>is_PostLogoutRedirectURIs := [dc_ClientURI common]\<rparr> else sp3);
          sp5 = (if is_IntegrationType sp4 = '''' then sp4\<lparr>is_IntegrationType := IntegrationTypeIDPorten\<rparr> else sp4)
      in if length (is_Scopes sp5) = 0
         then sp5\<lparr>is_Scopes := GetIDPortenDefaultScopes (is_IntegrationType sp5)\<rparr> else sp5)"

definition postLogoutRedirectURIs :: "string list \<Rightarrow> string list" where
  "postLogoutRedirectURIs uris = foldl (\<lambda>result uri. result @ [uri]) [] uris"

definition uniqueURIs :: "string list \<Rightarrow> string list" where
  "uniqueURIs uris =
     snd (foldl (\<lambda>(seen, res) u.
                  if u \<noteq> '''' \<and> \<not> List.member seen u then (u # seen, res @ [u]) else (seen, res))
            ([], []) uris)"

definition redirectURIs :: "idportenSpec \<Rightarrow> string list" where
  "redirectURIs sp = uniqueURIs (is_RedirectURIs sp @ [is_RedirectURI sp])"

text \<open>Dereferencing a nil lifetime would panic; the defaults make sure that neither is nil.\<close>

definition toIDPortenClientRegistration ::
  "(objectMeta \<Rightarrow> string \<Rightarrow> string) \<Rightarrow> objectMeta \<Rightarrow> idportenSpec \<Rightarrow> config \<Rightarrow> clientRegistration" where
  "toIDPortenClientRegistration urn m sp0 c =
     (let sp = SetIDportenClientDefaultValues sp0 c;
          integrationType = (if is_IntegrationType sp = IntegrationTypeMaskinporten
                             then IntegrationTypeIDPorten else is_IntegrationType sp);
          clientName = (if is_ClientName sp = '''' then dc_ClientName (cfg_Common c) else is_ClientName sp);
          ssoDisabled = (is_SSODisabled sp = Some True)
      in \<lparr>cr_AccessTokenLifetime = the (is_AccessTokenLifetime sp),
          cr_ApplicationType = ApplicationTypeWeb,
          cr_AuthorizationLifeTime = the (is_SessionLifetime sp),
          cr_ClientID = '''',
          cr_ClientName = clientName,
          cr_ClientOrgno = '''',
          cr_ClientURI = is_ClientURI sp,
          cr_Description = urn m (cfg_ClusterName c),
          cr_FrontchannelLogoutSessionRequired = True,
          cr_FrontchannelLogoutURI = is_FrontchannelLogoutURI sp,
          cr_GrantTypes = Some [GrantTypeAuthorizationCode, GrantTypeRefreshToken],
          cr_IntegrationType = integrationType,
          cr_PostLogoutRedirectURIs = Some (postLogoutRedirectURIs (is_PostLogoutRedirectURIs sp)),
          cr_RedirectURIs = Some (redirectURIs sp),
          cr_RefreshTokenLifetime = the (is_SessionLifetime sp),
          cr_RefreshTokenUsage = RefreshTokenUsageOneTime,
          cr_Scopes = Some (is_Scopes sp),
          cr_SSODisabled = ssoDisabled,
          cr_TokenEndpointAuthMethod = TokenEndpointAuthMethodPrivateKeyJwt\<rparr>)"

section \<open>Maskinporten clients and scopes\<close>

definition toMaskinPortenClientRegistration ::
  "(objectMeta \<Rightarrow> string \<Rightarrow> string) \<Rightarrow> objectMeta \<Rightarrow> maskinportenSpec \<Rightarrow> config \<Rightarrow> clientRegistration" where
  "toMaskinPortenClientRegistration urn m sp c =
     (let clientName = (if ms_ClientName sp = '''' then dc_ClientName (cfg_Common c) else ms_ClientName sp);
          consumedScopes = ms_ConsumedScopes sp
      in \<lparr>cr_AccessTokenLifetime = dc_AccessTokenLifetime (cfg_Common c),
          cr_ApplicationType = ApplicationTypeWeb,
          cr_AuthorizationLifeTime = dc_SessionLifetime (cfg_Common c),
          cr_ClientID = '''',
          cr_ClientName = clientName,
          cr_ClientOrgno = '''',
          cr_ClientURI = dc_ClientURI (cfg_Common c),
          cr_Description = urn m (cfg_ClusterName c),
          cr_FrontchannelLogoutSessionRequired = False,
          cr_FrontchannelLogoutURI = '''',
          cr_GrantTypes = Some [GrantTypeJwtBearer],
          cr_IntegrationType = IntegrationTypeMaskinporten,
          cr_PostLogoutRedirectURIs = None,
          cr_RedirectURIs = None,
          cr_RefreshTokenLifetime = 0,
          cr_RefreshTokenUsage = RefreshTokenUsageOneTime,
          cr_Scopes = Some consumedScopes,
          cr_SSODisabled = False,
          cr_TokenEndpointAuthMethod = TokenEndpointAuthMethodPrivateKeyJwt\<rparr>)"

definition toMaskinPortenScopeRegistration :: "objectMeta \<Rightarrow> exposedScope \<Rightarrow> config \<Rightarrow> scopeRegistration" where
  "toMaskinPortenScopeRegistration m e c =
     (let allowedIntegrations = (if length (es_AllowedIntegrations e) > 0 then es_AllowedIntegrations e
                                 else [MaskinportenDefaultAllowedIntegrationType]);
          accessTokenMaxAge = (case es_AtMaxAge e of Some age \<Rightarrow> age | None \<Rightarrow> MaskinportenDefaultAtAgeMax);
          delegation = (case es_DelegationSource e of
             None \<Rightarrow> ''''
           | Some name \<Rightarrow> (case map_of (mp_DelegationSources (cfg_Maskinporten c)) name of
                             Some source \<Rightarrow> del_Issuer source | None \<Rightarrow> ''''));
          accessibleForAll = (es_AccessibleForAll e = Some True);
          visibility = (if es_Visibility e = Some ''private'' then ScopeVisibilityPrivate else ScopeVisibilityPublic)
      in \<lparr>sr_AccessibleForAll = accessibleForAll,
          sr_Active = es_Enabled e,
          sr_AllowedIntegrationType = Some allowedIntegrations,
          sr_AtMaxAge = accessTokenMaxAge,
          sr_AuthorizationMaxLifetime = MaskinportenDefaultAuthorizationMaxLifetime,
          sr_DelegationSource = delegation,
          sr_Description = Description m (cfg_ClusterName c) (es_Product e),
          sr_LongDescription = '''',
          sr_Name = '''',
          sr_OwnerOrgno = '''',
          sr_Prefix = mp_DefaultScopePrefix (cfg_Maskinporten c),
          sr_RequiresPseudonymousTokens = False,
          sr_RequiresUserAuthentication = False,
          sr_RequiresUserConsent = False,
          sr_Subscope = Subscope e,
          sr_TokenType = TokenTypeSelfContained,
          sr_Visibility = visibility\<rparr>)"

text \<open>The zero value of \<open>types.ScopeRegistration\<close>.\<close>

definition zeroScopeRegistration :: scopeRegistration where
  "zeroScopeRegistration =
     \<lparr>sr_AccessibleForAll = False, sr_Active = False, sr_AllowedIntegrationType = None, sr_AtMaxAge = 0,
      sr_AuthorizationMaxLifetime = 0, sr_DelegationSource = '''', sr_Description = '''', sr_LongDescription = '''',
      sr_Name = '''', sr_OwnerOrgno = '''', sr_Prefix = '''', sr_RequiresPseudonymousTokens = False,
      sr_RequiresUserAuthentication = False, sr_RequiresUserConsent = False, sr_Subscope = '''',
      sr_TokenType = '''', sr_Visibility = ''''\<rparr>"

definition ToScopeRegistration :: "clientInstance \<Rightarrow> exposedScope \<Rightarrow> config \<Rightarrow> scopeRegistration" where
  "ToScopeRegistration i e c = (case inst_Spec i of
     MaskinportenClient _ \<Rightarrow> toMaskinPortenScopeRegistration (inst_Meta i) e c
   | IDPortenClient _ \<Rightarrow> zeroScopeRegistration)"

definition ToClientRegistration ::
  "(objectMeta \<Rightarrow> string \<Rightarrow> string) \<Rightarrow> clientInstance \<Rightarrow> config \<Rightarrow> clientRegistration" where
  "ToClientRegistration urn i c = (case inst_Spec i of
     IDPortenClient sp \<Rightarrow> toIDPortenClientRegistration urn (inst_Meta i) sp c
   | MaskinportenClient sp \<Rightarrow> toMaskinPortenClientRegistration urn (inst_Meta i) sp c)"

section \<open>Redirect URIs\<close>

lemma uniqueURIs_snoc:
  "uniqueURIs (xs @ [u]) =
     (if u \<noteq> '''' \<and> u \<notin> set (uniqueURIs xs) then uniqueURIs xs @ [u] else uniqueURIs xs)"
proof -
  let ?f = "\<lambda>(seen, res) u. if u \<noteq> '''' \<and> \<not> List.member seen u then (u # seen, res @ [u]) else (seen, res)"
  have "set (fst (foldl ?f ([], []) ys)) = set (snd (foldl ?f ([], []) ys))" for ys
    by (induction ys rule: rev_induct) (auto split: prod.splits)
  from this [of xs] show ?thesis
    by (cases "foldl ?f ([], []) xs") (simp add: uniqueURIs_def)
qed

interpretation uris: first_wins uniqueURIs "\<lambda>u. u" "\<lambda>u. u \<noteq> ''''"
  by unfold_locales (simp_all add: uniqueURIs_snoc, simp add: uniqueURIs_def)

text \<open>The loop with its set of seen URIs is the library's removal of duplicates, read from the right.\<close>

lemma uniqueURIs_remdups: "uniqueURIs us = rev (remdups (rev (filter (\<lambda>u. u \<noteq> '''') us)))"
proof (induction us rule: rev_induct)
  case Nil
  then show ?case by (simp add: uniqueURIs_def)
next
  case (snoc u us)
  then show ?case by (simp add: uniqueURIs_snoc)
qed

text \<open>
  C33: the redirect URIs registered for an ID-porten client are the non-empty ones of the
  specification, the deprecated single field included, each at its first place: the loop computes the
  same list as filtering and removing later duplicates. So they are distinct, they are exactly the
  non-empty ones, and they keep their order.
\<close>

theorem redirect_uris_unique:
  "redirectURIs sp = rev (remdups (rev (filter (\<lambda>u. u \<noteq> '''') (is_RedirectURIs sp @ [is_RedirectURI sp])))) \<and>
   distinct (redirectURIs sp) \<and>
   set (redirectURIs sp) = (set (is_RedirectURIs sp) \<union> {is_RedirectURI sp}) - {''''} \<and>
   subseq (redirectURIs sp) (is_RedirectURIs sp @ [is_RedirectURI sp])"
proof (intro conjI)
  show "redirectURIs sp = rev (remdups (rev (filter (\<lambda>u. u \<noteq> '''') (is_RedirectURIs sp @ [is_RedirectURI sp]))))"
    unfolding redirectURIs_def by (rule uniqueURIs_remdups)
  show "distinct (redirectURIs sp)"
    using uris.distinct_keys unfolding redirectURIs_def by (simp only: list.map_ident)
  have "set (redirectURIs sp) = {u \<in> set (is_RedirectURIs sp @ [is_RedirectURI sp]). u \<noteq> ''''}"
    using uris.keys_eq unfolding redirectURIs_def by (simp only: image_ident)
  then show "set (redirectURIs sp) = (set (is_RedirectURIs sp) \<union> {is_RedirectURI sp}) - {''''}" by auto
  show "subseq (redirectURIs sp) (is_RedirectURIs sp @ [is_RedirectURI sp])"
    using uris.in_order unfolding redirectURIs_def .
qed
section \<open>Up to date and stale resources\<close>

lemma stale_threshold: "minDuration \<le> StaleSyncThresholdDuration" "StaleSyncThresholdDuration < maxDuration"
  by (simp_all add: StaleSyncThresholdDuration_def duration_defs minDuration_def maxDuration_def)

lemma isStale_iff:
  "isStale now st \<longleftrightarrow> (\<exists>t. st_SynchronizationTime st = Some t \<and> t + StaleSyncThresholdDuration < now)"
  by (auto simp: isStale_def time_sub_greater [OF stale_threshold] split: option.splits)

lemma hasAnnotation_iff: "hasAnnotation a k \<longleftrightarrow> map_of a k = Some ''true''"
  by (simp add: hasAnnotation_def split: option.split)

text \<open>
  A resource is up to date exactly when the generation it was last synchronised at is recorded,
  is not zero and is the current one, neither the resync nor the rotate annotation is set to true,
  and the last synchronisation, if recorded, is at most seven days old; the saturation of Go's
  durations never changes the answer.
\<close>

lemma up_to_date_iff:
  "IsUpToDate now i \<longleftrightarrow>
     st_ObservedGeneration (inst_Status i) = Some (om_Generation (inst_Meta i)) \<and>
     om_Generation (inst_Meta i) \<noteq> 0 \<and>
     map_of (om_Annotations (inst_Meta i)) AnnotationResynchronize \<noteq> Some ''true'' \<and>
     map_of (om_Annotations (inst_Meta i)) AnnotationRotate \<noteq> Some ''true'' \<and>
     (case st_SynchronizationTime (inst_Status i) of
        None \<Rightarrow> True | Some t \<Rightarrow> now - t \<le> 604800 * 1000000000)"
  by (auto simp: IsUpToDate_def Let_def hasAnnotation_iff isStale_iff StaleSyncThresholdDuration_def duration_defs
      split: option.splits)

section \<open>Payloads\<close>

text \<open>A guarded assignment to a field assigns a conditional value.\<close>

lemma guarded_updates:
  "(if b then sp\<lparr>is_AccessTokenLifetime := l\<rparr> else sp) =
     sp\<lparr>is_AccessTokenLifetime := (if b then l else is_AccessTokenLifetime sp)\<rparr>"
  "(if b then sp\<lparr>is_SessionLifetime := l\<rparr> else sp) = sp\<lparr>is_SessionLifetime := (if b then l else is_SessionLifetime sp)\<rparr>"
  "(if b then sp\<lparr>is_ClientURI := u\<rparr> else sp) = sp\<lparr>is_ClientURI := (if b then u else is_ClientURI sp)\<rparr>"
  "(if b then sp\<lparr>is_PostLogoutRedirectURIs := us\<rparr> else sp) =
     sp\<lparr>is_PostLogoutRedirectURIs := (if b then us else is_PostLogoutRedirectURIs sp)\<rparr>"
  "(if b then sp\<lparr>is_IntegrationType := t\<rparr> else sp) = sp\<lparr>is_IntegrationType := (if b then t else is_IntegrationType sp)\<rparr>"
  "(if b then sp\<lparr>is_Scopes := us\<rparr> else sp) = sp\<lparr>is_Scopes := (if b then us else is_Scopes sp)\<rparr>"
  by (cases b; simp)+

lemma defaults:
  "is_AccessTokenLifetime (SetIDportenClientDefaultValues sp c) =
     Some (case is_AccessTokenLifetime sp of Some l \<Rightarrow> l | None \<Rightarrow> dc_AccessTokenLifetime (cfg_Common c))"
  "is_SessionLifetime (SetIDportenClientDefaultValues sp c) =
     Some (case is_SessionLifetime sp of Some l \<Rightarrow> l | None \<Rightarrow> dc_SessionLifetime (cfg_Common c))"
  "is_ClientURI (SetIDportenClientDefaultValues sp c) =
     (if is_ClientURI sp = '''' then dc_ClientURI (cfg_Common c) else is_ClientURI sp)"
  "is_PostLogoutRedirectURIs (SetIDportenClientDefaultValues sp c) =
     (if is_PostLogoutRedirectURIs sp = [] then [dc_ClientURI (cfg_Common c)] else is_PostLogoutRedirectURIs sp)"
  "redirectURIs (SetIDportenClientDefaultValues sp c) = redirectURIs sp"
  "is_IntegrationType (SetIDportenClientDefaultValues sp c) =
     (if is_IntegrationType sp = '''' then IntegrationTypeIDPorten else is_IntegrationType sp)"
  "is_Scopes (SetIDportenClientDefaultValues sp c) =
     (if is_Scopes sp = [] then GetIDPortenDefaultScopes
        (if is_IntegrationType sp = '''' then IntegrationTypeIDPorten else is_IntegrationType sp)
      else is_Scopes sp)"
  by (simp_all add: SetIDportenClientDefaultValues_def Let_def guarded_updates redirectURIs_def split: option.split)

lemma postLogoutRedirectURIs_id [simp]: "postLogoutRedirectURIs us = us"
  by (induction us rule: rev_induct) (simp_all add: postLogoutRedirectURIs_def)


text \<open>
  C36: the integration type that \<open>clientMatches\<close> looks for is the one the payload registers, except
  for an ID-porten resource that asks for the type maskinporten: it is registered as idporten and
  looked for as maskinporten.
\<close>

theorem integration_type_agrees_iff:
  "GetIntegrationType i = cr_IntegrationType (ToClientRegistration urn i c) \<longleftrightarrow>
     \<not> (\<exists>sp. inst_Spec i = IDPortenClient sp \<and> is_IntegrationType sp = IntegrationTypeMaskinporten)"
  by (cases "inst_Spec i") (simp_all add: GetIntegrationType_def ToClientRegistration_def
      toIDPortenClientRegistration_def toMaskinPortenClientRegistration_def defaults Let_def integration_type_defs)

text \<open>The labels tell the two kinds of client apart, so neither kind manages the other's secrets.\<close>

lemma labels_by_kind:
  "map_of (MakeLabels i) TypeLabelKey = map_of (MakeLabels j) TypeLabelKey \<longleftrightarrow>
     ((\<exists>sp. inst_Spec i = IDPortenClient sp) \<longleftrightarrow> (\<exists>sp. inst_Spec j = IDPortenClient sp))"
  by (auto simp: MakeLabels_def idPortenLabels_def maskinportenLabels_def label_defs split: clientSpec.splits)

end
