(* ===== verification/Crypto.thy ===== *)
theory Crypto
  imports Config
begin

text \<open>
  \<open>pkg/crypto\<close> (key generation, the key set sent to DigDir, the key found in existing secrets) and
  \<open>internal/crypto\<close> (the certificate chain of the business certificate, the signer of JWT
  assertions). RSA key generation, UUIDs, PEM and X.509 parsing, go-jose's keys, SHA-256 and the
  cloud signing service are arguments; base64 is written out.
\<close>

section \<open>Keys\<close>

definition ErrNoPreviousJwkFound :: gerror where
  "ErrNoPreviousJwkFound = Sentinel ''no previous JWK found in secrets''"

definition KeyUseSignature :: string where "KeyUseSignature = ''sig''"
definition KeyAlgorithm :: string where "KeyAlgorithm = ''RS256''"

definition GenerateRSAKey :: "('s, keyMaterial) eff \<Rightarrow> ('s, keyMaterial) eff" where
  "GenerateRSAKey rsaGenerate = wrapE ''generating RSA keypair'' rsaGenerate"

definition GenerateJwk :: "('s, keyMaterial) eff \<Rightarrow> ('s, string) eff \<Rightarrow> ('s, jsonWebKey) eff" where
  "GenerateJwk rsaGenerate uuid =
     bindE (wrapE ''generating RSA key for JWK'' (GenerateRSAKey rsaGenerate)) (\<lambda>privateKey.
     bindE uuid (\<lambda>kid.
     returnE \<lparr>jwk_Key = privateKey, jwk_KeyID = kid, jwk_Use = KeyUseSignature, jwk_Algorithm = KeyAlgorithm\<rparr>))"

definition getJWKFromSecret ::
  "(string \<Rightarrow> gerror + jsonWebKey) \<Rightarrow> secret \<Rightarrow> string \<Rightarrow> gerror + jsonWebKey option" where
  "getJWKFromSecret unmarshalJSON s key =
     (case map_of (sec_Data s) key of
        None \<Rightarrow> Inr None
      | Some jwkBytes \<Rightarrow> (case unmarshalJSON jwkBytes of
           Inl e \<Rightarrow> Inl (Err ''unmarshalling JWK from secret'')
         | Inr jwk \<Rightarrow> Inr (Some jwk)))"

definition zeroSecret :: secret where
  "zeroSecret = \<lparr>sec_Name = '''', sec_Namespace = '''', sec_CreationTimestamp = zeroTime, sec_Annotations = [],
     sec_Labels = [], sec_Data = [], sec_Owner = None\<rparr>"

definition newestSecret :: "secret list \<Rightarrow> secret" where
  "newestSecret secrets =
     foldl (\<lambda>newest s. if sec_CreationTimestamp s > sec_CreationTimestamp newest then s else newest)
       zeroSecret secrets"

definition GetPreviousJwkFromSecret ::
  "(string \<Rightarrow> gerror + jsonWebKey) \<Rightarrow> secretLists \<Rightarrow> string \<Rightarrow> gerror + jsonWebKey" where
  "GetPreviousJwkFromSecret unmarshalJSON managedSecrets secretKey =
     (case getJWKFromSecret unmarshalJSON (newestSecret (sl_Used managedSecrets @ sl_Unused managedSecrets)) secretKey of
        Inr (Some key) \<Rightarrow> Inr key
      | Inl e \<Rightarrow> Inl (Wrap ''getting jwk from secret'' e)
      | Inr None \<Rightarrow> Inl ErrNoPreviousJwkFound)"

section \<open>Key sets\<close>

definition KeyIDs :: "digdirJwk list \<Rightarrow> string list" where
  "KeyIDs keys = foldl (\<lambda>ids key. ids @ [dk_KeyID key]) [] keys"

text \<open>
  \<open>time.Unix(d.Expiry, 0)\<close>: Go counts seconds from year 1 in an \<open>int64\<close>, so the addition wraps.
\<close>

definition ExpiryTime :: "digdirJwk \<Rightarrow> int" where
  "ExpiryTime d = (sint (dk_Expiry d + 62135596800) - 62135596800) * 1000000000"

definition unique :: "jsonWebKey list \<Rightarrow> jsonWebKey list" where
  "unique keys =
     snd (foldl (\<lambda>(seen, filtered) key.
                  if \<not> List.member seen (jwk_KeyID key) then (jwk_KeyID key # seen, filtered @ [key])
                  else (seen, filtered)) ([], []) keys)"

text \<open>The loop of \<open>MergeJwks\<close> over the secrets in use.\<close>

fun mergeLoop ::
  "(jsonWebKey \<Rightarrow> jsonWebKey) \<Rightarrow> (string \<Rightarrow> gerror + jsonWebKey) \<Rightarrow> string \<Rightarrow> jsonWebKey list \<Rightarrow> secret list \<Rightarrow>
   gerror + jsonWebKey list" where
  "mergeLoop public unmarshalJSON secretKey keys [] = Inr keys"
| "mergeLoop public unmarshalJSON secretKey keys (s # rest) =
     (case getJWKFromSecret unmarshalJSON s secretKey of
        Inl e \<Rightarrow> Inl (Wrap ''getting key IDs from secret'' e)
      | Inr None \<Rightarrow> mergeLoop public unmarshalJSON secretKey keys rest
      | Inr (Some key) \<Rightarrow> mergeLoop public unmarshalJSON secretKey (keys @ [public key]) rest)"

definition MergeJwks ::
  "(jsonWebKey \<Rightarrow> jsonWebKey) \<Rightarrow> (string \<Rightarrow> gerror + jsonWebKey) \<Rightarrow> jsonWebKey \<Rightarrow> secret list \<Rightarrow> string \<Rightarrow>
   gerror + jsonWebKey list" where
  "MergeJwks public unmarshalJSON jwk secretsInUse secretKey =
     (case mergeLoop public unmarshalJSON secretKey [public jwk] secretsInUse of
        Inl e \<Rightarrow> Inl e | Inr keys \<Rightarrow> Inr (unique keys))"

section \<open>Base64\<close>

definition base64_alphabet :: "bool \<Rightarrow> nat \<Rightarrow> char" where
  "base64_alphabet url i =
     (if i < 26 then char_of (65 + i) else if i < 52 then char_of (71 + i)
      else if i < 62 then char_of (i - 4)
      else if i = 62 then (if url then CHR ''-'' else CHR ''+'')
      else (if url then CHR ''_'' else CHR ''/''))"

text \<open>The sextets of a byte string; the last group is filled with zero bits.\<close>

fun base64_sextets :: "nat list \<Rightarrow> nat list" where
  "base64_sextets [] = []"
| "base64_sextets [a] = [a div 4, (a mod 4) * 16]"
| "base64_sextets [a, b] = [a div 4, (a mod 4) * 16 + b div 16, (b mod 16) * 4]"
| "base64_sextets (a # b # c # rest) =
     [a div 4, (a mod 4) * 16 + b div 16, (b mod 16) * 4 + c div 64, c mod 64] @ base64_sextets rest"

definition RawURLEncoding :: "string \<Rightarrow> string" where
  "RawURLEncoding s = map (base64_alphabet True) (base64_sextets (map of_char s))"

definition StdEncoding :: "string \<Rightarrow> string" where
  "StdEncoding s =
     map (base64_alphabet False) (base64_sextets (map of_char s)) @
     replicate ((3 - length s mod 3) mod 3) (CHR ''='')"

section \<open>Certificates\<close>

record pemBlock =
  pb_Type :: string
  pb_Bytes :: string

text \<open>
  \<open>ConvertPEMChainToX509Chain\<close>: the loop ends when \<open>pem.Decode\<close> finds no further block, so as a HOL
  function it may not return.
\<close>

partial_function (option) ConvertPEMChainToX509Chain ::
  "(string \<Rightarrow> (pemBlock \<times> string) option) \<Rightarrow> (string \<Rightarrow> gerror + 'c) \<Rightarrow> 'c list \<Rightarrow> string \<Rightarrow>
   (gerror + 'c list) option" where
  "ConvertPEMChainToX509Chain pemDecode parseCertificate certs pemChain =
     (case pemDecode pemChain of
        None \<Rightarrow> Some (Inr certs)
      | Some (certDERBlock, rest) \<Rightarrow>
          if pb_Type certDERBlock = ''CERTIFICATE'' then
            (case parseCertificate (pb_Bytes certDERBlock) of
               Inl e \<Rightarrow> Some (Inl (Wrap ''while parsing certificate'' e))
             | Inr cert \<Rightarrow> ConvertPEMChainToX509Chain pemDecode parseCertificate (certs @ [cert]) rest)
          else ConvertPEMChainToX509Chain pemDecode parseCertificate certs rest)"

definition ConvertX509CertificatesToX5c :: "('c \<Rightarrow> string) \<Rightarrow> 'c list \<Rightarrow> string list" where
  "ConvertX509CertificatesToX5c raw certs = foldl (\<lambda>x5c cert. x5c @ [StdEncoding (raw cert)]) [] certs"

section \<open>Signing\<close>

text \<open>A header value of a JWS: a string or a list of strings.\<close>

datatype headerValue = HString string | HStrings "string list"

definition SigningAlg :: string where "SigningAlg = ''RS256''"

text \<open>\<open>maps.Copy(dst, src)\<close>\<close>

definition maps_copy :: "(string \<times> 'v) list \<Rightarrow> (string \<times> 'v) list \<Rightarrow> (string \<times> 'v) list" where
  "maps_copy dst src = foldl (\<lambda>m (k, v). AList.update k v m) dst src"

definition signable :: "string \<Rightarrow> string \<Rightarrow> string" where
  "signable headerJson payload = RawURLEncoding headerJson @ ''.'' @ RawURLEncoding payload"

definition Sign ::
  "((string \<times> headerValue) list \<Rightarrow> gerror + string) \<Rightarrow> (string \<Rightarrow> ('s, string) eff) \<Rightarrow>
   (string \<Rightarrow> string list \<Rightarrow> gerror + 'jws) \<Rightarrow> (string \<times> headerValue) list \<Rightarrow> string \<Rightarrow> ('s, 'jws) eff" where
  "Sign marshal signBytes parseSigned extraHeaders payload =
     (let header = maps_copy [(''alg'', HString SigningAlg)] extraHeaders in
      bindE (wrapE ''marshalling payload'' (liftE (marshal header))) (\<lambda>headerJson.
      let s = signable headerJson payload in
      bindE (wrapE ''signing bytes'' (signBytes s)) (\<lambda>signature.
      liftE (parseSigned (s @ ''.'' @ RawURLEncoding signature) [SigningAlg]))))"

text \<open>
  \<open>KmsByteSigner.SignBytes\<close>: the service signs the digest with the configured key. \<open>sha256\<close> is \<open>digest.Write\<close>
  followed by \<open>digest.Sum\<close>; an error of the former ends the function with its text in the message.
\<close>

definition SignBytes ::
  "(string \<Rightarrow> gerror + string) \<Rightarrow> (string \<Rightarrow> string \<Rightarrow> ('s, string) eff) \<Rightarrow> string \<Rightarrow> string \<Rightarrow> ('s, string) eff" where
  "SignBytes sha256 asymmetricSign kmsKeyPath payload =
     (case sha256 payload of
        Inl e \<Rightarrow> failE (Err (''failed to create digest of content: '' @ error_text e))
      | Inr digest \<Rightarrow> wrapE ''failed to sign digest'' (asymmetricSign kmsKeyPath digest))"

text \<open>
  \<open>NewKmsSigner\<close> up to the construction of the cloud client: the extra headers of the signer it
  returns. A loop over the chain that never ends is \<open>None\<close>.
\<close>

definition NewKmsSigner ::
  "(string \<Rightarrow> (pemBlock \<times> string) option) \<Rightarrow> (string \<Rightarrow> gerror + 'c) \<Rightarrow> ('c \<Rightarrow> string) \<Rightarrow>
   (string \<Rightarrow> headerValue \<Rightarrow> (string \<times> headerValue) list \<Rightarrow> (string \<times> headerValue) list) \<Rightarrow>
   gerror + unit \<Rightarrow> string \<Rightarrow> (gerror + (string \<times> headerValue) list) option" where
  "NewKmsSigner pemDecode parseCertificate raw withHeader newKmsClient pemChain =
     (case ConvertPEMChainToX509Chain pemDecode parseCertificate [] pemChain of
        None \<Rightarrow> None
      | Some (Inl e) \<Rightarrow> Some (Inl (Wrap ''converting PEM cert chain to X509 cert chain'' e))
      | Some (Inr certs) \<Rightarrow>
          if length certs = 0 then Some (Inl (Err ''no certificates found in PEM chain''))
          else let opts = withHeader ''x5c'' (HStrings (ConvertX509CertificatesToX5c raw certs))
                            (withHeader ''typ'' (HString ''JWT'') [])
               in (case newKmsClient of
                     Inl e \<Rightarrow> Some (Inl (Err (''error creating key management client: '' @ error_text e)))
                   | Inr _ \<Rightarrow> Some (Inr opts)))"

text \<open>\<open>newKmsClient\<close> takes the REST transport when a forward proxy is configured.\<close>

definition hasForwardProxy :: "(string \<Rightarrow> string) \<Rightarrow> bool" where
  "hasForwardProxy getenv =
     list_ex (\<lambda>s. getenv s \<noteq> '''') [''HTTP_PROXY'', ''http_proxy'', ''HTTPS_PROXY'', ''https_proxy'']"

definition newKmsClient :: "(string \<Rightarrow> string) \<Rightarrow> 'client \<Rightarrow> 'client \<Rightarrow> 'client" where
  "newKmsClient getenv rest grpc = (if hasForwardProxy getenv then rest else grpc)"

section \<open>The key set sent to DigDir\<close>

lemma unique_snoc:
  "unique (xs @ [k]) =
     (if jwk_KeyID k \<notin> jwk_KeyID ` set (unique xs) then unique xs @ [k] else unique xs)"
proof -
  let ?f = "\<lambda>(seen, filtered) key.
    if \<not> List.member seen (jwk_KeyID key) then (jwk_KeyID key # seen, filtered @ [key]) else (seen, filtered)"
  have "set (fst (foldl ?f ([], []) ys)) = jwk_KeyID ` set (snd (foldl ?f ([], []) ys))" for ys :: "jsonWebKey list"
    by (induction ys rule: rev_induct) (auto split: prod.splits)
  from this [of xs] show ?thesis
    by (cases "foldl ?f ([], []) xs") (simp add: unique_def)
qed

interpretation uniq: first_wins unique jwk_KeyID "\<lambda>_. True"
  by unfold_locales (simp_all add: unique_snoc, simp add: unique_def)

text \<open>The keys found in a list of secrets.\<close>

definition keys_in :: "(string \<Rightarrow> gerror + jsonWebKey) \<Rightarrow> string \<Rightarrow> secret list \<Rightarrow> jsonWebKey list" where
  "keys_in unmarshalJSON secretKey ss =
     concat (map (\<lambda>s. case getJWKFromSecret unmarshalJSON s secretKey of Inr (Some k) \<Rightarrow> [k] | _ \<Rightarrow> []) ss)"

definition broken_secret :: "(string \<Rightarrow> gerror + jsonWebKey) \<Rightarrow> string \<Rightarrow> secret \<Rightarrow> bool" where
  "broken_secret unmarshalJSON secretKey s =
     (case map_of (sec_Data s) secretKey of None \<Rightarrow> False | Some b \<Rightarrow> isl (unmarshalJSON b))"

lemma getJWKFromSecret_Inl_iff: "isl (getJWKFromSecret u s k) \<longleftrightarrow> broken_secret u k s"
  by (simp add: getJWKFromSecret_def broken_secret_def split: option.split sum.split)

lemma mergeLoop_Inr_iff:
  "mergeLoop p u k keys ss = Inr ks \<longleftrightarrow>
     (\<forall>s \<in> set ss. \<not> broken_secret u k s) \<and> ks = keys @ map p (keys_in u k ss)"
proof (induction ss arbitrary: keys)
  case Nil
  then show ?case by (auto simp: keys_in_def)
next
  case (Cons s ss)
  show ?case
    using Cons.IH getJWKFromSecret_Inl_iff [of u s k]
    by (cases "getJWKFromSecret u s k") (auto simp: keys_in_def split: option.splits)
qed

text \<open>What go-jose documents of \<open>JSONWebKey.Public\<close>: the same key ID, and no private key.\<close>

definition public_contract :: "(jsonWebKey \<Rightarrow> jsonWebKey) \<Rightarrow> bool" where
  "public_contract public \<longleftrightarrow>
     (\<forall>k. jwk_KeyID (public k) = jwk_KeyID k \<and> \<not> is_private (jwk_Key (public k)))"

lemma MergeJwks_Inr:
  assumes pub: "public_contract public" and ok: "MergeJwks public u jwk used k = Inr ks"
  shows "\<exists>rest. ks = public jwk # rest"
    and "distinct (map jwk_KeyID ks)"
    and "\<forall>x \<in> set ks. \<not> is_private (jwk_Key x)"
    and "jwk_KeyID ` set ks = insert (jwk_KeyID jwk) (jwk_KeyID ` set (keys_in u k used))"
proof -
  have ks: "ks = unique (public jwk # map public (keys_in u k used))"
    using ok by (auto simp: MergeJwks_def mergeLoop_Inr_iff split: sum.splits)
  show "\<exists>rest. ks = public jwk # rest" unfolding ks by (rule uniq.head) simp
  show "distinct (map jwk_KeyID ks)" unfolding ks by (rule uniq.distinct_keys)
  show "\<forall>x \<in> set ks. \<not> is_private (jwk_Key x)"
    using pub uniq.kept unfolding ks public_contract_def by fastforce
  show "jwk_KeyID ` set ks = insert (jwk_KeyID jwk) (jwk_KeyID ` set (keys_in u k used))"
  proof -
    have "jwk_KeyID ` set ks = jwk_KeyID ` set (public jwk # map public (keys_in u k used))"
      unfolding ks uniq.keys_eq by (simp only: simp_thms Collect_mem_eq)
    then show ?thesis using pub by (simp add: public_contract_def image_image)
  qed
qed

text \<open>
  C28: the key set built for DigDir fails exactly when a secret in use holds a JWK that does not parse;
  otherwise it starts with the public half of the current key, holds no private key and no key ID
  twice, and its key IDs are the current one and those of the keys in use.
\<close>

theorem merge_jwks_public_and_complete:
  assumes "public_contract public"
  shows "case MergeJwks public u jwk used k of
      Inl _ \<Rightarrow> (\<exists>s \<in> set used. broken_secret u k s)
    | Inr ks \<Rightarrow> (\<forall>s \<in> set used. \<not> broken_secret u k s) \<and> hd ks = public jwk \<and> distinct (map jwk_KeyID ks) \<and>
        (\<forall>x \<in> set ks. \<not> is_private (jwk_Key x)) \<and>
        jwk_KeyID ` set ks = insert (jwk_KeyID jwk) (jwk_KeyID ` set (keys_in u k used))"
proof (cases "MergeJwks public u jwk used k")
  case (Inl e)
  then have "\<not> (\<forall>s \<in> set used. \<not> broken_secret u k s)"
    using mergeLoop_Inr_iff [of public u k "[public jwk]" used]
    by (auto simp: MergeJwks_def split: sum.splits)
  with Inl show ?thesis by simp
next
  case (Inr ks)
  then have "\<forall>s \<in> set used. \<not> broken_secret u k s"
    by (auto simp: MergeJwks_def mergeLoop_Inr_iff split: sum.splits)
  with Inr show ?thesis using MergeJwks_Inr [OF assms Inr] by auto
qed

text \<open>A public half, and a parser that reads the key ID back, for concrete runs.\<close>

definition sample_public :: "jsonWebKey \<Rightarrow> jsonWebKey" where
  "sample_public k = k\<lparr>jwk_Key := (case jwk_Key k of RSAPrivate n \<Rightarrow> RSAPublic n | RSAPublic n \<Rightarrow> RSAPublic n)\<rparr>"

definition sample_unmarshal :: "string \<Rightarrow> gerror + jsonWebKey" where
  "sample_unmarshal b = (if b = '''' then Inl (Err ''empty'')
     else Inr \<lparr>jwk_Key = RSAPrivate 7, jwk_KeyID = b, jwk_Use = KeyUseSignature, jwk_Algorithm = KeyAlgorithm\<rparr>)"

lemma sample_public_contract: "public_contract sample_public"
  by (simp add: public_contract_def sample_public_def split: keyMaterial.split)

definition sample_jwk :: jsonWebKey where
  "sample_jwk = \<lparr>jwk_Key = RSAPrivate 5, jwk_KeyID = ''new'', jwk_Use = KeyUseSignature, jwk_Algorithm = KeyAlgorithm\<rparr>"

theorem merge_jwks_public_and_complete_witness:
  "public_contract sample_public \<and>
   (case MergeJwks sample_public sample_unmarshal sample_jwk [zeroSecret\<lparr>sec_Data := [(''jwk'', ''old'')]\<rparr>] ''jwk'' of
      Inl _ \<Rightarrow> False
    | Inr ks \<Rightarrow> hd ks = sample_public sample_jwk \<and> jwk_KeyID ` set ks = {''new'', ''old''})"
proof -
  let ?used = "[zeroSecret\<lparr>sec_Data := [(''jwk'', ''old'')]\<rparr>]"
  have "\<not> (\<exists>s \<in> set ?used. broken_secret sample_unmarshal ''jwk'' s)"
    by (simp add: broken_secret_def sample_unmarshal_def)
  moreover have "jwk_KeyID ` set (keys_in sample_unmarshal ''jwk'' ?used) = {''old''}"
    by (simp add: keys_in_def getJWKFromSecret_def sample_unmarshal_def)
  moreover have "jwk_KeyID sample_jwk = ''new''" by (simp add: sample_jwk_def)
  ultimately show ?thesis
    using merge_jwks_public_and_complete [OF sample_public_contract, where u = sample_unmarshal and jwk = sample_jwk and used = ?used and k = "''jwk''"]
      sample_public_contract by (auto split: sum.splits)
qed

section \<open>The key of the newest secret\<close>

lemma newestSecret_snoc:
  "newestSecret (ss @ [s]) =
     (if sec_CreationTimestamp s > sec_CreationTimestamp (newestSecret ss) then s else newestSecret ss)"
  by (simp add: newestSecret_def)

lemma newestSecret_max: "s \<in> set ss \<Longrightarrow> sec_CreationTimestamp s \<le> sec_CreationTimestamp (newestSecret ss)"
  by (induction ss rule: rev_induct) (auto simp: newestSecret_snoc)

lemma newestSecret_mem: "newestSecret ss = zeroSecret \<or> newestSecret ss \<in> set ss"
  by (induction ss rule: rev_induct) (auto simp: newestSecret_snoc newestSecret_def [of "[]"])

text \<open>
  C29: the key that is kept is that of the most recently created managed secret, used or not: a key
  is returned exactly when that secret holds one that parses; without an entry for the key (or
  without any secret) the sentinel for a missing key is returned, and any other error is a JWK
  that does not parse.
\<close>

theorem previous_jwk_from_newest_secret:
  "let ss = sl_Used m @ sl_Unused m; s = newestSecret ss in
     list_all (\<lambda>t. sec_CreationTimestamp t \<le> sec_CreationTimestamp s) ss \<and>
     (GetPreviousJwkFromSecret u m k = Inr jwk \<longleftrightarrow>
        List.member ss s \<and> getJWKFromSecret u s k = Inr (Some jwk)) \<and>
     (GetPreviousJwkFromSecret u m k = Inl ErrNoPreviousJwkFound \<longleftrightarrow> map_of (sec_Data s) k = None) \<and>
     (isl (GetPreviousJwkFromSecret u m k) \<longleftrightarrow> map_of (sec_Data s) k = None \<or> broken_secret u k s)"
proof -
  let ?ss = "sl_Used m @ sl_Unused m"
  let ?s = "newestSecret ?ss"
  have mem: "?s \<in> set ?ss" if "getJWKFromSecret u ?s k = Inr (Some jwk)"
  proof (rule ccontr)
    assume "?s \<notin> set ?ss"
    then have "?s = zeroSecret" using newestSecret_mem by blast
    with that show False by (simp add: getJWKFromSecret_def zeroSecret_def)
  qed
  have none: "getJWKFromSecret u ?s k = Inr None \<longleftrightarrow> map_of (sec_Data ?s) k = None"
    by (simp add: getJWKFromSecret_def split: option.split sum.split)
  have "list_all (\<lambda>t. sec_CreationTimestamp t \<le> sec_CreationTimestamp ?s) ?ss"
    using newestSecret_max [of _ ?ss] by (simp only: list_all_iff) blast
  moreover have "GetPreviousJwkFromSecret u m k = Inr jwk \<longleftrightarrow>
      List.member ?ss ?s \<and> getJWKFromSecret u ?s k = Inr (Some jwk)"
    using mem by (auto simp: GetPreviousJwkFromSecret_def List.member_iff split: sum.splits option.splits)
  moreover have "GetPreviousJwkFromSecret u m k = Inl ErrNoPreviousJwkFound \<longleftrightarrow> map_of (sec_Data ?s) k = None"
    using none by (auto simp: GetPreviousJwkFromSecret_def ErrNoPreviousJwkFound_def split: sum.splits option.splits)
  moreover have "isl (GetPreviousJwkFromSecret u m k) \<longleftrightarrow> map_of (sec_Data ?s) k = None \<or> broken_secret u k ?s"
    using none getJWKFromSecret_Inl_iff [of u ?s k]
    by (auto simp: GetPreviousJwkFromSecret_def split: sum.splits option.splits)
  ultimately show ?thesis by (simp only: Let_def simp_thms)
qed

section \<open>Expiry times\<close>

text \<open>
  C32: the expiry time of a key is its \<open>exp\<close> in seconds since the epoch, unless adding Go's offset to
  year 1 overflows 64 bits; then the instant lies before the epoch, so such a key counts as expired.
\<close>

theorem expiry_time_wraps:
  "ExpiryTime d = (if sint (dk_Expiry d) + 62135596800 < 2 ^ 63 then sint (dk_Expiry d) * 1000000000
                   else (sint (dk_Expiry d) - 2 ^ 64) * 1000000000)"
proof -
  let ?e = "sint (dk_Expiry d)"
  have range: "- (2 ^ 63) \<le> ?e" "?e < 2 ^ 63"
    using sint_range_size [of "dk_Expiry d"] by (simp_all add: word_size)
  have "sint (dk_Expiry d + 62135596800) = signed_take_bit 63 (?e + 62135596800)"
    by (simp add: sint_word_ariths)
  also have "\<dots> = (if ?e + 62135596800 < 2 ^ 63 then ?e + 62135596800 else ?e + 62135596800 - 2 ^ 64)"
  proof (cases "?e + 62135596800 < 2 ^ 63")
    case True
    with range show ?thesis by (simp add: signed_take_bit_int_eq_self)
  next
    case False
    have "(?e + 62135596800 - 2 ^ 63 + 2 ^ 64) mod 2 ^ 64 = ?e + 62135596800 - 2 ^ 63"
      unfolding mod_add_self2 by (rule mod_pos_pos_trivial) (use False range in simp_all)
    with False show ?thesis
      by (simp add: signed_take_bit_eq_take_bit_shift take_bit_eq_mod)
  qed
  finally show ?thesis by (auto simp: ExpiryTime_def)
qed

section \<open>The certificate chain\<close>

text \<open>
  The blocks that repeated decoding finds in a byte string, and the certificates that the first
  broken one, if any, cuts off.
\<close>

inductive pem_blocks :: "(string \<Rightarrow> (pemBlock \<times> string) option) \<Rightarrow> string \<Rightarrow> pemBlock list \<Rightarrow> bool"
  for dec where
  none: "dec d = None \<Longrightarrow> pem_blocks dec d []"
| some: "dec d = Some (b, rest) \<Longrightarrow> pem_blocks dec rest bs \<Longrightarrow> pem_blocks dec d (b # bs)"

inductive_simps pem_blocks_iff: "pem_blocks dec d bs"

fun parse_all :: "(string \<Rightarrow> gerror + 'c) \<Rightarrow> 'c list \<Rightarrow> pemBlock list \<Rightarrow> gerror + 'c list" where
  "parse_all parse certs [] = Inr certs"
| "parse_all parse certs (b # bs) =
     (if pb_Type b = ''CERTIFICATE''
      then (case parse (pb_Bytes b) of Inl e \<Rightarrow> Inl (Wrap ''while parsing certificate'' e)
            | Inr c \<Rightarrow> parse_all parse (certs @ [c]) bs)
      else parse_all parse certs bs)"

lemma pem_blocks_exist:
  assumes "\<And>d b rest. dec d = Some (b, rest) \<Longrightarrow> length rest < length d"
  shows "\<exists>bs. pem_blocks dec d bs"
proof (induction d rule: length_induct)
  case (1 d)
  show ?case
  proof (cases "dec d")
    case None
    then show ?thesis by (blast intro: pem_blocks.none)
  next
    case (Some r)
    obtain b rest where r: "r = (b, rest)" by (cases r)
    with Some assms "1" obtain bs where "pem_blocks dec rest bs" by blast
    with Some r show ?thesis by (blast intro: pem_blocks.some)
  qed
qed

lemma pem_blocks_run:
  "pem_blocks dec d bs \<Longrightarrow> ConvertPEMChainToX509Chain dec parse certs d = Some (parse_all parse certs bs)"
proof (induction arbitrary: certs rule: pem_blocks.induct)
  case (none d)
  then show ?case by (simp add: ConvertPEMChainToX509Chain.simps)
next
  case (some d b rest bs)
  then show ?case
    by (subst ConvertPEMChainToX509Chain.simps) (simp split: sum.split)
qed

text \<open>\<open>pem.Decode\<close> returns the rest of its input after the block it found.\<close>

definition decode_consumes :: "(string \<Rightarrow> (pemBlock \<times> string) option) \<Rightarrow> bool" where
  "decode_consumes dec \<longleftrightarrow> (\<forall>d b rest. dec d = Some (b, rest) \<longrightarrow> length rest < length d)"

text \<open>
  C30: when decoding a PEM block always consumes input, the conversion of the chain returns, and gives
  the certificates of the CERTIFICATE blocks in order, or the error of the first that does not
  parse; blocks of other types are skipped.
\<close>

theorem pem_chain_terminates:
  assumes "decode_consumes dec"
  shows "\<exists>bs. pem_blocks dec chain bs \<and>
    ConvertPEMChainToX509Chain dec parse [] chain = Some (parse_all parse [] bs)"
proof -
  obtain bs where "pem_blocks dec chain bs"
    using pem_blocks_exist [of dec chain] assms unfolding decode_consumes_def by blast
  then show ?thesis using pem_blocks_run by blast
qed

text \<open>A decoder of one-character blocks for concrete runs.\<close>

definition sample_decode :: "string \<Rightarrow> (pemBlock \<times> string) option" where
  "sample_decode d = (case d of [] \<Rightarrow> None
     | x # rest \<Rightarrow> Some (\<lparr>pb_Type = (if x = CHR ''k'' then ''KEY'' else ''CERTIFICATE''), pb_Bytes = [x]\<rparr>, rest))"

theorem pem_chain_terminates_witness:
  "decode_consumes sample_decode \<and>
   ConvertPEMChainToX509Chain sample_decode Inr [] ''akb'' = Some (Inr [''a'', ''b''])"
proof -
  have h: "decode_consumes sample_decode"
    by (auto simp: decode_consumes_def sample_decode_def split: list.splits)
  have last: "pem_blocks sample_decode '''' bs \<longleftrightarrow> bs = []" for bs
    by (subst pem_blocks_iff) (simp add: sample_decode_def)
  have step: "pem_blocks sample_decode (x # d) bs \<longleftrightarrow>
      (\<exists>bs'. bs = \<lparr>pb_Type = (if x = CHR ''k'' then ''KEY'' else ''CERTIFICATE''), pb_Bytes = [x]\<rparr> # bs' \<and>
        pem_blocks sample_decode d bs')" for x d bs
    by (subst pem_blocks_iff) (auto simp: sample_decode_def)
  from pem_chain_terminates [OF h, of "''akb''" Inr]
  have "ConvertPEMChainToX509Chain sample_decode Inr [] ''akb'' = Some (Inr [''a'', ''b''])"
    by (auto simp: step last)
  with h show ?thesis by blast
qed

section \<open>The compact serialization\<close>

lemma base64_sextets_less: "\<forall>x \<in> set xs. x < 256 \<Longrightarrow> y \<in> set (base64_sextets xs) \<Longrightarrow> y < 64"
proof (induction xs rule: base64_sextets.induct)
  case (3 a b)
  then have "(a mod 4) * 16 + b div 16 < 64" by (simp add: less_mult_imp_div_less) linarith
  with 3 show ?case by (auto simp: less_mult_imp_div_less)
next
  case (4 a b c rest)
  then have "b div 16 < 16" "c div 64 < 4" by (auto simp: less_mult_imp_div_less)
  then have "(a mod 4) * 16 + b div 16 < 64" "(b mod 16) * 4 + c div 64 < 64"
    using mod_less_divisor [of 4 a] mod_less_divisor [of 16 b] by linarith+
  with 4 show ?case by (auto simp: less_mult_imp_div_less)
qed (auto simp: less_mult_imp_div_less)

lemma base64url_no_dot: "base64_alphabet True i \<noteq> CHR ''.''" if "i < 64"
proof
  assume "base64_alphabet True i = CHR ''.''"
  then have "of_char (base64_alphabet True i) = (46::nat)" by simp
  with that show False
    by (auto simp: base64_alphabet_def split: if_splits)
qed

lemma RawURLEncoding_no_dot: "CHR ''.'' \<notin> set (RawURLEncoding s)"
proof
  assume "CHR ''.'' \<in> set (RawURLEncoding s)"
  then have "CHR ''.'' \<in> base64_alphabet True ` set (base64_sextets (map of_char s))"
    by (simp only: RawURLEncoding_def set_map)
  then obtain i where e: "CHR ''.'' = base64_alphabet True i"
    and i: "i \<in> set (base64_sextets (map of_char s))" by (rule imageE)
  have "i < 64" by (rule base64_sextets_less [OF _ i]) simp
  from base64url_no_dot [OF this] e [symmetric] show False by (rule notE)
qed

text \<open>
  A decoder for the encoding, as RFC 4648 describes it: the value of a character, four sextets to
  three bytes, two or three to a short last group.
\<close>

definition base64url_value :: "char \<Rightarrow> nat option" where
  "base64url_value c =
     (let n = of_char c in
      if 65 \<le> n \<and> n \<le> 90 then Some (n - 65) else if 97 \<le> n \<and> n \<le> 122 then Some (n - 71)
      else if 48 \<le> n \<and> n \<le> 57 then Some (n + 4) else if n = 45 then Some 62 else if n = 95 then Some 63 else None)"

fun bytes_of_sextets :: "nat list \<Rightarrow> nat list option" where
  "bytes_of_sextets [] = Some []"
| "bytes_of_sextets [x] = None"
| "bytes_of_sextets [x, y] = Some [x * 4 + y div 16]"
| "bytes_of_sextets [x, y, z] = Some [x * 4 + y div 16, (y mod 16) * 16 + z div 4]"
| "bytes_of_sextets (x # y # z # w # rest) =
     map_option ((@) [x * 4 + y div 16, (y mod 16) * 16 + z div 4, (z mod 4) * 64 + w]) (bytes_of_sextets rest)"

definition base64url_decode :: "string \<Rightarrow> string option" where
  "base64url_decode s = (case those (map base64url_value s) of
     None \<Rightarrow> None | Some xs \<Rightarrow> map_option (map char_of) (bytes_of_sextets xs))"

lemma base64url_value_alphabet: "i < 64 \<Longrightarrow> base64url_value (base64_alphabet True i) = Some i"
  by (auto simp: base64url_value_def base64_alphabet_def Let_def)

lemma sextet_bytes:
  fixes a b c :: nat
  assumes "b < 256" and "c < 256"
  shows "a div 4 * 4 + (a mod 4 * 16 + b div 16) div 16 = a"
    and "(a mod 4 * 16 + b div 16) mod 16 * 16 + (b mod 16 * 4 + c div 64) div 4 = b"
    and "(b mod 16 * 4 + c div 64) mod 4 * 64 + c mod 64 = c"
proof -
  have "b div 16 < 16" "c div 64 < 4" using assms by (auto simp: less_mult_imp_div_less)
  then show "a div 4 * 4 + (a mod 4 * 16 + b div 16) div 16 = a"
    "(a mod 4 * 16 + b div 16) mod 16 * 16 + (b mod 16 * 4 + c div 64) div 4 = b"
    "(b mod 16 * 4 + c div 64) mod 4 * 64 + c mod 64 = c"
    by (simp_all add: div_mult_mod_eq)
qed

lemma bytes_of_base64_sextets: "\<forall>x \<in> set xs. x < 256 \<Longrightarrow> bytes_of_sextets (base64_sextets xs) = Some xs"
proof (induction xs rule: base64_sextets.induct)
  case (2 a)
  then show ?case by (simp add: div_mult_mod_eq)
next
  case (3 a b)
  then show ?case using sextet_bytes(1) [of b 0 a] sextet_bytes(2) [of b 0 a] by simp
next
  case (4 a b c rest)
  then have bc: "b < 256" "c < 256" by auto
  from 4 show ?case using sextet_bytes(1,2) [OF bc, of a] sextet_bytes(3) [OF bc] by simp
qed simp

lemma those_map: "(\<And>x. x \<in> set xs \<Longrightarrow> f x = Some (g x)) \<Longrightarrow> those (map f xs) = Some (map g xs)"
  by (induction xs) auto

lemma base64url_decode_encode: "base64url_decode (RawURLEncoding s) = Some s"
proof -
  have b: "\<forall>x \<in> set (map of_char s). x < (256::nat)" by simp
  have "those (map base64url_value (RawURLEncoding s)) = Some (map (\<lambda>i. i) (base64_sextets (map of_char s)))"
    unfolding RawURLEncoding_def map_map
    by (rule those_map) (simp add: base64url_value_alphabet base64_sextets_less [OF b])
  then show ?thesis by (simp add: base64url_decode_def bytes_of_base64_sextets [OF b] comp_def)
qed

lemma maps_copy_lookup: "map_of (maps_copy dst src) k = (case map_of (rev src) k of Some v \<Rightarrow> Some v | None \<Rightarrow> map_of dst k)"
proof (induction src rule: rev_induct)
  case (snoc kv src)
  then show ?case by (cases kv) (simp add: maps_copy_def update_conv')
qed (simp add: maps_copy_def)

text \<open>
  C31: what \<open>Sign\<close> hands to the parser is the compact serialization of what it was given. The token has
  three segments without a dot; decoded, the first is the JSON of the header, the second the payload
  and the third the signature, and the bytes that were signed are the first two segments with the dot
  between them. The header has the algorithm RS256 unless the signer's options set another, and all of
  the options' headers.
\<close>

theorem sign_round_trip:
  assumes "Sign marshal signBytes parseSigned extraHeaders payload s = (Inr jws, s')"
  shows "\<exists>header headerJson signature a b d.
    parseSigned (a @ ''.'' @ b @ ''.'' @ d) [''RS256''] = Inr jws \<and>
    CHR ''.'' \<notin> set (a @ b @ d) \<and>
    base64url_decode a = Some headerJson \<and> base64url_decode b = Some payload \<and> base64url_decode d = Some signature \<and>
    signBytes (a @ ''.'' @ b) s = (Inr signature, s') \<and> marshal header = Inr headerJson \<and>
    (\<forall>k. map_of header k = (case map_of (rev extraHeaders) k of Some v \<Rightarrow> Some v
       | None \<Rightarrow> if k = ''alg'' then Some (HString ''RS256'') else None))"
proof -
  let ?h = "maps_copy [(''alg'', HString SigningAlg)] extraHeaders"
  obtain headerJson s1 where m: "wrapE ''marshalling payload'' (liftE (marshal ?h)) s = (Inr headerJson, s1)"
    and k: "bindE (wrapE ''signing bytes'' (signBytes (signable headerJson payload))) (\<lambda>signature.
      liftE (parseSigned (signable headerJson payload @ ''.'' @ RawURLEncoding signature) [SigningAlg])) s1 = (Inr jws, s')"
    using assms unfolding Sign_def Let_def by (rule bindE_InrE)
  from m have h: "marshal ?h = Inr headerJson" "s1 = s" by (simp_all only: wrapE_Inr_iff liftE_eq)
  obtain signature s2 where b: "wrapE ''signing bytes'' (signBytes (signable headerJson payload)) s1 = (Inr signature, s2)"
    and p: "liftE (parseSigned (signable headerJson payload @ ''.'' @ RawURLEncoding signature) [SigningAlg]) s2 = (Inr jws, s')"
    using k by (rule bindE_InrE)
  from b have sb: "signBytes (RawURLEncoding headerJson @ ''.'' @ RawURLEncoding payload) s = (Inr signature, s2)"
    by (simp only: wrapE_Inr_iff h(2) signable_def)
  from p have ps: "parseSigned (RawURLEncoding headerJson @ ''.'' @ RawURLEncoding payload @ ''.'' @ RawURLEncoding signature)
      [''RS256''] = Inr jws" "s2 = s'"
    by (simp_all only: liftE_eq signable_def SigningAlg_def append_assoc)
  have lookup: "map_of ?h k = (case map_of (rev extraHeaders) k of Some v \<Rightarrow> Some v
      | None \<Rightarrow> if k = ''alg'' then Some (HString ''RS256'') else None)" for k
    unfolding maps_copy_lookup SigningAlg_def by (simp only: map_of.simps fun_upd_apply fst_conv snd_conv)
  have dots: "CHR ''.'' \<notin> set (RawURLEncoding headerJson @ RawURLEncoding payload @ RawURLEncoding signature)"
    using RawURLEncoding_no_dot by (simp only: set_append Un_iff) blast
  show ?thesis
    by (rule exI [of _ ?h], rule exI [of _ headerJson], rule exI [of _ signature], rule exI [of _ "RawURLEncoding headerJson"],
        rule exI [of _ "RawURLEncoding payload"], rule exI [of _ "RawURLEncoding signature"])
      (intro conjI allI base64url_decode_encode lookup dots ps(1) sb [unfolded ps(2)] h(1))
qed

theorem sign_round_trip_witness:
  "Sign (\<lambda>_. Inr ''h'') (\<lambda>b. returnE ''s'') (\<lambda>t _. Inr t) [(''typ'', HString ''JWT'')] ''p'' () = (Inr ''aA.cA.cw'', ()) \<and>
   (\<exists>a b d. ''aA.cA.cw'' = a @ ''.'' @ b @ ''.'' @ d \<and> base64url_decode b = Some ''p'' \<and> base64url_decode d = Some ''s'')"
proof -
  have run: "Sign (\<lambda>_. Inr ''h'') (\<lambda>b. returnE ''s'') (\<lambda>t _. Inr t) [(''typ'', HString ''JWT'')] ''p'' () = (Inr ''aA.cA.cw'', ())"
    by (simp add: Sign_def Let_def bindE_def wrapE_run liftE_def signable_def RawURLEncoding_def base64_alphabet_def
        char_of_def bit_iff_odd)
  from sign_round_trip [OF this] obtain signature a b d where
    o: "(Inr (a @ ''.'' @ b @ ''.'' @ d) :: gerror + string) = Inr ''aA.cA.cw''"
    "base64url_decode b = Some ''p''" "base64url_decode d = Some signature" "returnE ''s'' () = (Inr signature, ())"
    by (elim exE conjE) (rule that)
  have "''aA.cA.cw'' = a @ ''.'' @ b @ ''.'' @ d" using o(1) by (simp only: sum.inject)
  moreover have "base64url_decode d = Some ''s''" using o(3,4) by (simp add: returnE_def)
  ultimately show ?thesis using run o(2) by blast
qed

end
