(* ===== verification/Runtime.thy ===== *)
theory Runtime
  imports Clients Crypto
begin

text \<open>
  The ground the controller stands on. The state of a running reconcile is the outside world (an
  opaque value of type \<open>'w\<close> that only the functions below change), the object under reconciliation,
  the counters and the scope cache (of type \<open>'c\<close>) of the process, and a log of the calls that left the
  process. The code that is
  not in the repository (the Kubernetes API and its client, the HTTP client, the retry loop of
  go-retry, the scope cache, go-jose, liberator) is a record of functions over the world; what the
  theorems rely on of each is stated as a named contract.
\<close>

section \<open>Calls and the state\<close>

record httpRequest =
  rq_Method :: string
  rq_URL :: string
  rq_Headers :: "(string \<times> string) list"
  rq_Body :: string

text \<open>A response; reading its body may fail.\<close>

record httpResponse =
  hr_StatusCode :: int
  hr_Status :: string
  hr_Body :: "gerror + string"

datatype channel = TokenEndpoint | AdminAPI

datatype effect =
    Http channel httpRequest "gerror + httpResponse"
  | KubeUpdate clientInstance "gerror option"
  | KubeStatusUpdate clientInstance "gerror option"
  | SecretApplied secret "gerror + string"
  | SecretDeleted secret "gerror option"
  | EventRecorded string string string

text \<open>The counters and gauges that \<open>pkg/metrics\<close> declares, with the names they are exported under.\<close>

datatype gauge =
    IDPortenClientsTotal | IDPortenSecretsTotal | MaskinportenClientsTotal | MaskinportenSecretsTotal
  | MaskinportenExposedScopesTotal | MaskinportenExternalScopesConsumedTotal | MaskinportenScopeConsumersTotal

datatype counter =
    IDPortenClientsCreatedCount | IDPortenClientsUpdatedCount | IDPortenClientsRotatedCount
  | IDPortenClientsProcessedCount | IDPortenClientsFailedProcessingCount
  | IDPortenClientsFailedInvalidConfigCount | IDPortenClientsDeletedCount
  | MaskinportenClientsCreatedCount | MaskinportenClientsUpdatedCount | MaskinportenClientsRotatedCount
  | MaskinportenClientsProcessedCount | MaskinportenClientsFailedProcessingCount
  | MaskinportenClientsFailedInvalidConfigCount | MaskinportenClientsDeletedCount
  | MaskinportenScopesCreatedCount | MaskinportenScopesUpdatedCount | MaskinportenScopesDeletedCount
  | MaskinportenScopesReactivatedCount | MaskinportenScopesConsumersCreatedCount
  | MaskinportenScopesConsumersUpdatedCount | MaskinportenScopesConsumersDeletedCount

record ('w, 'c) st =
  world :: 'w
  trace :: "effect list"
  counters :: "counter \<Rightarrow> string \<Rightarrow> nat option"
  gauges :: "gauge \<Rightarrow> int"
  inst :: clientInstance
  scopeCache :: 'c
  nsItems :: "string list"

section \<open>The libraries\<close>

text \<open>
  \<open>retry.Backoff\<close>: a Fibonacci sequence with a base delay, and the two limits the program can set.
\<close>

record backoff =
  bo_Base :: duration
  bo_MaxRetries :: "64 word option"
  bo_MaxDuration :: "duration option"

text \<open>The claims of the assertion that is exchanged for an access token.\<close>

record customClaims =
  cl_Issuer :: string
  cl_Audience :: "string list"
  cl_Expiry :: int
  cl_NotBefore :: int
  cl_IssuedAt :: int
  cl_ID :: string
  cl_Scope :: string

text \<open>
  The network: \<open>http.NewRequest\<close> (its check of method and URL), \<open>http.Client.Do\<close>, \<open>retry.Do\<close>,
  \<open>crypto.GenerateJwt\<close> (go-jose's serialization with the signer), the scope cache, and URLs.
\<close>

record ('w, 'c) netLib =
  net_NewRequest :: "string \<Rightarrow> string \<Rightarrow> gerror + unit"
  net_Do :: "httpRequest \<Rightarrow> 'w \<Rightarrow> (gerror + httpResponse) \<times> 'w"
  net_Retry :: "backoff \<Rightarrow> (('w, 'c) st, string) eff \<Rightarrow> (('w, 'c) st, string) eff"
  net_SerializeJwt :: "customClaims \<Rightarrow> 'w \<Rightarrow> (gerror + string) \<times> 'w"
  net_CacheGet :: "string \<Rightarrow> int \<Rightarrow> 'c \<Rightarrow> bool option \<times> 'c"
  net_CacheSet :: "string \<Rightarrow> bool \<Rightarrow> duration option \<Rightarrow> int \<Rightarrow> 'c \<Rightarrow> 'c"
  net_URL :: urlLib

text \<open>\<open>encoding/json\<close> at the types the client sends and receives. A JSON null leaves a nil pointer.\<close>

record codec =
  json_MarshalClient :: "clientRegistration \<Rightarrow> gerror + string"
  json_MarshalScope :: "scopeRegistration \<Rightarrow> gerror + string"
  json_MarshalJwks :: "jsonWebKey list \<Rightarrow> gerror + string"
  json_Client :: "string \<Rightarrow> gerror + clientRegistration"
  json_Clients :: "string \<Rightarrow> gerror + clientRegistration list"
  json_Jwks :: "string \<Rightarrow> gerror + jwksResponse"
  json_Access :: "string \<Rightarrow> gerror + accessScope list"
  json_Scopes :: "string \<Rightarrow> gerror + scopeRegistration list"
  json_Scope :: "string \<Rightarrow> gerror + scopeRegistration"
  json_ScopePtr :: "string \<Rightarrow> gerror + scopeRegistration option"
  json_ACL :: "string \<Rightarrow> gerror + consumerRegistration list"
  json_Consumer :: "string \<Rightarrow> gerror + consumerRegistration"
  json_Token :: "string \<Rightarrow> gerror + string"

datatype resourceKind = KindIDPorten | KindMaskinporten

text \<open>
  Kubernetes: reads, writes (each gives the error, if any, and the object as the client leaves it),
  secrets, finalizers and conditions, and what liberator adds to the custom resources. The closure that
  \<open>CreateOrUpdate\<close> calls changes the secret it is given and may report an error;
  \<open>SetControllerReference\<close> gives the owner that it enters in the secret.
\<close>

record 'w kubeLib =
  kube_Get :: "resourceKind \<Rightarrow> namespacedName \<Rightarrow> 'w \<Rightarrow> (gerror + clientInstance) \<times> 'w"
  kube_Update :: "clientInstance \<Rightarrow> 'w \<Rightarrow> (gerror option \<times> clientInstance) \<times> 'w"
  kube_StatusUpdate :: "clientInstance \<Rightarrow> 'w \<Rightarrow> (gerror option \<times> clientInstance) \<times> 'w"
  kube_CreateOrUpdate :: "secret \<Rightarrow> (secret \<Rightarrow> gerror option \<times> secret) \<Rightarrow> 'w \<Rightarrow> (gerror + string) \<times> 'w"
  kube_Delete :: "secret \<Rightarrow> 'w \<Rightarrow> gerror option \<times> 'w"
  kube_ListSecrets :: "namespacedName \<Rightarrow> (string \<times> string) list \<Rightarrow> 'w \<Rightarrow> (gerror + secretLists) \<times> 'w"
  kube_SetControllerReference :: "clientInstance \<Rightarrow> secret \<Rightarrow> gerror + string \<times> string"
  kube_IgnoreNotFound :: "gerror \<Rightarrow> gerror option"
  kube_ContainsFinalizer :: "clientInstance \<Rightarrow> string \<Rightarrow> bool"
  kube_AddFinalizer :: "string \<Rightarrow> clientInstance \<Rightarrow> clientInstance"
  kube_RemoveFinalizer :: "string \<Rightarrow> clientInstance \<Rightarrow> clientInstance"
  kube_IsConditionTrue :: "condition list \<Rightarrow> string \<Rightarrow> bool"
  kube_SetCondition :: "condition \<Rightarrow> digdiratorStatus \<Rightarrow> 'w \<Rightarrow> digdiratorStatus \<times> 'w"
  kube_SetStateSynchronized :: "digdiratorStatus \<Rightarrow> 'w \<Rightarrow> digdiratorStatus \<times> 'w"
  kube_Hash :: "clientInstance \<Rightarrow> gerror + string"
  kube_ReconcileID :: "'w \<Rightarrow> string"
  kube_URN :: "objectMeta \<Rightarrow> string \<Rightarrow> string"

text \<open>The clock, random values, go-jose's keys, and the order in which Go walks a map.\<close>

record 'w sysLib =
  sys_Now :: "'w \<Rightarrow> int \<times> 'w"
  sys_UUID :: "'w \<Rightarrow> string \<times> 'w"
  sys_RSA :: "'w \<Rightarrow> (gerror + keyMaterial) \<times> 'w"
  sys_Public :: "jsonWebKey \<Rightarrow> jsonWebKey"
  sys_MarshalJwk :: "jsonWebKey \<Rightarrow> gerror + string"
  sys_UnmarshalJwk :: "string \<Rightarrow> gerror + jsonWebKey"
  sys_ValidateMetadata :: "metadata \<Rightarrow> string \<Rightarrow> gerror + unit"
  sys_RangeOrder :: "'w \<Rightarrow> (nat \<Rightarrow> rangeOrder) \<times> 'w"

record ('w, 'c) lib =
  net :: "('w, 'c) netLib"
  json :: codec
  kube :: "'w kubeLib"
  sys :: "'w sysLib"

section \<open>Steps\<close>

definition call :: "('w \<Rightarrow> 'a \<times> 'w) \<Rightarrow> (('w, 'c) st, 'a) eff" where
  "call f = (\<lambda>s. case f (world s) of (x, w) \<Rightarrow> (Inr x, s\<lparr>world := w\<rparr>))"

definition call_err :: "('w \<Rightarrow> (gerror + 'a) \<times> 'w) \<Rightarrow> (('w, 'c) st, 'a) eff" where
  "call_err f = (\<lambda>s. case f (world s) of (r, w) \<Rightarrow> (r, s\<lparr>world := w\<rparr>))"

definition emit :: "effect \<Rightarrow> (('w, 'c) st, unit) eff" where
  "emit e = modifyE (\<lambda>s. s\<lparr>trace := trace s @ [e]\<rparr>)"

definition the_inst :: "(('w, 'c) st, clientInstance) eff" where
  "the_inst = getE inst"

definition set_inst :: "clientInstance \<Rightarrow> (('w, 'c) st, unit) eff" where
  "set_inst i = modifyE (\<lambda>s. s\<lparr>inst := i\<rparr>)"

definition modify_status :: "(digdiratorStatus \<Rightarrow> digdiratorStatus) \<Rightarrow> (('w, 'c) st, unit) eff" where
  "modify_status f = modifyE (\<lambda>s. s\<lparr>inst := (inst s)\<lparr>inst_Status := f (inst_Status (inst s))\<rparr>\<rparr>)"

text \<open>\<open>c.HttpClient.Do(req)\<close>, logged with its outcome.\<close>

definition http_do :: "('w, 'c) lib \<Rightarrow> channel \<Rightarrow> httpRequest \<Rightarrow> (('w, 'c) st, httpResponse) eff" where
  "http_do l ch req = (\<lambda>s. case net_Do (net l) req (world s) of
     (r, w) \<Rightarrow> (r, s\<lparr>world := w, trace := trace s @ [Http ch req r]\<rparr>))"

text \<open>\<open>r.Client.Update\<close> and \<open>r.Client.Status().Update\<close>: the object is overwritten with the response.\<close>

definition write_result :: "gerror option \<Rightarrow> gerror + unit" where
  "write_result e = (case e of None \<Rightarrow> Inr () | Some e \<Rightarrow> Inl e)"

definition update_object :: "('w, 'c) lib \<Rightarrow> (('w, 'c) st, unit) eff" where
  "update_object l = (\<lambda>s. case kube_Update (kube l) (inst s) (world s) of
     ((e, i), w) \<Rightarrow> (write_result e, s\<lparr>world := w, trace := trace s @ [KubeUpdate (inst s) e], inst := i\<rparr>))"

definition update_status :: "('w, 'c) lib \<Rightarrow> (('w, 'c) st, unit) eff" where
  "update_status l = (\<lambda>s. case kube_StatusUpdate (kube l) (inst s) (world s) of
     ((e, i), w) \<Rightarrow> (write_result e, s\<lparr>world := w, trace := trace s @ [KubeStatusUpdate (inst s) e], inst := i\<rparr>))"

text \<open>\<open>tx.Instance.GetStatus().SetCondition(c)\<close>\<close>

definition set_condition :: "('w, 'c) lib \<Rightarrow> condition \<Rightarrow> (('w, 'c) st, unit) eff" where
  "set_condition l c =
     bindE the_inst (\<lambda>i.
     bindE (call (kube_SetCondition (kube l) c (inst_Status i))) (\<lambda>st.
     modify_status (\<lambda>_. st)))"

lemmas step_defs = call_def call_err_def emit_def the_inst_def set_inst_def modify_status_def
  http_do_def update_object_def update_status_def

lemma bindE_the_inst: "bindE the_inst f s = f (inst s) s"
  by (simp add: the_inst_def bindE_def)

lemma write_result_simps [simp]: "write_result None = Inr ()" "write_result (Some e) = Inl e"
  by (simp_all add: write_result_def)

lemma write_result_eq [simp]:
  "write_result e = Inr u \<longleftrightarrow> e = None" "write_result e = Inl x \<longleftrightarrow> e = Some x"
  by (auto simp: write_result_def split: option.splits)

section \<open>Effects of a step\<close>

text \<open>What a step appends to the log of calls, every effect of it satisfying a predicate.\<close>

definition emits :: "(effect \<Rightarrow> bool) \<Rightarrow> ('w, 'c) st \<Rightarrow> ('w, 'c) st \<Rightarrow> bool" where
  "emits P s s' \<longleftrightarrow> (\<exists>t. trace s' = trace s @ t \<and> list_all P t)"

interpretation emits: state_preorder "emits P" for P
proof unfold_locales
  show "emits P s s" for s :: "('a, 'b) st" by (simp add: emits_def)
  show "emits P s u" if "emits P s t" and "emits P t u" for s t u :: "('a, 'b) st"
    using that by (auto simp: emits_def)
qed

lemma emits_mono: "keeps (emits P) m \<Longrightarrow> (\<And>e. P e \<Longrightarrow> Q e) \<Longrightarrow> keeps (emits Q) m"
  by (fastforce simp: keeps_def emits_def elim: list.pred_mono_strong)

lemma emits_same_trace: "trace s' = trace s \<Longrightarrow> emits P s s'"
  by (simp add: emits_def)

lemma emits_call [frame_intros]: "keeps (emits P) (call f)"
  by (auto simp: keeps_def call_def emits_def split: prod.split)

lemma emits_call_err [frame_intros]: "keeps (emits P) (call_err f)"
  by (auto simp: keeps_def call_err_def emits_def split: prod.split)

lemma emits_emit: "P e \<Longrightarrow> keeps (emits P) (emit e)"
  by (simp add: keeps_def emit_def emits_def)

lemma emits_the_inst [frame_intros]: "keeps (emits P) the_inst"
  by (simp add: the_inst_def)

lemma emits_set_inst [frame_intros]: "keeps (emits P) (set_inst i)"
  by (simp add: keeps_def set_inst_def emits_def)

lemma emits_modify_status [frame_intros]: "keeps (emits P) (modify_status f)"
  by (simp add: keeps_def modify_status_def emits_def)

lemma emits_set_condition [frame_intros]: "keeps (emits P) (set_condition l c)"
  unfolding set_condition_def by (intro emits.keeps_intros frame_intros)

lemma emits_http_do: "(\<And>r. P (Http ch req r)) \<Longrightarrow> keeps (emits P) (http_do l ch req)"
  by (auto simp: keeps_def http_do_def emits_def split: prod.split)

lemma emits_update_object: "(\<And>i e. P (KubeUpdate i e)) \<Longrightarrow> keeps (emits P) (update_object l)"
  by (auto simp: keeps_def update_object_def emits_def split: prod.split)

lemma emits_update_status: "(\<And>i e. P (KubeStatusUpdate i e)) \<Longrightarrow> keeps (emits P) (update_status l)"
  by (auto simp: keeps_def update_status_def emits_def split: prod.split)

text \<open>
  A relation between states that a call to the outside cannot break: it does not depend on the world
  or the log. The steps of the program that make calls keep every such relation.
\<close>

locale process_relation = state_preorder R
  for R :: "('w, 'c) st \<Rightarrow> ('w, 'c) st \<Rightarrow> bool" +
  assumes outside: "R s (s\<lparr>world := w, trace := t\<rparr>)"
begin

lemma waits: "R s (s\<lparr>world := w\<rparr>)"
  using outside [where s = s and w = w and t = "trace s"] by simp

lemma logs: "R s (s\<lparr>trace := t\<rparr>)"
  using outside [where s = s and w = "world s" and t = t] by simp

lemma keeps_steps:
  "keeps R (call f)" "keeps R (call_err g)" "keeps R (emit e)" "keeps R the_inst" "keeps R (http_do l ch req)"
  by (auto simp: keeps_def step_defs refl waits logs outside split: prod.split)

end

text \<open>
  The parts of the object that only a read or a write through the API replaces: a step of the
  program itself changes nothing but the status.
\<close>

definition same_object :: "('w, 'c) st \<Rightarrow> ('w, 'c) st \<Rightarrow> bool" where
  "same_object s s' \<longleftrightarrow> inst_Meta (inst s') = inst_Meta (inst s) \<and> inst_Spec (inst s') = inst_Spec (inst s)"

interpretation same_object: process_relation same_object
  by unfold_locales (auto simp: same_object_def)

text \<open>Same, and the client ID in the status stays too.\<close>

definition same_client :: "('w, 'c) st \<Rightarrow> ('w, 'c) st \<Rightarrow> bool" where
  "same_client s s' \<longleftrightarrow> same_object s s' \<and> st_ClientID (inst_Status (inst s')) = st_ClientID (inst_Status (inst s))"

interpretation same_client: process_relation same_client
  by unfold_locales (auto simp: same_client_def same_object_def)

text \<open>The whole object stays as it is; the scope cache stays as it is.\<close>

definition same_inst :: "('w, 'c) st \<Rightarrow> ('w, 'c) st \<Rightarrow> bool" where
  "same_inst s s' \<longleftrightarrow> inst s' = inst s"

interpretation same_inst: process_relation same_inst
  by unfold_locales (auto simp: same_inst_def)

definition same_cache :: "('w, 'c) st \<Rightarrow> ('w, 'c) st \<Rightarrow> bool" where
  "same_cache s s' \<longleftrightarrow> scopeCache s' = scopeCache s"

interpretation same_cache: process_relation same_cache
  by unfold_locales (auto simp: same_cache_def)

lemma same_client_object: "keeps same_client m \<Longrightarrow> keeps same_object m"
  by (simp add: keeps_def same_client_def)

lemma same_inst_client: "keeps same_inst m \<Longrightarrow> keeps same_client m"
  by (simp add: keeps_def same_inst_def same_client_def same_object_def)

lemma same_inst_object: "keeps same_inst m \<Longrightarrow> keeps same_object m"
  by (simp add: keeps_def same_inst_def same_object_def)

lemma same_client_modify_status:
  "(\<And>st. st_ClientID (f st) = st_ClientID st) \<Longrightarrow> keeps same_client (modify_status f)"
  by (simp add: keeps_def modify_status_def same_client_def same_object_def)

lemma same_object_modify_status [frame_intros]: "keeps same_object (modify_status f)"
  by (simp add: keeps_def modify_status_def same_object_def)

lemma same_object_set_condition [frame_intros]: "keeps same_object (set_condition l c)"
  unfolding set_condition_def
  by (intro same_object.keeps_intros same_object.keeps_steps same_object_modify_status)
text \<open>The log grows and the object keeps its metadata and specification.\<close>

definition step_of :: "('w, 'c) st \<Rightarrow> ('w, 'c) st \<Rightarrow> bool" where
  "step_of s s' \<longleftrightarrow> emits (\<lambda>_. True) s s' \<and> same_object s s'"

interpretation step_of: state_preorder step_of
proof unfold_locales
  show "step_of s s" for s :: "('a, 'b) st" by (simp add: step_of_def emits.refl same_object.refl)
  show "step_of s u" if "step_of s t" and "step_of t u" for s t u :: "('a, 'b) st"
    using that unfolding step_of_def by (blast intro: emits.trans same_object.trans)
qed

lemma step_ofI: "keeps (emits P) m \<Longrightarrow> keeps same_object m \<Longrightarrow> keeps step_of m"
  by (auto simp: keeps_def step_of_def emits_def list_all_iff)

lemma step_of_effects: "step_of s s' \<Longrightarrow> set (trace s) \<subseteq> set (trace s')"
  by (auto simp: step_of_def emits_def)

section \<open>The retry loop\<close>

text \<open>
  The documented behaviour of \<open>retry.Do\<close>, with the number of attempts it made: it returns as soon as
  an attempt succeeds or fails with an error that is not marked retryable; after a retryable one it
  either gives up and returns the error inside the mark, or waits and tries again; it stops without
  an attempt when its context is cancelled. Waiting changes nothing but the outside world.
\<close>

inductive retry_run :: "(('w, 'c) st, 'a) eff \<Rightarrow> nat \<Rightarrow> ('w, 'c) st \<Rightarrow> (gerror + 'a) \<times> ('w, 'c) st \<Rightarrow> bool" for f where
  cancelled: "retry_run f 0 s (Inl (Err c), s)"
| success: "f s = (Inr x, s') \<Longrightarrow> retry_run f (Suc 0) s (Inr x, s')"
| final: "f s = (Inl e, s') \<Longrightarrow> as_retryable e = None \<Longrightarrow> retry_run f (Suc 0) s (Inl e, s')"
| exhausted: "f s = (Inl e, s') \<Longrightarrow> as_retryable e = Some e0 \<Longrightarrow> retry_run f (Suc 0) s (Inl e0, s')"
| again: "f s = (Inl e, s') \<Longrightarrow> as_retryable e = Some e0 \<Longrightarrow>
    retry_run f n (s'\<lparr>world := w\<rparr>) r \<Longrightarrow> retry_run f (Suc n) s r"

text \<open>
  A backoff with a maximal number of retries allows that many further attempts after the first.
\<close>

definition retry_contract :: "('w, 'c) netLib \<Rightarrow> bool" where
  "retry_contract n \<longleftrightarrow> (\<forall>bo f s. \<exists>k. retry_run f k s (net_Retry n bo f s) \<and>
     (case bo_MaxRetries bo of None \<Rightarrow> True | Some m \<Rightarrow> k \<le> Suc (unat m)))"

text \<open>A relation that waiting respects and every attempt keeps is kept by the loop.\<close>

lemma retry_run_keeps:
  assumes "retry_run f n s r" and "keeps R f" and "state_preorder R"
    and wait: "\<And>s w. R s (s\<lparr>world := w\<rparr>)"
  shows "R s (snd r)"
  using assms(1)
proof induction
  case (again s e s' e0 n w r)
  have "R s s'" by (rule keepsD [OF assms(2) again(1)])
  with wait [of s' w] again(4) show ?case by (blast intro: state_preorder.trans [OF assms(3)])
qed (auto intro: keepsD [OF assms(2)] state_preorder.refl [OF assms(3)])

lemma retry_keeps:
  assumes "retry_contract n" and "keeps R f" and "state_preorder R" and "\<And>s w. R s (s\<lparr>world := w\<rparr>)"
  shows "keeps R (net_Retry n bo f)"
proof (rule keepsI)
  fix s
  obtain k where "retry_run f k s (net_Retry n bo f s)"
    using assms(1) unfolding retry_contract_def by blast
  then show "R s (snd (net_Retry n bo f s))" using assms(2-4) by (rule retry_run_keeps)
qed

lemma retry_emits: "retry_contract n \<Longrightarrow> keeps (emits P) f \<Longrightarrow> keeps (emits P) (net_Retry n bo f)"
  by (rule retry_keeps) (auto simp: emits_def intro: emits.state_preorder_axioms)

context process_relation
begin

lemma keeps_retry: "retry_contract n \<Longrightarrow> keeps R f \<Longrightarrow> keeps R (net_Retry n bo f)"
  by (rule retry_keeps [OF _ _ state_preorder_axioms waits])

end

text \<open>A loop that gives up when the retries run out meets the contract.\<close>

fun retry_loop :: "nat \<Rightarrow> (('w, 'c) st, 'a) eff \<Rightarrow> (('w, 'c) st, 'a) eff" where
  "retry_loop 0 f s = (case f s of
     (Inl e, s') \<Rightarrow> (Inl (case as_retryable e of Some e0 \<Rightarrow> e0 | None \<Rightarrow> e), s') | r \<Rightarrow> r)"
| "retry_loop (Suc n) f s = (case f s of
     (Inl e, s') \<Rightarrow> (case as_retryable e of Some e0 \<Rightarrow> retry_loop n f s' | None \<Rightarrow> (Inl e, s')) | r \<Rightarrow> r)"

lemma retry_loop_run: "\<exists>k \<le> Suc n. retry_run f k s (retry_loop n f s)"
proof (induction n f s rule: retry_loop.induct)
  case (1 f s)
  show ?case
    by (rule exI [of _ "Suc 0"])
      (auto split: prod.split sum.split option.split intro: retry_run.intros)
next
  case (2 n f s)
  obtain r s' where f: "f s = (r, s')" by (cases "f s")
  show ?case
  proof (cases r)
    case (Inr x)
    with f show ?thesis by (intro exI [of _ "Suc 0"]) (auto intro: retry_run.success)
  next
    case (Inl e)
    show ?thesis
    proof (cases "as_retryable e")
      case None
      with f Inl show ?thesis by (intro exI [of _ "Suc 0"]) (auto intro: retry_run.final)
    next
      case (Some e0)
      with 2 [OF f [symmetric] Inl] obtain k where k: "k \<le> Suc n" "retry_run f k s' (retry_loop n f s')"
        by blast
      then have "retry_run f (Suc k) s (retry_loop n f s')"
        by (intro retry_run.again [where w = "world s'" and s' = s' and e = e]) (use f Inl Some in simp_all)
      with f Inl Some k(1) show ?thesis by auto
    qed
  qed
qed

lemma retry_loop_contract:
  assumes "net_Retry n = (\<lambda>bo. retry_loop (case bo_MaxRetries bo of None \<Rightarrow> 0 | Some m \<Rightarrow> unat m))"
  shows "retry_contract n"
  unfolding retry_contract_def assms
proof (intro allI)
  fix bo :: backoff and f :: "(('a, 'b) st, string) eff" and s
  let ?m = "case bo_MaxRetries bo of None \<Rightarrow> 0 | Some m \<Rightarrow> unat m"
  obtain k where "k \<le> Suc ?m" and "retry_run f k s (retry_loop ?m f s)"
    using retry_loop_run by blast
  then show "\<exists>k. retry_run f k s (retry_loop ?m f s) \<and>
      (case bo_MaxRetries bo of None \<Rightarrow> True | Some m \<Rightarrow> k \<le> Suc (unat m))"
    by (intro exI [of _ k]) (auto split: option.split)
qed

end
