(* ===== verification/Demo.thy ===== *)
theory Demo
  imports Runtime
begin

text \<open>
  Concrete libraries for concrete runs: an HTTP server that answers by a given function, decoders
  with fixed results, an API server that accepts every write, a clock that ticks with every call, a
  cache without expiry, and the retry loop of \<open>Runtime\<close>. They show that the contracts can be met.
\<close>

definition demo_url :: urlLib where
  "demo_url = \<lparr>url_Parse = (\<lambda>s. Inr \<lparr>u_Rest = s, u_Path = ''''\<rparr>),
     url_JoinPath = (\<lambda>u ps. u\<lparr>u_Rest := join ''/'' (u_Rest u # ps)\<rparr>), url_String = u_Rest\<rparr>"

definition ok_response :: httpResponse where
  "ok_response = \<lparr>hr_StatusCode = 200, hr_Status = ''200 OK'', hr_Body = Inr ''body''\<rparr>"

definition bad_response :: httpResponse where
  "bad_response = \<lparr>hr_StatusCode = 400, hr_Status = ''400 Bad Request'', hr_Body = Inr ''unknown orgno''\<rparr>"

definition demo_net :: "(httpRequest \<Rightarrow> httpResponse) \<Rightarrow> (nat, (string \<times> bool) list) netLib" where
  "demo_net respond =
     \<lparr>net_NewRequest = (\<lambda>m u. Inr ()),
      net_Do = (\<lambda>req w. (Inr (respond req), Suc w)),
      net_Retry = (\<lambda>bo. retry_loop (case bo_MaxRetries bo of None \<Rightarrow> 0 | Some m \<Rightarrow> unat m)),
      net_SerializeJwt = (\<lambda>cl w. (Inr ''jwt'', Suc w)),
      net_CacheGet = (\<lambda>k now c. (map_of c k, c)),
      net_CacheSet = (\<lambda>k v x now c. (k, v) # c),
      net_URL = demo_url\<rparr>"

definition demo_registration :: clientRegistration where
  "demo_registration =
     \<lparr>cr_AccessTokenLifetime = 0, cr_ApplicationType = '''', cr_AuthorizationLifeTime = 0, cr_ClientID = ''id1'',
      cr_ClientName = '''', cr_ClientOrgno = '''', cr_ClientURI = '''', cr_Description = ''c1:ns:app'',
      cr_FrontchannelLogoutSessionRequired = False, cr_FrontchannelLogoutURI = '''', cr_GrantTypes = None,
      cr_IntegrationType = ''idporten'', cr_PostLogoutRedirectURIs = None, cr_RedirectURIs = None,
      cr_RefreshTokenLifetime = 0, cr_RefreshTokenUsage = '''', cr_Scopes = None, cr_SSODisabled = False,
      cr_TokenEndpointAuthMethod = ''''\<rparr>"

definition demo_scope :: scopeRegistration where
  "demo_scope = zeroScopeRegistration\<lparr>sr_Name := ''nav:p:s'', sr_Prefix := ''nav'', sr_Subscope := ''p:s'', sr_Active := True\<rparr>"

definition demo_codec :: "clientRegistration list \<Rightarrow> codec" where
  "demo_codec regs =
     \<lparr>json_MarshalClient = (\<lambda>_. Inr ''client''), json_MarshalScope = (\<lambda>_. Inr ''scope''),
      json_MarshalJwks = (\<lambda>_. Inr ''jwks''),
      json_Client = (\<lambda>_. Inr demo_registration), json_Clients = (\<lambda>_. Inr regs),
      json_Jwks = (\<lambda>_. Inr \<lparr>jr_Created = '''', jr_LastUpdated = '''', jr_Keys = [\<lparr>dk_KeyID = ''k1'', dk_Expiry = 0\<rparr>]\<rparr>),
      json_Access = (\<lambda>_. Inr [\<lparr>as_ConsumerOrgNo = ''1'', as_OwnerOrgNo = ''2'', as_Scope = ''a'', as_State = ''APPROVED''\<rparr>]),
      json_Scopes = (\<lambda>_. Inr [demo_scope]), json_Scope = (\<lambda>_. Inr demo_scope),
      json_ScopePtr = (\<lambda>_. Inr (Some demo_scope)), json_ACL = (\<lambda>_. Inr []),
      json_Consumer = (\<lambda>_. Inr \<lparr>co_ConsumerOrgno = ''1'', co_Created = 0, co_LastUpdated = 0, co_OwnerOrgno = ''2'',
                               co_Scope = ''nav:p:s'', co_State = ScopeStateApproved\<rparr>),
      json_Token = Inr\<rparr>"

definition demo_status :: digdiratorStatus where
  "demo_status =
     \<lparr>st_ClientID = '''', st_KeyIDs = [], st_Conditions = None, st_ObservedGeneration = None,
      st_SynchronizationHash = '''', st_SynchronizationSecretName = '''', st_SynchronizationState = '''',
      st_SynchronizationTime = None, st_CorrelationID = ''''\<rparr>"

definition demo_meta :: objectMeta where
  "demo_meta = \<lparr>om_Name = ''app'', om_Namespace = ''ns'', om_Generation = 1, om_Annotations = [],
     om_Finalizers = [], om_DeletionTimestamp = None\<rparr>"

definition demo_idporten :: clientInstance where
  "demo_idporten = \<lparr>inst_Meta = demo_meta, inst_Spec = IDPortenClient
     \<lparr>is_ClientName = '''', is_ClientURI = '''', is_RedirectURI = ''https://a'', is_RedirectURIs = [],
      is_SecretName = ''sec'', is_FrontchannelLogoutURI = '''', is_PostLogoutRedirectURIs = [],
      is_SessionLifetime = None, is_AccessTokenLifetime = None, is_IntegrationType = '''', is_Scopes = [],
      is_SSODisabled = None\<rparr>, inst_Status = demo_status\<rparr>"

definition demo_exposed :: exposedScope where
  "demo_exposed =
     \<lparr>es_Enabled = True, es_Name = ''s'', es_Product = ''p'', es_Separator = None, es_AtMaxAge = None,
      es_AllowedIntegrations = [], es_Consumers = [\<lparr>ec_Name = ''org'', ec_Orgno = ''111''\<rparr>],
      es_DelegationSource = None, es_AccessibleForAll = None, es_Visibility = None\<rparr>"

definition demo_maskinporten :: clientInstance where
  "demo_maskinporten = \<lparr>inst_Meta = demo_meta, inst_Spec = MaskinportenClient
     \<lparr>ms_ClientName = '''', ms_SecretName = ''sec'', ms_ConsumedScopes = [''a'', ''b''],
      ms_ExposedScopes = [demo_exposed]\<rparr>, inst_Status = demo_status\<rparr>"

text \<open>Conditions as \<open>meta.SetStatusCondition\<close> keeps them: one per type.\<close>

definition demo_set_condition :: "condition \<Rightarrow> digdiratorStatus \<Rightarrow> digdiratorStatus" where
  "demo_set_condition c st =
     st\<lparr>st_Conditions := Some (filter (\<lambda>x. cond_Type x \<noteq> cond_Type c)
          (case st_Conditions st of None \<Rightarrow> [] | Some cs \<Rightarrow> cs) @ [c])\<rparr>"

definition demo_kube :: "clientInstance \<Rightarrow> nat kubeLib" where
  "demo_kube i0 =
     \<lparr>kube_Get = (\<lambda>k n w. (Inr i0, w)),
      kube_Update = (\<lambda>i w. ((None, i), Suc w)),
      kube_StatusUpdate = (\<lambda>i w. ((None, i), Suc w)),
      kube_CreateOrUpdate = (\<lambda>target f w. (case fst (f target) of Some e \<Rightarrow> Inl e | None \<Rightarrow> Inr ''created'', Suc w)),
      kube_Delete = (\<lambda>s w. (None, Suc w)),
      kube_ListSecrets = (\<lambda>n ls w. (Inr \<lparr>sl_Used = [], sl_Unused = []\<rparr>, w)),
      kube_SetControllerReference = (\<lambda>i s. Inr (om_Namespace (inst_Meta i), om_Name (inst_Meta i))),
      kube_IgnoreNotFound = (\<lambda>e. case e of ApiNotFound _ \<Rightarrow> None | _ \<Rightarrow> Some e),
      kube_ContainsFinalizer = (\<lambda>i f. List.member (om_Finalizers (inst_Meta i)) f),
      kube_AddFinalizer = (\<lambda>f i. i\<lparr>inst_Meta := (inst_Meta i)\<lparr>om_Finalizers := om_Finalizers (inst_Meta i) @ [f]\<rparr>\<rparr>),
      kube_RemoveFinalizer = (\<lambda>f i. i\<lparr>inst_Meta := (inst_Meta i)\<lparr>om_Finalizers := removeAll f (om_Finalizers (inst_Meta i))\<rparr>\<rparr>),
      kube_IsConditionTrue = (\<lambda>cs t. list_ex (\<lambda>c. cond_Type c = t \<and> cond_Status c = ''True'') cs),
      kube_SetCondition = (\<lambda>c st w. (demo_set_condition c st, w)),
      kube_SetStateSynchronized = (\<lambda>st w. (st\<lparr>st_SynchronizationState := ''Synchronized'',
         st_SynchronizationTime := Some (int w)\<rparr>, w)),
      kube_Hash = (\<lambda>i. Inr ''hash''),
      kube_ReconcileID = (\<lambda>w. ''rid''),
      kube_URN = (\<lambda>m cn. cn @ '':'' @ om_Namespace m @ '':'' @ om_Name m)\<rparr>"

definition demo_sys :: "nat sysLib" where
  "demo_sys =
     \<lparr>sys_Now = (\<lambda>w. (int w, Suc w)), sys_UUID = (\<lambda>w. (''k1'', Suc w)), sys_RSA = (\<lambda>w. (Inr (RSAPrivate 7), Suc w)),
      sys_Public = sample_public, sys_MarshalJwk = (\<lambda>k. Inr ''jwk''), sys_UnmarshalJwk = sample_unmarshal,
      sys_ValidateMetadata = (\<lambda>m u. Inr ()), sys_RangeOrder = (\<lambda>w. (\<lambda>_ cs. cs, w))\<rparr>"

definition demo_lib ::
  "(httpRequest \<Rightarrow> httpResponse) \<Rightarrow> clientRegistration list \<Rightarrow> clientInstance \<Rightarrow> (nat, (string \<times> bool) list) lib" where
  "demo_lib respond regs i =
     \<lparr>net = demo_net respond, json = demo_codec regs, kube = demo_kube i, sys = demo_sys\<rparr>"

definition demo_metadata :: metadata where
  "demo_metadata = \<lparr>md_Issuer = ''iss'', md_JwksURI = ''jwks'', md_TokenEndpoint = ''https://token''\<rparr>"

definition demo_config :: config where
  "demo_config =
     \<lparr>cfg_MetricsAddr = '''', cfg_ClusterName = ''c1'',
      cfg_Admin = \<lparr>ad_BaseURL = ''https://dd'', ad_ClientID = ''me'', ad_CertChain = '''', ad_KMSKeyPath = '''', ad_Scopes = ''s''\<rparr>,
      cfg_IDPorten = \<lparr>idp_WellKnownURL = ''wk'', idp_Metadata = demo_metadata\<rparr>,
      cfg_Maskinporten = \<lparr>mp_DefaultClientScope = ''nav:d'', mp_DefaultScopePrefix = ''nav'', mp_WellKnownURL = ''wk'',
        mp_Metadata = demo_metadata, mp_DelegationSources = []\<rparr>,
      cfg_Common = \<lparr>dc_AccessTokenLifetime = 3600, dc_ClientName = ''N'', dc_ClientURI = ''https://n'', dc_SessionLifetime = 7200\<rparr>,
      cfg_Features = \<lparr>ft_IDPorten = True, ft_Maskinporten = True\<rparr>,
      cfg_LeaderElection = \<lparr>le_Enabled = False, le_Namespace = ''''\<rparr>, cfg_LogLevel = ''info''\<rparr>"

definition demo_state :: "clientInstance \<Rightarrow> (nat, (string \<times> bool) list) st" where
  "demo_state i = \<lparr>world = 0, trace = [], counters = (\<lambda>_ _. None), gauges = (\<lambda>_. 0), inst = i, scopeCache = [], nsItems = []\<rparr>"

lemmas demo_defs = demo_lib_def demo_net_def demo_codec_def demo_kube_def demo_sys_def

lemma demo_lib_simps [simp]:
  "net (demo_lib r regs i) = demo_net r" "json (demo_lib r regs i) = demo_codec regs"
  "kube (demo_lib r regs i) = demo_kube i" "sys (demo_lib r regs i) = demo_sys"
  by (simp_all add: demo_lib_def)

lemma demo_retry_contract [simp]: "retry_contract (demo_net r)"
  by (rule retry_loop_contract) (simp add: demo_net_def)

end
