(* ===== verification/Retry.thy ===== *)
theory Retry
  imports Runtime
begin

text \<open>
  \<open>pkg/retry\<close>: the backoff that the program hands to the retry library, and the loop that runs with
  it.
\<close>

section \<open>Backoff\<close>

definition RetryableError :: "gerror \<Rightarrow> gerror" where
  "RetryableError e = Retryable e"

definition Fibonacci :: "duration \<Rightarrow> backoff" where
  "Fibonacci base0 =
     (let base = (if base0 \<le> 0 then 1 * Second else base0)
      in \<lparr>bo_Base = base, bo_MaxRetries = None, bo_MaxDuration = None\<rparr>)"

text \<open>\<open>uint64(attempts)\<close> wraps a negative number to a huge one.\<close>

definition WithMaxAttempts :: "int \<Rightarrow> backoff \<Rightarrow> backoff" where
  "WithMaxAttempts attempts b = b\<lparr>bo_MaxRetries := Some (word_of_int attempts)\<rparr>"

definition WithMaxDuration :: "duration \<Rightarrow> backoff \<Rightarrow> backoff" where
  "WithMaxDuration timeout b = b\<lparr>bo_MaxDuration := Some timeout\<rparr>"

definition Backoff_Do :: "('w, 'c) lib \<Rightarrow> backoff \<Rightarrow> (('w, 'c) st, string) eff \<Rightarrow> (('w, 'c) st, string) eff" where
  "Backoff_Do l b f = net_Retry (net l) b f"

end
