(* ===== verification/Metrics.thy ===== *)
theory Metrics
  imports Demo Retry
begin

text \<open>
  \<open>pkg/metrics\<close>: the exported counters and gauges, the operations that increment them, and the
  refresh of the gauges. A counter vector has one series per namespace; the first use of a label
  value creates the series.
\<close>

section \<open>Declared and registered metrics\<close>

datatype metric = Gauge gauge | CounterVec counter

fun metric_name :: "metric \<Rightarrow> string" where
  "metric_name (Gauge IDPortenClientsTotal) = ''idporten_client_total''"
| "metric_name (Gauge IDPortenSecretsTotal) = ''idporten_client_secrets_total''"
| "metric_name (CounterVec IDPortenClientsCreatedCount) = ''idporten_client_created_count''"
| "metric_name (CounterVec IDPortenClientsUpdatedCount) = ''idporten_client_updated_count''"
| "metric_name (CounterVec IDPortenClientsRotatedCount) = ''idporten_client_rotated_count''"
| "metric_name (CounterVec IDPortenClientsProcessedCount) = ''idporten_client_processed_count''"
| "metric_name (CounterVec IDPortenClientsFailedProcessingCount) = ''idporten_client_failed_processing_count''"
| "metric_name (CounterVec IDPortenClientsFailedInvalidConfigCount) = ''idporten_client_failed_invalid_config_count''"
| "metric_name (CounterVec IDPortenClientsDeletedCount) = ''idporten_client_deleted_count''"
| "metric_name (Gauge MaskinportenClientsTotal) = ''maskinporten_client_total''"
| "metric_name (Gauge MaskinportenSecretsTotal) = ''maskinporten_client_secrets_total''"
| "metric_name (CounterVec MaskinportenClientsCreatedCount) = ''maskinporten_client_created_count''"
| "metric_name (CounterVec MaskinportenClientsUpdatedCount) = ''maskinporten_client_updated_count''"
| "metric_name (CounterVec MaskinportenClientsRotatedCount) = ''maskinporten_client_rotated_count''"
| "metric_name (CounterVec MaskinportenClientsProcessedCount) = ''maskinporten_client_processed_count''"
| "metric_name (CounterVec MaskinportenClientsFailedProcessingCount) = ''maskinporten_client_failed_processing_count''"
| "metric_name (CounterVec MaskinportenClientsFailedInvalidConfigCount) =
     ''maskinporten_client_failed_invalid_config_count''"
| "metric_name (CounterVec MaskinportenClientsDeletedCount) = ''maskinporten_client_deleted_count''"
| "metric_name (Gauge MaskinportenExposedScopesTotal) = ''maskinporten_exposed_scope_total''"
| "metric_name (Gauge MaskinportenExternalScopesConsumedTotal) = ''maskinporten_external_scopes_consumed_total''"
| "metric_name (Gauge MaskinportenScopeConsumersTotal) = ''maskinporten_scope_consumers_total''"
| "metric_name (CounterVec MaskinportenScopesCreatedCount) = ''maskinporten_scope_created_count''"
| "metric_name (CounterVec MaskinportenScopesUpdatedCount) = ''maskinporten_scope_updated_count''"
| "metric_name (CounterVec MaskinportenScopesDeletedCount) = ''maskinporten_scope_deleted_count''"
| "metric_name (CounterVec MaskinportenScopesReactivatedCount) = ''maskinporten_scope_reactivated_count''"
| "metric_name (CounterVec MaskinportenScopesConsumersCreatedCount) = ''maskinporten_scope_consumer_created_count''"
| "metric_name (CounterVec MaskinportenScopesConsumersUpdatedCount) = ''maskinporten_scope_consumer_updated_count''"
| "metric_name (CounterVec MaskinportenScopesConsumersDeletedCount) = ''maskinporten_scope_consumer_deleted_count''"

definition AllMetrics :: "metric list" where
  "AllMetrics =
     [Gauge IDPortenClientsTotal,
      Gauge IDPortenSecretsTotal,
      CounterVec IDPortenClientsProcessedCount,
      CounterVec IDPortenClientsFailedProcessingCount,
      CounterVec IDPortenClientsFailedInvalidConfigCount,
      CounterVec IDPortenClientsCreatedCount,
      CounterVec IDPortenClientsUpdatedCount,
      CounterVec IDPortenClientsRotatedCount,
      CounterVec IDPortenClientsDeletedCount,
      Gauge MaskinportenClientsTotal,
      Gauge MaskinportenSecretsTotal,
      CounterVec MaskinportenClientsProcessedCount,
      CounterVec MaskinportenClientsFailedProcessingCount,
      CounterVec MaskinportenClientsCreatedCount,
      CounterVec MaskinportenClientsUpdatedCount,
      CounterVec MaskinportenClientsRotatedCount,
      CounterVec MaskinportenClientsDeletedCount,
      Gauge MaskinportenExposedScopesTotal,
      Gauge MaskinportenExternalScopesConsumedTotal,
      Gauge MaskinportenScopeConsumersTotal,
      CounterVec MaskinportenScopesCreatedCount,
      CounterVec MaskinportenScopesUpdatedCount,
      CounterVec MaskinportenScopesDeletedCount,
      CounterVec MaskinportenScopesReactivatedCount,
      CounterVec MaskinportenScopesConsumersCreatedCount,
      CounterVec MaskinportenScopesConsumersUpdatedCount,
      CounterVec MaskinportenScopesConsumersDeletedCount]"

definition AllCounters :: "counter list" where
  "AllCounters =
     [IDPortenClientsProcessedCount,
      IDPortenClientsFailedProcessingCount,
      IDPortenClientsCreatedCount,
      IDPortenClientsUpdatedCount,
      IDPortenClientsRotatedCount,
      IDPortenClientsDeletedCount,
      MaskinportenClientsProcessedCount,
      MaskinportenClientsFailedProcessingCount,
      MaskinportenClientsFailedInvalidConfigCount,
      MaskinportenClientsCreatedCount,
      MaskinportenClientsUpdatedCount,
      MaskinportenClientsRotatedCount,
      MaskinportenClientsDeletedCount,
      MaskinportenScopesCreatedCount,
      MaskinportenScopesUpdatedCount,
      MaskinportenScopesDeletedCount,
      MaskinportenScopesReactivatedCount,
      MaskinportenScopesConsumersCreatedCount,
      MaskinportenScopesConsumersUpdatedCount,
      MaskinportenScopesConsumersDeletedCount]"

section \<open>Counters\<close>

text \<open>\<open>metric.WithLabelValues(namespace).Add(n)\<close>\<close>

definition add_counter :: "nat \<Rightarrow> counter \<Rightarrow> string \<Rightarrow> (('w, 'c) st, unit) eff" where
  "add_counter n m namespace = modifyE (\<lambda>s. s\<lparr>counters := (\<lambda>m' ns'.
     if m' = m \<and> ns' = namespace
     then Some ((case counters s m namespace of Some k \<Rightarrow> k | None \<Rightarrow> 0) + n)
     else counters s m' ns')\<rparr>)"

definition incWithNamespaceLabel :: "counter \<Rightarrow> string \<Rightarrow> (('w, 'c) st, unit) eff" where
  "incWithNamespaceLabel m namespace = add_counter 1 m namespace"

definition inc_by_kind :: "counter \<Rightarrow> counter \<Rightarrow> clientInstance \<Rightarrow> (('w, 'c) st, unit) eff" where
  "inc_by_kind idporten maskinporten i = (case inst_Spec i of
     IDPortenClient _ \<Rightarrow> incWithNamespaceLabel idporten (om_Namespace (inst_Meta i))
   | MaskinportenClient _ \<Rightarrow> incWithNamespaceLabel maskinporten (om_Namespace (inst_Meta i)))"

definition inc_maskinporten :: "counter \<Rightarrow> clientInstance \<Rightarrow> (('w, 'c) st, unit) eff" where
  "inc_maskinporten m i = (case inst_Spec i of
     IDPortenClient _ \<Rightarrow> returnE ()
   | MaskinportenClient _ \<Rightarrow> incWithNamespaceLabel m (om_Namespace (inst_Meta i)))"

definition IncClientsProcessed :: "clientInstance \<Rightarrow> (('w, 'c) st, unit) eff" where
  "IncClientsProcessed = inc_by_kind IDPortenClientsProcessedCount MaskinportenClientsProcessedCount"

definition IncClientsFailedProcessing :: "clientInstance \<Rightarrow> (('w, 'c) st, unit) eff" where
  "IncClientsFailedProcessing =
     inc_by_kind IDPortenClientsFailedProcessingCount MaskinportenClientsFailedProcessingCount"

definition IncClientsFailedInvalidConfig :: "clientInstance \<Rightarrow> (('w, 'c) st, unit) eff" where
  "IncClientsFailedInvalidConfig =
     inc_by_kind IDPortenClientsFailedInvalidConfigCount MaskinportenClientsFailedInvalidConfigCount"

definition IncClientsCreated :: "clientInstance \<Rightarrow> (('w, 'c) st, unit) eff" where
  "IncClientsCreated = inc_by_kind IDPortenClientsCreatedCount MaskinportenClientsCreatedCount"

definition IncClientsUpdated :: "clientInstance \<Rightarrow> (('w, 'c) st, unit) eff" where
  "IncClientsUpdated = inc_by_kind IDPortenClientsUpdatedCount MaskinportenClientsUpdatedCount"

definition IncClientsRotated :: "clientInstance \<Rightarrow> (('w, 'c) st, unit) eff" where
  "IncClientsRotated = inc_by_kind IDPortenClientsRotatedCount MaskinportenClientsRotatedCount"

definition IncClientsDeleted :: "clientInstance \<Rightarrow> (('w, 'c) st, unit) eff" where
  "IncClientsDeleted = inc_by_kind IDPortenClientsDeletedCount MaskinportenClientsDeletedCount"

definition IncScopesCreated :: "clientInstance \<Rightarrow> (('w, 'c) st, unit) eff" where
  "IncScopesCreated = inc_maskinporten MaskinportenScopesCreatedCount"

definition IncScopesUpdated :: "clientInstance \<Rightarrow> (('w, 'c) st, unit) eff" where
  "IncScopesUpdated = inc_maskinporten MaskinportenScopesUpdatedCount"

definition IncScopesDeleted :: "clientInstance \<Rightarrow> (('w, 'c) st, unit) eff" where
  "IncScopesDeleted = inc_maskinporten MaskinportenScopesDeletedCount"

text \<open>The code increments the counter of deleted scopes here.\<close>

definition IncScopesReactivated :: "clientInstance \<Rightarrow> (('w, 'c) st, unit) eff" where
  "IncScopesReactivated = inc_maskinporten MaskinportenScopesDeletedCount"

definition IncScopesConsumersCreatedOrUpdated :: "clientInstance \<Rightarrow> string \<Rightarrow> (('w, 'c) st, unit) eff" where
  "IncScopesConsumersCreatedOrUpdated i state = (case inst_Spec i of
     IDPortenClient _ \<Rightarrow> returnE ()
   | MaskinportenClient _ \<Rightarrow>
       if state = ScopeStateDenied
       then incWithNamespaceLabel MaskinportenScopesConsumersUpdatedCount (om_Namespace (inst_Meta i))
       else incWithNamespaceLabel MaskinportenScopesConsumersCreatedCount (om_Namespace (inst_Meta i)))"

definition IncScopesConsumersDeleted :: "clientInstance \<Rightarrow> (('w, 'c) st, unit) eff" where
  "IncScopesConsumersDeleted = inc_maskinporten MaskinportenScopesConsumersDeletedCount"

lemmas inc_defs = IncClientsProcessed_def IncClientsFailedProcessing_def IncClientsFailedInvalidConfig_def
  IncClientsCreated_def IncClientsUpdated_def IncClientsRotated_def IncClientsDeleted_def
  IncScopesCreated_def IncScopesUpdated_def IncScopesDeleted_def IncScopesReactivated_def
  IncScopesConsumersCreatedOrUpdated_def IncScopesConsumersDeleted_def

section \<open>Initialisation and refresh\<close>

text \<open>
  \<open>InitWithNamespaceLabels\<close>: every attempt assigns the variable \<open>ns\<close> that the closure captures, with an
  error or without; when the attempts fail the error is logged and the loop runs over what \<open>ns\<close>
  holds. \<open>kubernetes.ListNamespaces\<close> of liberator is a parameter: the names it gives, with an error or
  none.
\<close>

type_synonym 'w namespaceLister = "'w \<Rightarrow> (string list \<times> gerror option) \<times> 'w"

definition listNamespaces :: "'w namespaceLister \<Rightarrow> (('w, 'c) st, string) eff" where
  "listNamespaces lister = (\<lambda>s. case lister (world s) of
     ((ns, err), w) \<Rightarrow>
       (case err of Some e \<Rightarrow> Inl (RetryableError (Wrap ''listing namespaces'' e)) | None \<Rightarrow> Inr '''',
        s\<lparr>world := w, nsItems := ns\<rparr>))"

definition init_series :: "string list \<Rightarrow> (('w, 'c) st, unit) eff" where
  "init_series ns = forE ns (\<lambda>n. forE AllCounters (\<lambda>c. add_counter 0 c n))"

definition InitWithNamespaceLabels :: "('w, 'c) lib \<Rightarrow> 'w namespaceLister \<Rightarrow> (('w, 'c) st, unit) eff" where
  "InitWithNamespaceLabels l lister =
     bindE (modifyE (\<lambda>s. s\<lparr>nsItems := []\<rparr>)) (\<lambda>_.
     bindE (catchE (Backoff_Do l (WithMaxDuration (1 * Minute) (Fibonacci (1 * Second))) (listNamespaces lister))
              (\<lambda>err. returnE ()) (\<lambda>_. returnE ())) (\<lambda>_.
     bindE (getE nsItems) init_series))"
definition set_gauge :: "gauge \<Rightarrow> int \<Rightarrow> (('w, 'c) st, unit) eff" where
  "set_gauge g v = modifyE (\<lambda>s. s\<lparr>gauges := (gauges s)(g := v)\<rparr>)"

text \<open>A Go slice field of a custom resource may be nil, which has length 0.\<close>

definition setTotalConsumersOfScope :: "maskinportenSpec \<Rightarrow> int \<Rightarrow> int" where
  "setTotalConsumersOfScope c consumersTotal =
     foldl (\<lambda>total e. total + int (length (es_Consumers e))) consumersTotal (ms_ExposedScopes c)"

definition scopeTotals :: "maskinportenSpec list \<Rightarrow> int \<times> int \<times> int" where
  "scopeTotals clients =
     foldl (\<lambda>(exposedTotal, consumedTotal, consumersTotal) c.
       (exposedTotal + int (length (ms_ExposedScopes c)),
        consumedTotal + int (length (ms_ConsumedScopes c)),
        setTotalConsumersOfScope c consumersTotal)) (0, 0, 0) clients"

definition setTotalForMaskinportenScopes :: "maskinportenSpec list \<Rightarrow> (('w, 'c) st, unit) eff" where
  "setTotalForMaskinportenScopes clients =
     (case scopeTotals clients of (exposedTotal, consumedTotal, consumersTotal) \<Rightarrow>
      bindE (set_gauge MaskinportenExposedScopesTotal exposedTotal) (\<lambda>_.
      bindE (set_gauge MaskinportenExternalScopesConsumedTotal consumedTotal) (\<lambda>_.
      set_gauge MaskinportenScopeConsumersTotal consumersTotal)))"

text \<open>
  The listings of \<open>m.reader.List\<close>: the error, if any, is logged only; the list is what the call
  left in its variable, which an error may leave as it was in the round before.
\<close>

record 'w reader =
  list_Secrets :: "(string \<times> string) list \<Rightarrow> secret list \<Rightarrow> 'w \<Rightarrow> (gerror option \<times> secret list) \<times> 'w"
  list_IDPorten :: "idportenSpec list \<Rightarrow> 'w \<Rightarrow> (gerror option \<times> idportenSpec list) \<times> 'w"
  list_Maskinporten :: "maskinportenSpec list \<Rightarrow> 'w \<Rightarrow> (gerror option \<times> maskinportenSpec list) \<times> 'w"

record refreshVars =
  rv_idportenSecretList :: "secret list"
  rv_idportenClientsList :: "idportenSpec list"
  rv_maskinportenSecretList :: "secret list"
  rv_maskinportenClientsList :: "maskinportenSpec list"

text \<open>One tick of the loop of \<open>Refresh\<close>.\<close>
definition refresh_tick :: "'w reader \<Rightarrow> refreshVars \<Rightarrow> (('w, 'c) st, refreshVars) eff" where
  "refresh_tick rd v =
     bindE (call (list_Secrets rd [(TypeLabelKey, IDPortenTypeLabelValue)] (rv_idportenSecretList v))) (\<lambda>(_, is).
     bindE (set_gauge IDPortenSecretsTotal (int (length is))) (\<lambda>_.
     bindE (call (list_Secrets rd [(TypeLabelKey, MaskinportenTypeLabelValue)] (rv_maskinportenSecretList v))) (\<lambda>(_, ms).
     bindE (set_gauge MaskinportenSecretsTotal (int (length ms))) (\<lambda>_.
     bindE (call (list_IDPorten rd (rv_idportenClientsList v))) (\<lambda>(_, ic).
     bindE (set_gauge IDPortenClientsTotal (int (length ic))) (\<lambda>_.
     bindE (call (list_Maskinporten rd (rv_maskinportenClientsList v))) (\<lambda>(_, mc).
     bindE (set_gauge MaskinportenClientsTotal (int (length mc))) (\<lambda>_.
     bindE (setTotalForMaskinportenScopes mc) (\<lambda>_.
     returnE \<lparr>rv_idportenSecretList = is, rv_idportenClientsList = ic,
              rv_maskinportenSecretList = ms, rv_maskinportenClientsList = mc\<rparr>)))))))))"

fun refresh_ticks :: "'w reader \<Rightarrow> refreshVars \<Rightarrow> nat \<Rightarrow> (('w, 'c) st, refreshVars) eff" where
  "refresh_ticks rd v 0 = returnE v"
| "refresh_ticks rd v (Suc n) = bindE (refresh_tick rd v) (\<lambda>v'. refresh_ticks rd v' n)"

text \<open>The loop has no end of its own; \<open>n\<close> is the number of ticks of its timer.\<close>

definition Refresh :: "('w, 'c) lib \<Rightarrow> 'w namespaceLister \<Rightarrow> 'w reader \<Rightarrow> nat \<Rightarrow> (('w, 'c) st, refreshVars) eff" where
  "Refresh l lister rd n =
     bindE (InitWithNamespaceLabels l lister) (\<lambda>_.
     refresh_ticks rd \<lparr>rv_idportenSecretList = [], rv_idportenClientsList = [],
       rv_maskinportenSecretList = [], rv_maskinportenClientsList = []\<rparr> n)"
section \<open>Properties\<close>

lemma emits_add_counter [frame_intros]: "keeps (emits P) (add_counter n m ns)"
  by (simp add: keeps_def add_counter_def emits_def)

lemma same_inst_add_counter [frame_intros]: "keeps same_inst (add_counter n m ns)"
  by (simp add: keeps_def add_counter_def same_inst_def)

text \<open>Incrementing a counter makes no call and leaves the object alone.\<close>

lemma inc_frame:
  assumes "\<And>n m ns. keeps R (add_counter n m ns)" and "state_preorder R"
  shows "keeps R (IncClientsProcessed i)" "keeps R (IncClientsFailedProcessing i)"
    "keeps R (IncClientsFailedInvalidConfig i)" "keeps R (IncClientsCreated i)" "keeps R (IncClientsUpdated i)"
    "keeps R (IncClientsRotated i)" "keeps R (IncClientsDeleted i)" "keeps R (IncScopesCreated i)"
    "keeps R (IncScopesUpdated i)" "keeps R (IncScopesDeleted i)" "keeps R (IncScopesReactivated i)"
    "keeps R (IncScopesConsumersCreatedOrUpdated i st)" "keeps R (IncScopesConsumersDeleted i)"
  unfolding inc_defs inc_by_kind_def inc_maskinporten_def incWithNamespaceLabel_def
  using assms by (auto intro: state_preorder.keeps_returnE split: clientSpec.split)

lemmas emits_inc [frame_intros] =
  inc_frame [OF emits_add_counter emits.state_preorder_axioms]

lemmas same_inst_inc [frame_intros] =
  inc_frame [OF same_inst_add_counter same_inst.state_preorder_axioms]
text \<open>
  C39: the names of the registered metrics are distinct, so registration does not panic; every
  declared metric but one is registered, and every counter but one gets its series initialised: the
  Maskinporten counter of invalid configurations is never exported, the ID-porten one starts
  without series.
\<close>

theorem metrics_registered:
  "distinct (map metric_name AllMetrics) \<and>
   (m \<in> set AllMetrics \<longleftrightarrow> m \<noteq> CounterVec MaskinportenClientsFailedInvalidConfigCount) \<and>
   (c \<in> set AllCounters \<longleftrightarrow> c \<noteq> IDPortenClientsFailedInvalidConfigCount)"
proof (intro conjI)
  show "distinct (map metric_name AllMetrics)" by code_simp
  show "m \<in> set AllMetrics \<longleftrightarrow> m \<noteq> CounterVec MaskinportenClientsFailedInvalidConfigCount"
  proof (cases m)
    case (Gauge g)
    then show ?thesis by (cases g) (simp_all add: AllMetrics_def)
  next
    case (CounterVec k)
    then show ?thesis by (cases k) (simp_all add: AllMetrics_def)
  qed
  show "c \<in> set AllCounters \<longleftrightarrow> c \<noteq> IDPortenClientsFailedInvalidConfigCount"
    by (cases c) (simp_all add: AllCounters_def)
qed

lemma scopeTotals_snoc:
  "scopeTotals (cs @ [c]) = (case scopeTotals cs of (a, b, d) \<Rightarrow>
     (a + int (length (ms_ExposedScopes c)), b + int (length (ms_ConsumedScopes c)), setTotalConsumersOfScope c d))"
  by (simp add: scopeTotals_def split: prod.split)

lemma setTotalConsumersOfScope_sum:
  "setTotalConsumersOfScope c n = n + (\<Sum>e\<leftarrow>ms_ExposedScopes c. int (length (es_Consumers e)))"
proof -
  have "foldl (\<lambda>total e. total + int (length (es_Consumers e))) n es =
      n + (\<Sum>e\<leftarrow>es. int (length (es_Consumers e)))" for es :: "exposedScope list"
    by (induction es arbitrary: n) simp_all
  then show ?thesis by (simp add: setTotalConsumersOfScope_def)
qed

lemma scopeTotals_sums:
  "scopeTotals cs =
     (\<Sum>c\<leftarrow>cs. int (length (ms_ExposedScopes c)), \<Sum>c\<leftarrow>cs. int (length (ms_ConsumedScopes c)),
      \<Sum>c\<leftarrow>cs. \<Sum>e\<leftarrow>ms_ExposedScopes c. int (length (es_Consumers e)))"
proof (induction cs rule: rev_induct)
  case Nil
  then show ?case by (simp add: scopeTotals_def)
next
  case (snoc c cs)
  then show ?case by (simp add: scopeTotals_snoc setTotalConsumersOfScope_sum)
qed

text \<open>
  C38: a tick of the refresh loop sets every gauge to what the reader lists in that tick: the secrets
  with the type label of ID-porten and with that of Maskinporten, each under its own gauge, the
  clients of either kind, and for the scopes the sums over all Maskinporten clients of the exposed
  scopes, the consumed scopes and the consumers of the exposed scopes. The tick always completes, an
  error of a listing leaves its list as the reader left it, and nothing else of the state changes.
\<close>

theorem refresh_tick_gauges:
  assumes "list_Secrets rd [(TypeLabelKey, IDPortenTypeLabelValue)] (rv_idportenSecretList v) (world s) = ((e1, idportenSecrets), w1)"
    and "list_Secrets rd [(TypeLabelKey, MaskinportenTypeLabelValue)] (rv_maskinportenSecretList v) w1 = ((e2, maskinportenSecrets), w2)"
    and "list_IDPorten rd (rv_idportenClientsList v) w2 = ((e3, idportenClients), w3)"
    and "list_Maskinporten rd (rv_maskinportenClientsList v) w3 = ((e4, maskinportenClients), w4)"
  shows "refresh_tick rd v s =
    (Inr \<lparr>rv_idportenSecretList = idportenSecrets, rv_idportenClientsList = idportenClients,
          rv_maskinportenSecretList = maskinportenSecrets, rv_maskinportenClientsList = maskinportenClients\<rparr>,
     s\<lparr>world := w4, gauges := (gauges s)
       (IDPortenSecretsTotal := int (length idportenSecrets),
        MaskinportenSecretsTotal := int (length maskinportenSecrets),
        IDPortenClientsTotal := int (length idportenClients),
        MaskinportenClientsTotal := int (length maskinportenClients),
        MaskinportenExposedScopesTotal := \<Sum>c\<leftarrow>maskinportenClients. int (length (ms_ExposedScopes c)),
        MaskinportenExternalScopesConsumedTotal := \<Sum>c\<leftarrow>maskinportenClients. int (length (ms_ConsumedScopes c)),
        MaskinportenScopeConsumersTotal :=
          \<Sum>c\<leftarrow>maskinportenClients. \<Sum>e\<leftarrow>ms_ExposedScopes c. int (length (es_Consumers e)))\<rparr>)"
  using assms by (simp add: refresh_tick_def bindE_def call_def set_gauge_def setTotalForMaskinportenScopes_def
      scopeTotals_sums returnE_def)

text \<open>A cluster with one secret, of an ID-porten client that is gone, and one Maskinporten client.\<close>

definition demo_reader :: "nat reader" where
  "demo_reader =
     \<lparr>list_Secrets = (\<lambda>sel old w. ((None, filter (\<lambda>sc. list_all (\<lambda>kv. kv \<in> set (sec_Labels sc)) sel)
        [zeroSecret\<lparr>sec_Labels := [(TypeLabelKey, IDPortenTypeLabelValue)]\<rparr>]), Suc w)),
      list_IDPorten = (\<lambda>old w. ((None, []), Suc w)),
      list_Maskinporten = (\<lambda>old w. ((None, [\<lparr>ms_ClientName = '''', ms_SecretName = ''sec'', ms_ConsumedScopes = [''a'', ''b''],
        ms_ExposedScopes = [demo_exposed]\<rparr>]), Suc w))\<rparr>"

theorem refresh_tick_gauges_witness:
  "case refresh_tick demo_reader \<lparr>rv_idportenSecretList = [], rv_idportenClientsList = [], rv_maskinportenSecretList = [],
       rv_maskinportenClientsList = []\<rparr> (demo_state demo_idporten) of
     (r, s') \<Rightarrow> gauges s' IDPortenSecretsTotal = 1 \<and> gauges s' MaskinportenSecretsTotal = 0 \<and>
       gauges s' MaskinportenClientsTotal = 1 \<and> gauges s' MaskinportenExternalScopesConsumedTotal = 2 \<and>
       gauges s' MaskinportenScopeConsumersTotal = 1"
proof -
  let ?sec = "zeroSecret\<lparr>sec_Labels := [(TypeLabelKey, IDPortenTypeLabelValue)]\<rparr>"
  let ?mp = "\<lparr>ms_ClientName = '''', ms_SecretName = ''sec'', ms_ConsumedScopes = [''a'', ''b''], ms_ExposedScopes = [demo_exposed]\<rparr>"
  have types: "IDPortenTypeLabelValue \<noteq> MaskinportenTypeLabelValue"
    by (simp add: IDPortenTypeLabelValue_def MaskinportenTypeLabelValue_def)
  have "list_Secrets demo_reader [(TypeLabelKey, IDPortenTypeLabelValue)] old w = ((None, [?sec]), Suc w)"
    "list_Secrets demo_reader [(TypeLabelKey, MaskinportenTypeLabelValue)] old w = ((None, []), Suc w)"
    "list_IDPorten demo_reader old' w = ((None, []), Suc w)" "list_Maskinporten demo_reader old'' w = ((None, [?mp]), Suc w)"
    for old old' old'' w
    using types by (simp_all add: demo_reader_def)
  note lists = this
  let ?v = "\<lparr>rv_idportenSecretList = [], rv_idportenClientsList = [], rv_maskinportenSecretList = [], rv_maskinportenClientsList = []\<rparr>"
  show ?thesis
    unfolding refresh_tick_gauges [where v = ?v and s = "demo_state demo_idporten", OF lists]
    by (simp add: demo_exposed_def)
qed

text \<open>The series that initialisation leaves: a new one starts at zero, an existing one keeps its value.\<close>

definition series_of :: "('w, 'c) st \<Rightarrow> string set \<Rightarrow> counter \<Rightarrow> string \<Rightarrow> nat option" where
  "series_of s ns c n = (if n \<in> ns \<and> c \<in> set AllCounters
     then Some (case counters s c n of Some k \<Rightarrow> k | None \<Rightarrow> 0) else counters s c n)"

lemma series_of_empty: "series_of s {} = counters s"
  by (simp add: series_of_def fun_eq_iff)

lemma series_of_frame: "series_of (s\<lparr>world := w, nsItems := ns\<rparr>) = series_of s"
  by (simp add: series_of_def fun_eq_iff)

lemma init_namespace:
  "forE cs (\<lambda>c. add_counter 0 c n) s = (Inr (), s\<lparr>counters := (\<lambda>c' n'. if n' = n \<and> c' \<in> set cs
     then Some (case counters s c' n' of Some k \<Rightarrow> k | None \<Rightarrow> 0) else counters s c' n')\<rparr>)"
proof (induction cs arbitrary: s)
  case (Cons c cs)
  let ?s = "s\<lparr>counters := (\<lambda>m' n'. if m' = c \<and> n' = n
     then Some ((case counters s c n of Some k \<Rightarrow> k | None \<Rightarrow> 0) + 0) else counters s m' n')\<rparr>"
  have "add_counter 0 c n s = (Inr (), ?s)" by (simp add: add_counter_def)
  then show ?case
    by (simp add: bindE_Inr Cons) (auto simp: fun_eq_iff intro!: arg_cong [where f = "\<lambda>x. s\<lparr>counters := x\<rparr>"] split: option.split)
qed simp

lemma init_series_run: "init_series ns s = (Inr (), s\<lparr>counters := series_of s (set ns)\<rparr>)"
  unfolding init_series_def
proof (induction ns arbitrary: s)
  case (Cons n ns)
  show ?case
    by (simp add: bindE_Inr [OF init_namespace] Cons)
      (auto simp: series_of_def fun_eq_iff intro!: arg_cong [where f = "\<lambda>x. s\<lparr>counters := x\<rparr>"] split: option.split)
qed (simp add: series_of_empty)

lemma listNamespaces_run:
  assumes "lister (world s) = ((ns, err), w)"
  shows "listNamespaces lister s =
    (case err of Some e \<Rightarrow> Inl (Retryable (Wrap ''listing namespaces'' e)) | None \<Rightarrow> Inr '''', s\<lparr>world := w, nsItems := ns\<rparr>)"
  using assms by (simp add: listNamespaces_def RetryableError_def split: option.split)

text \<open>
  Where the namespaces of a finished retry come from: from no listing, when no attempt was made, or
  from a listing, which is the first one when that succeeds.
\<close>

definition listing_of :: "'w namespaceLister \<Rightarrow> ('w, 'c) st \<Rightarrow> 'w \<Rightarrow> string list \<Rightarrow> bool" where
  "listing_of lister s w ns \<longleftrightarrow>
     (ns = nsItems s \<and> w = world s \<or> (\<exists>w0 err w1. lister w0 = ((ns, err), w1))) \<and>
     (\<forall>ns0 w0. lister (world s) = ((ns0, None), w0) \<longrightarrow> ns = ns0 \<and> w = w0 \<or> ns = nsItems s \<and> w = world s)"

lemma listing_ofI: "lister (world s) = ((ns, err), w) \<Longrightarrow> listing_of lister s w ns"
  unfolding listing_of_def by (intro conjI disjI2) (auto intro: exI)

lemma listNamespaces_attempt:
  assumes "retry_run (listNamespaces lister) k s r" and "\<forall>w ns e w'. lister w = ((ns, Some e), w') \<longrightarrow> \<not> is_panic e"
  shows "(\<exists>w ns. snd r = s\<lparr>world := w, nsItems := ns\<rparr> \<and> listing_of lister s w ns) \<and> (\<forall>e. fst r = Inl e \<longrightarrow> \<not> is_panic e)"
  using assms(1)
proof (induction rule: retry_run.induct)
  case (cancelled s c)
  show ?case by (auto simp: listing_of_def intro!: exI [of _ "world s"] exI [of _ "nsItems s"])
next
  case (success s x s')
  obtain ns err w where l: "lister (world s) = ((ns, err), w)" by (metis prod.collapse)
  with success show ?case
    using listing_ofI [of lister s, OF l]
    by (auto simp: listNamespaces_run [of lister s, OF l] intro!: exI [of _ w] exI [of _ ns])
next
  case (final s e s')
  obtain ns err w where l: "lister (world s) = ((ns, err), w)" by (metis prod.collapse)
  with final show ?case by (auto simp: listNamespaces_run [of lister s, OF l] split: option.splits)
next
  case (exhausted s e s' e0)
  obtain ns err w where l: "lister (world s) = ((ns, err), w)" by (metis prod.collapse)
  with exhausted assms(2) show ?case
    using listing_ofI [of lister s, OF l]
    by (auto simp: listNamespaces_run [of lister s, OF l] split: option.splits intro!: exI [of _ w] exI [of _ ns])
next
  case (again s e s' e0 n w' r)
  obtain ns err w where l: "lister (world s) = ((ns, err), w)" by (metis prod.collapse)
  with again(1) have s': "s' = s\<lparr>world := w, nsItems := ns\<rparr>" and err: "err \<noteq> None"
    by (auto simp: listNamespaces_run [of lister s, OF l] split: option.splits)
  obtain w2 ns2 where r: "snd r = (s'\<lparr>world := w'\<rparr>)\<lparr>world := w2, nsItems := ns2\<rparr>" "listing_of lister (s'\<lparr>world := w'\<rparr>) w2 ns2"
    "\<forall>e. fst r = Inl e \<longrightarrow> \<not> is_panic e"
    using again(4) by auto
  have "listing_of lister s w2 ns2" using r(2) l err unfolding listing_of_def s' by auto
  with r(1,3) show ?case unfolding s' by (auto intro!: exI [of _ w2] exI [of _ ns2])
qed

text \<open>
  C37: initialisation of the metrics always completes, and its series are those of the namespaces that
  were listed: each of them has a series of every counter of the list, a new one at zero, and no other
  series and no other part of the state changes. The namespaces are those of the first listing when it
  succeeds, and in any case those of some listing; only a retry loop that made no attempt at all leaves
  none.
\<close>

theorem init_series_complete:
  fixes l :: "('w, 'c) lib"
  assumes "retry_contract (net l)" and "\<forall>w ns e w'. lister w = ((ns, Some e), w') \<longrightarrow> \<not> is_panic e"
  shows "\<exists>w ns. InitWithNamespaceLabels l lister s =
      (Inr (), s\<lparr>world := w, nsItems := ns, counters := series_of s (set ns)\<rparr>) \<and>
    (ns = [] \<and> w = world s \<or> (\<exists>w0 err w1. lister w0 = ((ns, err), w1))) \<and>
    (\<forall>ns0 w0. lister (world s) = ((ns0, None), w0) \<longrightarrow> ns = ns0 \<and> w = w0 \<or> ns = [] \<and> w = world s)"
proof -
  let ?s = "s\<lparr>nsItems := []\<rparr>"
  let ?bo = "WithMaxDuration (1 * Minute) (Fibonacci (1 * Second))"
  obtain k where "retry_run (listNamespaces lister) k ?s (Backoff_Do l ?bo (listNamespaces lister) ?s)"
    using assms(1) unfolding retry_contract_def Backoff_Do_def by blast
  from listNamespaces_attempt [OF this assms(2)] obtain w ns
    where b: "snd (Backoff_Do l ?bo (listNamespaces lister) ?s) = ?s\<lparr>world := w, nsItems := ns\<rparr>"
      and li: "listing_of lister ?s w ns"
      and p: "\<And>e. fst (Backoff_Do l ?bo (listNamespaces lister) ?s) = Inl e \<Longrightarrow> \<not> is_panic e" by blast
  from b p have "\<exists>r. Backoff_Do l ?bo (listNamespaces lister) ?s = (r, ?s\<lparr>world := w, nsItems := ns\<rparr>) \<and>
      (\<forall>e. r = Inl e \<longrightarrow> \<not> is_panic e)"
    by (metis prod.collapse)
  then have "InitWithNamespaceLabels l lister s = (Inr (), s\<lparr>world := w, nsItems := ns, counters := series_of s (set ns)\<rparr>)"
    by (auto simp: InitWithNamespaceLabels_def bindE_def catchE_def init_series_run series_of_frame split: sum.splits)
  with li show ?thesis unfolding listing_of_def by (intro exI [of _ w] exI [of _ ns]) simp
qed

theorem init_series_complete_witness:
  "\<exists>s'. InitWithNamespaceLabels (demo_lib (\<lambda>_. ok_response) [] demo_idporten) (\<lambda>w. (([''ns''], None), Suc w))
      (demo_state demo_idporten) = (Inr (), s') \<and>
    nsItems s' = [''ns''] \<and> counters s' MaskinportenClientsCreatedCount ''ns'' = Some 0"
proof -
  let ?l = "demo_lib (\<lambda>_. ok_response) [] demo_idporten"
  let ?lister = "\<lambda>w. (([''ns''], None), Suc w)"
  have c: "MaskinportenClientsCreatedCount \<in> set AllCounters" by (simp add: AllCounters_def)
  have "world (snd (InitWithNamespaceLabels ?l ?lister (demo_state demo_idporten))) = 1"
    by (simp add: InitWithNamespaceLabels_def Backoff_Do_def demo_net_def WithMaxDuration_def Fibonacci_def bindE_def catchE_def
        listNamespaces_run [of ?lister, OF refl] init_series_run demo_state_def)
  with c show ?thesis
    using init_series_complete [of ?l ?lister "demo_state demo_idporten"]
    by (auto simp: demo_state_def series_of_def)
qed

end
