(* ===== verification/Digdir.thy ===== *)
theory Digdir
  imports Demo Retry
begin

text \<open>
  \<open>pkg/digdir\<close>: the client of DigDir's self-service API. Every operation is one
  call of \<open>request\<close>, which fetches an access token, sends the request, classifies the response and
  decodes its body, inside the retry loop. The closure that \<open>request\<close> retries leaves the decoded
  value behind a pointer; here it gives back the body that it decoded, and the value is read off it.
\<close>

section \<open>Escaping\<close>

text \<open>\<open>url.QueryEscape\<close>: unreserved characters stay, a space is a plus sign, any other byte is \<open>%XX\<close>.\<close>

definition unreserved :: "char \<Rightarrow> bool" where
  "unreserved c =
     (let n = (of_char c :: nat) in
      (97 \<le> n \<and> n \<le> 122) \<or> (65 \<le> n \<and> n \<le> 90) \<or> (48 \<le> n \<and> n \<le> 57) \<or>
      n = 45 \<or> n = 95 \<or> n = 46 \<or> n = 126)"

definition upper_hex :: "nat \<Rightarrow> char" where
  "upper_hex n = (if n < 10 then char_of (48 + n) else char_of (55 + n))"

definition escape_char :: "char \<Rightarrow> string" where
  "escape_char c =
     (let n = (of_char c :: nat) in
      if unreserved c then [c]
      else if n = 32 then [char_of (43::nat)]
      else [char_of (37::nat), upper_hex (n div 16), upper_hex (n mod 16)])"

definition QueryEscape :: "string \<Rightarrow> string" where
  "QueryEscape s = concat (map escape_char s)"

text \<open>\<open>url.Values.Encode\<close>: the pairs sorted by key.\<close>

definition values_encode :: "(string \<times> string) list \<Rightarrow> string" where
  "values_encode params =
     join ''&'' (map (\<lambda>(k, v). QueryEscape k @ ''='' @ QueryEscape v) (sort_key fst params))"

section \<open>Access tokens\<close>

definition grantType :: string where "grantType = ''urn:ietf:params:oauth:grant-type:jwt-bearer''"
definition applicationFormUrlEncoded :: string where
  "applicationFormUrlEncoded = ''application/x-www-form-urlencoded''"
definition MethodGet :: string where "MethodGet = ''GET''"
definition MethodPost :: string where "MethodPost = ''POST''"
definition MethodPut :: string where "MethodPut = ''PUT''"
definition MethodDelete :: string where "MethodDelete = ''DELETE''"

lemmas method_defs = MethodGet_def MethodPost_def MethodPut_def MethodDelete_def

definition claims :: "('w, 'c) lib \<Rightarrow> config \<Rightarrow> (('w, 'c) st, customClaims) eff" where
  "claims l c =
     bindE (call (sys_Now (sys l))) (\<lambda>now.
     bindE (call (sys_UUID (sys l))) (\<lambda>jti.
     returnE \<lparr>cl_Issuer = ad_ClientID (cfg_Admin c),
              cl_Audience = [md_Issuer (mp_Metadata (cfg_Maskinporten c))],
              cl_Expiry = now + 2 * Minute, cl_NotBefore = now, cl_IssuedAt = now,
              cl_ID = jti, cl_Scope = ad_Scopes (cfg_Admin c)\<rparr>))"

definition GenerateJwt :: "('w, 'c) lib \<Rightarrow> customClaims \<Rightarrow> (('w, 'c) st, string) eff" where
  "GenerateJwt l cl = call_err (net_SerializeJwt (net l) cl)"

definition authRequest :: "('w, 'c) lib \<Rightarrow> string \<Rightarrow> string \<Rightarrow> gerror + httpRequest" where
  "authRequest l endpoint token =
     (let params = [(''grant_type'', grantType), (''assertion'', token)] in
      case net_NewRequest (net l) MethodPost endpoint of
        Inl e \<Rightarrow> Inl (Wrap ''creating request'' e)
      | Inr _ \<Rightarrow> Inr \<lparr>rq_Method = MethodPost, rq_URL = endpoint,
                      rq_Headers = [(''Content-Type'', applicationFormUrlEncoded)],
                      rq_Body = values_encode params\<rparr>)"

definition getAuthToken :: "('w, 'c) lib \<Rightarrow> config \<Rightarrow> (('w, 'c) st, string) eff" where
  "getAuthToken l c =
     bindE (claims l c) (\<lambda>cl.
     bindE (wrapE ''generating JWT'' (GenerateJwt l cl)) (\<lambda>token.
     bindE (liftE (authRequest l (md_TokenEndpoint (mp_Metadata (cfg_Maskinporten c))) token)) (\<lambda>req.
     bindE (wrapE ''doing request'' (http_do l TokenEndpoint req)) (\<lambda>resp.
     bindE (wrapE ''reading response'' (liftE (hr_Body resp))) (\<lambda>body.
     if hr_StatusCode resp \<ge> 400
     then failE (Err (''invalid status '' @ hr_Status resp @ '': '' @ body))
     else wrapE ''unmarshalling'' (liftE (json_Token (json l) body)))))))"

section \<open>Requests\<close>

definition retryInitialDelay :: duration where "retryInitialDelay = 1 * Second"
definition retryMaxAttempts :: int where "retryMaxAttempts = 5"

definition apiRequest :: "string \<Rightarrow> string \<Rightarrow> string \<Rightarrow> string \<Rightarrow> httpRequest" where
  "apiRequest method endpoint payload accessToken =
     \<lparr>rq_Method = method, rq_URL = endpoint,
      rq_Headers = [(''Authorization'', ''Bearer '' @ accessToken), (''Content-Type'', ''application/json'')],
      rq_Body = payload\<rparr>"

definition attempt ::
  "('w, 'c) lib \<Rightarrow> config \<Rightarrow> string \<Rightarrow> string \<Rightarrow> string \<Rightarrow> (string \<Rightarrow> gerror + 'a) \<Rightarrow> (('w, 'c) st, string) eff" where
  "attempt l c method endpoint payload decode =
     bindE (wrapE ''get auth token'' (getAuthToken l c)) (\<lambda>token.
     bindE (wrapE (''creating '' @ method @ '' request'') (liftE (net_NewRequest (net l) method endpoint))) (\<lambda>_.
     bindE (wrapE (''doing '' @ method @ '' request to '' @ endpoint)
              (http_do l AdminAPI (apiRequest method endpoint payload token))) (\<lambda>resp.
     bindE (wrapE ''reading response'' (liftE (hr_Body resp))) (\<lambda>body.
     if hr_StatusCode resp \<ge> 400 \<and> hr_StatusCode resp < 500
     then failE (RetryableError (DigdirError ErrClient (hr_Status resp) (hr_StatusCode resp) body))
     else if hr_StatusCode resp \<ge> 500
     then failE (RetryableError (DigdirError ErrServer (hr_Status resp) (hr_StatusCode resp) body))
     else bindE (wrapE ''unmarshalling'' (liftE (decode body))) (\<lambda>_. returnE body)))))"

definition request ::
  "('w, 'c) lib \<Rightarrow> config \<Rightarrow> string \<Rightarrow> string \<Rightarrow> string \<Rightarrow> (string \<Rightarrow> gerror + 'a) \<Rightarrow> (('w, 'c) st, 'a) eff" where
  "request l c method endpoint payload decode =
     bindE (Backoff_Do l (WithMaxAttempts retryMaxAttempts (Fibonacci retryInitialDelay))
              (attempt l c method endpoint payload decode)) (\<lambda>body.
     liftE (decode body))"

text \<open>\<open>request\<close> without a target: nothing is decoded.\<close>

definition no_target :: "string \<Rightarrow> gerror + unit" where
  "no_target body = Inr ()"

definition endpoint :: "('w, 'c) lib \<Rightarrow> config \<Rightarrow> string list \<Rightarrow> (('w, 'c) st, string) eff" where
  "endpoint l c path =
     bindE (liftE (ApiV1URL (net_URL (net l)) (cfg_Admin c))) (\<lambda>base.
     returnE (url_String (net_URL (net l)) (url_JoinPath (net_URL (net l)) base path)))"

section \<open>Clients\<close>

definition Register :: "('w, 'c) lib \<Rightarrow> config \<Rightarrow> clientRegistration \<Rightarrow> (('w, 'c) st, clientRegistration) eff" where
  "Register l c payload =
     bindE (endpoint l c [''clients'']) (\<lambda>ep.
     bindE (wrapE ''marshal payload'' (liftE (json_MarshalClient (json l) payload))) (\<lambda>jsonPayload.
     request l c MethodPost ep jsonPayload (json_Client (json l))))"

definition clientMatches :: "('w, 'c) lib \<Rightarrow> clientRegistration \<Rightarrow> clientInstance \<Rightarrow> string \<Rightarrow> bool" where
  "clientMatches l actual desired clusterName =
     (if st_ClientID (inst_Status desired) \<noteq> '''' then cr_ClientID actual = st_ClientID (inst_Status desired)
      else let descriptionMatches = (cr_Description actual = kube_URN (kube l) (inst_Meta desired) clusterName);
               integrationTypeMatches = (cr_IntegrationType actual = GetIntegrationType desired)
           in descriptionMatches \<and> integrationTypeMatches)"

definition GetRegistration :: "('w, 'c) lib \<Rightarrow> config \<Rightarrow> string \<Rightarrow> (('w, 'c) st, clientRegistration option) eff" where
  "GetRegistration l c clusterName =
     bindE (endpoint l c [''clients'']) (\<lambda>ep.
     bindE (request l c MethodGet ep '''' (json_Clients (json l))) (\<lambda>clientRegistrations.
     bindE the_inst (\<lambda>desired.
     case List.find (\<lambda>actual. clientMatches l actual desired clusterName) clientRegistrations of
       Some actual \<Rightarrow>
         bindE (modify_status (\<lambda>st. st\<lparr>st_ClientID := cr_ClientID actual\<rparr>)) (\<lambda>_. returnE (Some actual))
     | None \<Rightarrow> returnE None)))"

definition Exists :: "('w, 'c) lib \<Rightarrow> config \<Rightarrow> string \<Rightarrow> (('w, 'c) st, bool) eff" where
  "Exists l c clusterName =
     bindE (GetRegistration l c clusterName) (\<lambda>registration. returnE (registration \<noteq> None))"

definition Update :: "('w, 'c) lib \<Rightarrow> config \<Rightarrow> clientRegistration \<Rightarrow> string \<Rightarrow> (('w, 'c) st, clientRegistration) eff" where
  "Update l c payload clientID =
     bindE (endpoint l c [''clients'', clientID]) (\<lambda>ep.
     bindE (wrapE ''marshal payload'' (liftE (json_MarshalClient (json l) payload))) (\<lambda>jsonPayload.
     request l c MethodPut ep jsonPayload (json_Client (json l))))"

definition Delete :: "('w, 'c) lib \<Rightarrow> config \<Rightarrow> string \<Rightarrow> (('w, 'c) st, unit) eff" where
  "Delete l c clientID =
     bindE (endpoint l c [''clients'', clientID]) (\<lambda>ep. request l c MethodDelete ep '''' no_target)"

definition GetKeys :: "('w, 'c) lib \<Rightarrow> config \<Rightarrow> string \<Rightarrow> (('w, 'c) st, jwksResponse) eff" where
  "GetKeys l c clientID =
     bindE (endpoint l c [''clients'', clientID, ''jwks'']) (\<lambda>ep.
     request l c MethodGet ep '''' (json_Jwks (json l)))"

definition RegisterKeys :: "('w, 'c) lib \<Rightarrow> config \<Rightarrow> string \<Rightarrow> jsonWebKey list \<Rightarrow> (('w, 'c) st, jwksResponse) eff" where
  "RegisterKeys l c clientID payload =
     bindE (endpoint l c [''clients'', clientID, ''jwks'']) (\<lambda>ep.
     bindE (wrapE ''marshal payload'' (liftE (json_MarshalJwks (json l) payload))) (\<lambda>jsonPayload.
     request l c MethodPost ep jsonPayload (json_Jwks (json l))))"

section \<open>Access to consumed scopes\<close>

text \<open>\<open>scopeCache.Set\<close> and \<open>scopeCache.Get\<close>; both look at the clock for the expiry of entries.\<close>

definition cache_set :: "('w, 'c) lib \<Rightarrow> string \<Rightarrow> bool \<Rightarrow> duration option \<Rightarrow> (('w, 'c) st, unit) eff" where
  "cache_set l key val expiry =
     bindE (call (sys_Now (sys l))) (\<lambda>now.
     modifyE (\<lambda>s. s\<lparr>scopeCache := net_CacheSet (net l) key val expiry now (scopeCache s)\<rparr>))"

definition cache_get :: "('w, 'c) lib \<Rightarrow> string \<Rightarrow> (('w, 'c) st, bool option) eff" where
  "cache_get l key =
     bindE (call (sys_Now (sys l))) (\<lambda>now s.
       case net_CacheGet (net l) key now (scopeCache s) of (v, c) \<Rightarrow> (Inr v, s\<lparr>scopeCache := c\<rparr>))"

definition GetAccessibleScopes :: "('w, 'c) lib \<Rightarrow> config \<Rightarrow> (('w, 'c) st, accessScope list) eff" where
  "GetAccessibleScopes l c =
     bindE (endpoint l c [''scopes'', ''access'', ''all'']) (\<lambda>ep.
     bindE (request l c MethodGet ep '''' (json_Access (json l))) (\<lambda>s.
     bindE (forE s (\<lambda>scope. cache_set l (as_Scope scope) (IsAccessible scope) (Some (10 * Minute)))) (\<lambda>_.
     returnE s)))"

definition GetOpenScopes :: "('w, 'c) lib \<Rightarrow> config \<Rightarrow> (('w, 'c) st, scopeRegistration list) eff" where
  "GetOpenScopes l c =
     bindE (endpoint l c [''scopes'', ''all'']) (\<lambda>ep.
     bindE (request l c MethodGet (ep @ ''?accessible_for_all=true'') '''' (json_Scopes (json l))) (\<lambda>s.
     bindE (forE s (\<lambda>scope. cache_set l (sr_Name scope) (sr_AccessibleForAll scope) None)) (\<lambda>_.
     returnE s)))"

definition CanAccessScope :: "('w, 'c) lib \<Rightarrow> config \<Rightarrow> string \<Rightarrow> (('w, 'c) st, bool) eff" where
  "CanAccessScope l c scopeName =
     bindE (cache_get l scopeName) (\<lambda>hit.
     case hit of Some access \<Rightarrow> returnE access
     | None \<Rightarrow>
         bindE (wrapE ''get accessible scopes'' (GetAccessibleScopes l c)) (\<lambda>_.
         bindE (wrapE ''get open scopes'' (GetOpenScopes l c)) (\<lambda>_.
         bindE (cache_get l scopeName) (\<lambda>hit2.
         case hit2 of Some access \<Rightarrow> returnE access | None \<Rightarrow> returnE False))))"

section \<open>Exposed scopes\<close>

definition GetScopes :: "('w, 'c) lib \<Rightarrow> config \<Rightarrow> (('w, 'c) st, scopeRegistration list) eff" where
  "GetScopes l c =
     bindE (endpoint l c [''scopes'']) (\<lambda>ep.
     request l c MethodGet (ep @ ''?inactive=true'') '''' (json_Scopes (json l)))"

definition RegisterScope :: "('w, 'c) lib \<Rightarrow> config \<Rightarrow> scopeRegistration \<Rightarrow> (('w, 'c) st, scopeRegistration) eff" where
  "RegisterScope l c payload =
     bindE (endpoint l c [''scopes'']) (\<lambda>ep.
     bindE (wrapE ''marshal payload'' (liftE (json_MarshalScope (json l) payload))) (\<lambda>jsonPayload.
     request l c MethodPost ep jsonPayload (json_Scope (json l))))"

definition UpdateScope :: "('w, 'c) lib \<Rightarrow> config \<Rightarrow> scopeRegistration \<Rightarrow> string \<Rightarrow> (('w, 'c) st, scopeRegistration) eff" where
  "UpdateScope l c payload scope =
     bindE (endpoint l c [''scopes'']) (\<lambda>ep.
     bindE (wrapE ''marshal payload'' (liftE (json_MarshalScope (json l) payload))) (\<lambda>jsonPayload.
     request l c MethodPut (ep @ ''?scope='' @ QueryEscape scope) jsonPayload (json_Scope (json l))))"

text \<open>The target is a pointer to a pointer, so that a JSON null leaves it nil.\<close>

definition DeleteScope :: "('w, 'c) lib \<Rightarrow> config \<Rightarrow> string \<Rightarrow> (('w, 'c) st, scopeRegistration option) eff" where
  "DeleteScope l c scope =
     bindE (endpoint l c [''scopes'']) (\<lambda>ep.
     request l c MethodDelete (ep @ ''?scope='' @ QueryEscape scope) '''' (json_ScopePtr (json l)))"

definition GetScopeACL :: "('w, 'c) lib \<Rightarrow> config \<Rightarrow> string \<Rightarrow> (('w, 'c) st, consumerRegistration list) eff" where
  "GetScopeACL l c scope =
     bindE (endpoint l c [''scopes'', ''access'']) (\<lambda>ep.
     request l c MethodGet (ep @ ''?scope='' @ QueryEscape scope) '''' (json_ACL (json l)))"

definition AddToScopeACL :: "('w, 'c) lib \<Rightarrow> config \<Rightarrow> string \<Rightarrow> string \<Rightarrow> (('w, 'c) st, consumerRegistration) eff" where
  "AddToScopeACL l c scope consumerOrgno =
     bindE (endpoint l c [''scopes'', ''access'', consumerOrgno]) (\<lambda>ep.
     request l c MethodPut (ep @ ''?scope='' @ QueryEscape scope) '''' (json_Consumer (json l)))"

definition DeactivateConsumer :: "('w, 'c) lib \<Rightarrow> config \<Rightarrow> string \<Rightarrow> string \<Rightarrow> (('w, 'c) st, consumerRegistration) eff" where
  "DeactivateConsumer l c scope consumerOrgno =
     bindE (endpoint l c [''scopes'', ''access'', consumerOrgno]) (\<lambda>ep.
     request l c MethodDelete (ep @ ''?scope='' @ QueryEscape scope) '''' (json_Consumer (json l)))"

section \<open>What a request does\<close>

fun is_token_call :: "effect \<Rightarrow> bool" where
  "is_token_call (Http TokenEndpoint _ _) = True"
| "is_token_call _ = False"

fun is_admin_call :: "effect \<Rightarrow> bool" where
  "is_admin_call (Http AdminAPI _ _) = True"
| "is_admin_call _ = False"

text \<open>The calls of one request: token calls, and admin calls with this method, URL and payload.\<close>

definition request_call :: "string \<Rightarrow> string \<Rightarrow> string \<Rightarrow> effect \<Rightarrow> bool" where
  "request_call m ep p e \<longleftrightarrow> is_token_call e \<or> (\<exists>tok r. e = Http AdminAPI (apiRequest m ep p tok) r)"

text \<open>
  Errors of libraries are neither \<open>*digdir.Error\<close> values nor marked retryable: both types are
  constructed in \<open>request\<close> only.
\<close>

definition plain :: "gerror \<Rightarrow> bool" where
  "plain e \<longleftrightarrow> as_retryable e = None \<and> as_digdir_error e = None"

definition plain_result :: "gerror + 'a \<Rightarrow> bool" where
  "plain_result r \<longleftrightarrow> (case r of Inl e \<Rightarrow> plain e | Inr _ \<Rightarrow> True)"

definition plain_errors :: "('w, 'c) lib \<Rightarrow> bool" where
  "plain_errors l \<longleftrightarrow>
     (\<forall>m u. plain_result (net_NewRequest (net l) m u)) \<and>
     (\<forall>req w. plain_result (fst (net_Do (net l) req w))) \<and>
     (\<forall>req w resp. fst (net_Do (net l) req w) = Inr resp \<longrightarrow> plain_result (hr_Body resp)) \<and>
     (\<forall>cl w. plain_result (fst (net_SerializeJwt (net l) cl w))) \<and>
     (\<forall>b. plain_result (json_Token (json l) b)) \<and>
     (\<forall>b. plain_result (json_Consumer (json l) b))"

lemma plain_Wrap [simp]: "plain (Wrap m e) = plain e"
  by (simp add: plain_def)

lemma plain_Err [simp]: "plain (Err m)" "plain (Panicked m)"
  by (simp_all add: plain_def)

lemma plain_wrapped [simp]: "plain (wrapped m e) = plain e"
  by (cases e) (simp_all add: wrapped_def plain_def)

lemma emits_getAuthToken [frame_intros]: "keeps (emits is_token_call) (getAuthToken l c)"
  unfolding getAuthToken_def claims_def GenerateJwt_def
  by (intro emits.keeps_intros keeps_splits emits_call emits_call_err emits_http_do) simp

context process_relation
begin

lemma keeps_getAuthToken: "keeps R (getAuthToken l c)"
  unfolding getAuthToken_def claims_def GenerateJwt_def
  by (intro keeps_intros keeps_splits keeps_steps)

lemma keeps_attempt: "keeps R (attempt l c m ep p decode)"
  unfolding attempt_def
  by (intro keeps_intros keeps_splits keeps_steps keeps_getAuthToken)

lemma keeps_request: "retry_contract (net l) \<Longrightarrow> keeps R (request l c m ep p decode)"
  unfolding request_def Backoff_Do_def by (intro keeps_intros keeps_retry keeps_attempt)

end

lemma getAuthToken_error:
  assumes "plain_errors l" and "getAuthToken l c s = (Inl e, s')"
  shows "plain e"
proof -
  have do: "plain e0" if "http_do l ch req s = (Inl e0, s1)" for ch req s e0 s1
    using assms(1) that unfolding plain_errors_def http_do_def plain_result_def
    by (auto split: prod.splits) (metis fst_conv sum.simps(5))
  have body: "plain e0" if "http_do l ch req s = (Inr resp, s1)" "hr_Body resp = Inl e0" for ch req s e0 s1 resp
    using assms(1) that unfolding plain_errors_def http_do_def plain_result_def
    by (auto split: prod.splits) (metis fst_conv sum.simps(5))
  have new: "plain e0" if "net_NewRequest (net l) m u = Inl e0" for m u e0
    using assms(1) that unfolding plain_errors_def plain_result_def by (metis sum.simps(5))
  have jwt: "plain e0" if "GenerateJwt l cl s = (Inl e0, s1)" for cl s e0 s1
    using assms(1) that unfolding plain_errors_def GenerateJwt_def call_err_def plain_result_def
    by (auto split: prod.splits) (metis fst_conv sum.simps(5))
  have tok: "plain e0" if "json_Token (json l) b = Inl e0" for b e0
    using assms(1) that unfolding plain_errors_def plain_result_def by (metis sum.simps(5))
  from assms(2) show ?thesis
    by (auto simp: getAuthToken_def claims_def authRequest_def call_def Let_def wrapE_Inl_iff
        dest: do body new jwt tok split: if_splits sum.splits prod.splits elim!: bindE_InlE bindE_InrE) (rule new)
qed

text \<open>The four ways an attempt ends.\<close>

text \<open>The end of an attempt, once there is a response; its outcome is an error of a library, a refusal or success.\<close>

definition handle_response :: "(string \<Rightarrow> gerror + 'a) \<Rightarrow> httpResponse \<Rightarrow> ('s, string) eff" where
  "handle_response decode resp =
     bindE (wrapE ''reading response'' (liftE (hr_Body resp))) (\<lambda>body.
     if hr_StatusCode resp \<ge> 400 \<and> hr_StatusCode resp < 500
     then failE (RetryableError (DigdirError ErrClient (hr_Status resp) (hr_StatusCode resp) body))
     else if hr_StatusCode resp \<ge> 500
     then failE (RetryableError (DigdirError ErrServer (hr_Status resp) (hr_StatusCode resp) body))
     else bindE (wrapE ''unmarshalling'' (liftE (decode body))) (\<lambda>_. returnE body))"

lemma handle_response_cases:
  assumes "plain_result (hr_Body resp)" and "\<And>b. plain_result (decode b)" and "handle_response decode resp s = (r, s')"
  obtains (failed) e where "r = Inl e" and "plain e" and "\<forall>b. hr_Body resp = Inr b \<longrightarrow> hr_StatusCode resp < 400"
    | (refused) b where "hr_StatusCode resp \<ge> 400" and "hr_Body resp = Inr b"
        and "r = Inl (Retryable (DigdirError (if hr_StatusCode resp < 500 then ErrClient else ErrServer)
               (hr_Status resp) (hr_StatusCode resp) b))"
    | (accepted) b x where "hr_StatusCode resp < 400" and "hr_Body resp = Inr b" and "decode b = Inr x" and "r = Inr b"
proof (cases "hr_Body resp")
  case (Inl e)
  then have "plain e" using assms(1) by (simp add: plain_result_def)
  moreover have "r = Inl (wrapped ''reading response'' e)"
    using Inl assms(3) by (simp add: handle_response_def bindE_def wrapE_run)
  ultimately show thesis using failed Inl by simp
next
  case (Inr b)
  show thesis
  proof (cases "hr_StatusCode resp \<ge> 400")
    case True
    with assms(3) Inr show thesis
      by (intro refused [of b]) (auto simp: handle_response_def bindE_def wrapE_run RetryableError_def failE_def)
  next
    case False
    show thesis
    proof (cases "decode b")
      case (Inl e)
      then have "plain e" using assms(2) [of b] by (simp add: plain_result_def)
      moreover have "r = Inl (wrapped ''unmarshalling'' e)"
        using assms(3) Inr Inl False by (simp add: handle_response_def bindE_def wrapE_run)
      ultimately show thesis using failed Inr False by simp
    next
      case dec: (Inr x)
      with assms(3) Inr False show thesis
        by (intro accepted [of b x]) (auto simp: handle_response_def bindE_def wrapE_run returnE_def)
    qed
  qed
qed

lemma attempt_cases:
  assumes "plain_errors l" and "\<And>b. plain_result (decode b)"
    and "attempt l c m ep p decode s = (r, s')"
  obtains (unsent) t e where "trace s' = trace s @ t" and "list_all is_token_call t" and "r = Inl e" and "plain e"
    | (failed) t tok res e where "trace s' = trace s @ t @ [Http AdminAPI (apiRequest m ep p tok) res]"
        and "list_all is_token_call t" and "r = Inl e" and "plain e"
        and "\<forall>resp b. res = Inr resp \<and> hr_Body resp = Inr b \<longrightarrow> hr_StatusCode resp < 400"
    | (refused) t tok resp b where "trace s' = trace s @ t @ [Http AdminAPI (apiRequest m ep p tok) (Inr resp)]"
        and "list_all is_token_call t" and "hr_StatusCode resp \<ge> 400" and "hr_Body resp = Inr b"
        and "r = Inl (Retryable (DigdirError (if hr_StatusCode resp < 500 then ErrClient else ErrServer)
               (hr_Status resp) (hr_StatusCode resp) b))"
    | (accepted) t tok resp b x where "trace s' = trace s @ t @ [Http AdminAPI (apiRequest m ep p tok) (Inr resp)]"
        and "list_all is_token_call t" and "hr_StatusCode resp < 400" and "hr_Body resp = Inr b"
        and "decode b = Inr x" and "r = Inr b"
proof -
  obtain ra sa where a: "getAuthToken l c s = (ra, sa)" by (cases "getAuthToken l c s")
  obtain t where t: "trace sa = trace s @ t" "list_all is_token_call t"
    using keepsD [OF emits_getAuthToken a] by (auto simp: emits_def)
  show thesis
  proof (cases ra)
    case (Inl e)
    with a have "plain e" using getAuthToken_error [OF assms(1)] by blast
    moreover have "r = Inl (wrapped ''get auth token'' e)" "s' = sa"
      using assms(3) a Inl by (auto simp: attempt_def bindE_def wrapE_run)
    ultimately show thesis using unsent t by simp
  next
    case (Inr tok)
    show thesis
    proof (cases "net_NewRequest (net l) m ep")
      case (Inl e)
      then have "plain e" using assms(1) unfolding plain_errors_def plain_result_def by (metis sum.simps(5))
      moreover have "r = Inl (wrapped (''creating '' @ m @ '' request'') e)" "s' = sa"
        using assms(3) a Inr Inl by (auto simp: attempt_def bindE_def wrapE_run)
      ultimately show thesis using unsent t by simp
    next
      case new: (Inr u)
      let ?req = "apiRequest m ep p tok"
      obtain res w where do: "net_Do (net l) ?req (world sa) = (res, w)"
        by (cases "net_Do (net l) ?req (world sa)")
      let ?s = "sa\<lparr>world := w, trace := trace sa @ [Http AdminAPI ?req res]\<rparr>"
      have http: "http_do l AdminAPI ?req sa = (res, ?s)" by (simp add: http_do_def do)
      have s': "s' = ?s" and tr: "trace s' = trace s @ t @ [Http AdminAPI ?req res]"
        using assms(3) t by (auto simp: attempt_def bindE_def wrapE_run a Inr new http
            split: sum.splits if_splits)
      show thesis
      proof (cases res)
        case (Inl e)
        then have "plain e" using assms(1) do unfolding plain_errors_def plain_result_def
          by (metis fst_conv sum.simps(5))
        moreover have "r = Inl (wrapped (''doing '' @ m @ '' request to '' @ ep) e)"
          using assms(3) http by (auto simp: attempt_def bindE_def wrapE_run a Inr new Inl)
        ultimately show thesis using failed tr t(2) Inl by simp
      next
        case resp: (Inr resp)
        have run: "handle_response decode resp ?s = (r, s')"
          using assms(3) http by (simp add: attempt_def handle_response_def bindE_def wrapE_run a Inr new resp)
        have "plain_result (hr_Body resp)"
          using assms(1) do resp unfolding plain_errors_def by (metis fst_conv sum.simps(6))
        from this assms(2) run show thesis
        proof (cases rule: handle_response_cases)
          case failed
          with tr t(2) resp show thesis by (intro that(2)) auto
        next
          case refused
          with tr t(2) resp show thesis by (intro that(3)) simp_all
        next
          case accepted
          with tr t(2) resp show thesis by (intro that(4)) simp_all
        qed
      qed
    qed
  qed
qed
lemma emits_attempt: "keeps (emits (request_call m ep p)) (attempt l c m ep p decode)"
  unfolding attempt_def
  by (intro emits.keeps_intros keeps_splits emits_http_do emits_mono [OF emits_getAuthToken])
    (auto simp: request_call_def)

lemma emits_request: "retry_contract (net l) \<Longrightarrow> keeps (emits (request_call m ep p)) (request l c m ep p decode)"
  unfolding request_def Backoff_Do_def by (intro emits.keeps_intros retry_emits emits_attempt)

lemma apiRequest_eq [simp]: "apiRequest m ep p t = apiRequest m ep p t' \<longleftrightarrow> t = t'"
  by (simp add: apiRequest_def)

text \<open>
  What the caller learns from the outcome of a request: a value comes from the body of a response
  with a status below 400; a \<open>*digdir.Error\<close> reports the status and the body of the last response.
\<close>

definition request_reports ::
  "string \<Rightarrow> string \<Rightarrow> string \<Rightarrow> (string \<Rightarrow> gerror + 'a) \<Rightarrow> effect list \<Rightarrow> gerror + 'a \<Rightarrow> bool" where
  "request_reports m ep p decode t r \<longleftrightarrow> (case r of
     Inr x \<Rightarrow> \<exists>t' tok resp b. t = t' @ [Http AdminAPI (apiRequest m ep p tok) (Inr resp)] \<and>
       hr_StatusCode resp < 400 \<and> hr_Body resp = Inr b \<and> decode b = Inr x
   | Inl e \<Rightarrow> (case as_digdir_error e of None \<Rightarrow> True
     | Some (k, status, code, msg) \<Rightarrow> \<exists>t' tok resp.
         t = t' @ [Http AdminAPI (apiRequest m ep p tok) (Inr resp)] \<and>
         code = hr_StatusCode resp \<and> code \<ge> 400 \<and> status = hr_Status resp \<and> hr_Body resp = Inr msg \<and>
         k = (if code < 500 then ErrClient else ErrServer)))"

lemma request_reports_append:
  "request_reports m ep p decode t2 r \<Longrightarrow> request_reports m ep p decode (t1 @ t2) r"
  unfolding request_reports_def
  by (auto split: sum.splits option.splits)

text \<open>
  A refusal, that is a last answer with a status of 400 or more and a readable body, is what the caller
  gets; or the attempt that met it reported it, and then the loop was cancelled or a further attempt
  failed before it sent anything.
\<close>

definition refusal :: "httpResponse \<Rightarrow> string \<Rightarrow> gerror" where
  "refusal resp b = DigdirError (if hr_StatusCode resp < 500 then ErrClient else ErrServer) (hr_Status resp) (hr_StatusCode resp) b"

definition refusal_reported ::
  "('w, 'c) lib \<Rightarrow> config \<Rightarrow> string \<Rightarrow> string \<Rightarrow> string \<Rightarrow> (string \<Rightarrow> gerror + 'a) \<Rightarrow> effect list \<Rightarrow> effect list \<Rightarrow> gerror + 'a \<Rightarrow> bool" where
  "refusal_reported l c m ep p decode t0 t r \<longleftrightarrow> (\<forall>t' tok resp b.
     t = t' @ [Http AdminAPI (apiRequest m ep p tok) (Inr resp)] \<and> hr_StatusCode resp \<ge> 400 \<and> hr_Body resp = Inr b \<longrightarrow>
     r = Inl (refusal resp b) \<or>
     (\<exists>e s0 s1. r = Inl e \<and> as_digdir_error e = None \<and>
        attempt l c m ep p decode s0 = (Inl (Retryable (refusal resp b)), s1) \<and> trace s1 = t0 @ t))"

lemma refusal_reported_after:
  assumes "refusal_reported l c m ep p decode (t0 @ t1) t2 r" and "t2 \<noteq> []"
  shows "refusal_reported l c m ep p decode t0 (t1 @ t2) r"
  unfolding refusal_reported_def
proof (intro allI impI, elim conjE)
  fix t' tok resp b
  assume eq: "t1 @ t2 = t' @ [Http AdminAPI (apiRequest m ep p tok) (Inr resp)]" and r: "hr_StatusCode resp \<ge> 400" "hr_Body resp = Inr b"
  have "t2 = butlast t2 @ [Http AdminAPI (apiRequest m ep p tok) (Inr resp)]"
    using arg_cong [OF eq, of last] assms(2) by (metis append_butlast_last_id last_appendR last_snoc)
  with assms(1) r show "r = Inl (refusal resp b) \<or>
     (\<exists>e s0 s1. r = Inl e \<and> as_digdir_error e = None \<and>
        attempt l c m ep p decode s0 = (Inl (Retryable (refusal resp b)), s1) \<and> trace s1 = t0 @ t1 @ t2)"
    unfolding refusal_reported_def append_assoc by blast
qed

definition body_of :: "(string \<Rightarrow> gerror + 'a) \<Rightarrow> gerror + string \<Rightarrow> gerror + 'a" where
  "body_of decode r = (case r of Inl e \<Rightarrow> Inl e | Inr b \<Rightarrow> decode b)"

lemma no_admin_in_tokens: "list_all is_token_call t \<Longrightarrow> filter is_admin_call t = []"
proof (induction t)
  case (Cons e t)
  then show ?case by (cases e rule: is_token_call.cases) auto
qed simp

text \<open>One attempt, as the last one of a request or as one that is followed by another.\<close>

lemma attempt_refusal:
  assumes "plain_errors l" and "\<And>b. plain_result (decode b)" and "attempt l c m ep p decode s = (r, s')"
    and "trace s' = trace s @ t' @ [Http AdminAPI (apiRequest m ep p tok) (Inr resp)]"
    and "hr_StatusCode resp \<ge> 400" and "hr_Body resp = Inr b"
  shows "r = Inl (Retryable (refusal resp b))"
  using assms(1-3)
proof (cases rule: attempt_cases)
  case (unsent t e)
  with assms(4) show ?thesis by simp
next
  case (failed t tok' res e)
  then have res: "res = Inr resp" using assms(4) by simp
  with failed(5) assms(5,6) show ?thesis by fastforce
next
  case (refused t tok' resp' b')
  with assms(4,6) show ?thesis by (simp add: refusal_def)
next
  case (accepted t tok' resp' b' x)
  with assms(4,5) show ?thesis by simp
qed

lemma attempt_reported:
  assumes "plain_errors l" and "\<And>b. plain_result (decode b)" and "attempt l c m ep p decode s = (Inl e, s')"
    and "trace s' = trace s @ t"
    and "\<And>e0. as_retryable e = Some e0 \<Longrightarrow> x = e0 \<or> as_digdir_error x = None \<and> trace s' = t0 @ t"
  shows "refusal_reported l c m ep p decode t0 t (Inl x)"
  unfolding refusal_reported_def
proof (intro allI impI, elim conjE)
  fix t' tok resp b
  assume t: "t = t' @ [Http AdminAPI (apiRequest m ep p tok) (Inr resp)]" and r: "hr_StatusCode resp \<ge> 400" "hr_Body resp = Inr b"
  have e: "e = Retryable (refusal resp b)"
    using attempt_refusal [OF assms(1-3) _ r] assms(4) t by simp
  have "x = refusal resp b \<or> as_digdir_error x = None \<and> trace s' = t0 @ t" using assms(5) unfolding e by simp
  with assms(3) show "Inl x = Inl (refusal resp b) \<or>
      (\<exists>e s0 s1. Inl x = Inl e \<and> as_digdir_error e = None \<and>
         attempt l c m ep p decode s0 = (Inl (Retryable (refusal resp b)), s1) \<and> trace s1 = t0 @ t)"
    unfolding e by blast
qed

lemma retry_attempts:
  assumes "plain_errors l" and "\<And>b. plain_result (decode b)"
    and "retry_run (attempt l c m ep p decode) n s r"
  shows "\<exists>t. trace (snd r) = trace s @ t \<and> length (filter is_admin_call t) \<le> n \<and>
    request_reports m ep p decode t (body_of decode (fst r)) \<and>
    refusal_reported l c m ep p decode (trace s) t (body_of decode (fst r))"
  using assms(3)
proof induction
  case (cancelled s e)
  then show ?case by (simp add: request_reports_def refusal_reported_def body_of_def)
next
  case (success s x s')
  from success show ?case
    by (cases rule: attempt_cases [OF assms(1,2)])
      (auto simp: request_reports_def refusal_reported_def body_of_def no_admin_in_tokens)
next
  case (final s e s')
  have rep: "refusal_reported l c m ep p decode (trace s) t (Inl e)" if "trace s' = trace s @ t" for t
    by (rule attempt_reported [OF assms(1,2) final(1) that]) (use final(2) in simp)
  from final(1) show ?case
    by (cases rule: attempt_cases [OF assms(1,2)])
      (use final(2) rep in \<open>auto simp: request_reports_def body_of_def no_admin_in_tokens plain_def\<close>)
next
  case (exhausted s e s' e0)
  have rep: "refusal_reported l c m ep p decode (trace s) t (Inl e0)" if "trace s' = trace s @ t" for t
    by (rule attempt_reported [OF assms(1,2) exhausted(1) that]) (use exhausted(2) in simp)
  from exhausted(1) show ?case
    by (cases rule: attempt_cases [OF assms(1,2)])
      (use exhausted(2) rep in \<open>auto simp: request_reports_def body_of_def no_admin_in_tokens plain_def\<close>)
next
  case (again s e s' e0 n w r)
  from again(1) obtain t1 where t1: "trace s' = trace s @ t1" "length (filter is_admin_call t1) \<le> 1"
    by (cases rule: attempt_cases [OF assms(1,2)]) (auto simp: no_admin_in_tokens)
  from again(4) obtain t2 where t2: "trace (snd r) = trace s' @ t2" "length (filter is_admin_call t2) \<le> n"
    "request_reports m ep p decode t2 (body_of decode (fst r))"
    "refusal_reported l c m ep p decode (trace s') t2 (body_of decode (fst r))" by auto
  have "refusal_reported l c m ep p decode (trace s) (t1 @ t2) (body_of decode (fst r))"
  proof (cases "t2 = []")
    case True
    with t2(3) obtain x where x: "body_of decode (fst r) = Inl x" "as_digdir_error x = None"
      by (auto simp: request_reports_def split: sum.splits option.splits)
    show ?thesis unfolding True x(1) append_Nil2
      by (rule attempt_reported [OF assms(1,2) again(1) t1(1)]) (use t1(1) x(2) in simp)
  next
    case False
    with t2(4) t1(1) show ?thesis by (intro refusal_reported_after) simp_all
  qed
  then show ?case
    by (intro exI [of _ "t1 @ t2"]) (use t1 t2 request_reports_append in auto)
qed

lemma request_run:
  assumes "retry_contract (net l)" and "plain_errors l" and "\<And>b. plain_result (decode b)"
    and "request l c m ep p decode s = (r, s')"
  shows "\<exists>t. trace s' = trace s @ t \<and> length (filter is_admin_call t) \<le> 6 \<and>
    request_reports m ep p decode t r \<and> refusal_reported l c m ep p decode (trace s) t r"
proof -
  let ?bo = "WithMaxAttempts retryMaxAttempts (Fibonacci retryInitialDelay)"
  let ?f = "attempt l c m ep p decode"
  have max: "bo_MaxRetries ?bo = Some 5" by (simp add: WithMaxAttempts_def retryMaxAttempts_def)
  obtain k where k: "retry_run ?f k s (net_Retry (net l) ?bo ?f s)" "k \<le> 6"
    using assms(1) [unfolded retry_contract_def, rule_format, of ?f s ?bo] unfolding max by auto
  from retry_attempts [OF assms(2,3) k(1)]
  obtain t where t: "trace (snd (net_Retry (net l) ?bo ?f s)) = trace s @ t"
      "length (filter is_admin_call t) \<le> k"
      "request_reports m ep p decode t (body_of decode (fst (net_Retry (net l) ?bo ?f s)))"
      "refusal_reported l c m ep p decode (trace s) t (body_of decode (fst (net_Retry (net l) ?bo ?f s)))"
    by blast
  have "r = body_of decode (fst (net_Retry (net l) ?bo ?f s)) \<and> s' = snd (net_Retry (net l) ?bo ?f s)"
    using assms(4) by (auto simp: request_def Backoff_Do_def bindE_def body_of_def split: prod.splits sum.splits)
  with t k(2) show ?thesis by (intro exI [of _ t]) simp
qed


text \<open>Requests against the demonstration libraries.\<close>

definition demo_token_request :: httpRequest where
  "demo_token_request = \<lparr>rq_Method = MethodPost, rq_URL = ''https://token'',
    rq_Headers = [(''Content-Type'', applicationFormUrlEncoded)],
    rq_Body = values_encode [(''grant_type'', grantType), (''assertion'', ''jwt'')]\<rparr>"

lemma demo_token:
  assumes "respond demo_token_request = ok_response"
  shows "getAuthToken (demo_lib respond regs i) demo_config s =
    (Inr ''body'', s\<lparr>world := world s + 4, trace := trace s @ [Http TokenEndpoint demo_token_request (Inr ok_response)]\<rparr>)"
  using assms unfolding demo_token_request_def
  by (simp add: getAuthToken_def claims_def GenerateJwt_def authRequest_def bindE_def wrapE_run call_def
      call_err_def http_do_def demo_net_def demo_sys_def demo_codec_def ok_response_def demo_config_def
      demo_metadata_def returnE_def liftE_def)

lemma demo_request_ok:
  assumes "respond demo_token_request = ok_response" and "respond (apiRequest m ep p ''body'') = ok_response"
    and "decode ''body'' = Inr x"
  shows "request (demo_lib respond regs i) demo_config m ep p decode s =
    (Inr x, s\<lparr>world := world s + 5, trace := trace s @ [Http TokenEndpoint demo_token_request (Inr ok_response),
       Http AdminAPI (apiRequest m ep p ''body'') (Inr ok_response)]\<rparr>)"
proof -
  have step: "attempt (demo_lib respond regs i) demo_config m ep p decode s =
      (Inr ''body'', s\<lparr>world := world s + 5, trace := trace s @ [Http TokenEndpoint demo_token_request (Inr ok_response),
           Http AdminAPI (apiRequest m ep p ''body'') (Inr ok_response)]\<rparr>)"
    using assms(2,3) by (simp add: attempt_def bindE_def wrapE_run demo_token [of respond, OF assms(1)] http_do_def demo_net_def
        ok_response_def returnE_def liftE_def)
  have "retry_loop (Suc n) (attempt (demo_lib respond regs i) demo_config m ep p decode) s =
      attempt (demo_lib respond regs i) demo_config m ep p decode s" for n
    by (simp add: step)
  from this [of 4] step show ?thesis
    by (simp add: request_def Backoff_Do_def demo_net_def WithMaxAttempts_def retryMaxAttempts_def bindE_def
        assms(3) liftE_def)
qed

lemma demo_request_all_ok:
  assumes "\<not> isl (decode ''body'')"
  shows "request (demo_lib (\<lambda>_. ok_response) regs i) demo_config m ep p decode s =
    (decode ''body'', s\<lparr>world := world s + 5, trace := trace s @ [Http TokenEndpoint demo_token_request (Inr ok_response),
       Http AdminAPI (apiRequest m ep p ''body'') (Inr ok_response)]\<rparr>)"
proof -
  obtain x where "decode ''body'' = Inr x" using assms by (cases "decode ''body''") auto
  then show ?thesis by (simp add: demo_request_ok)
qed
definition down_response :: httpResponse where
  "down_response = \<lparr>hr_StatusCode = 503, hr_Status = ''503 Service Unavailable'', hr_Body = Inr ''down''\<rparr>"

lemma demo_refused:
  assumes "hr_StatusCode resp \<ge> 400" and "hr_Body resp = Inr b"
  shows "request (demo_lib (\<lambda>r. if rq_URL r = ''https://token'' then ok_response else resp) [] demo_idporten)
    demo_config ''PUT'' ''u'' '''' (Inr :: string \<Rightarrow> gerror + string) (demo_state demo_idporten) =
      (Inl (refusal resp b), (demo_state demo_idporten)\<lparr>world := 30, trace := concat (replicate 6
         [Http TokenEndpoint demo_token_request (Inr ok_response), Http AdminAPI (apiRequest ''PUT'' ''u'' '''' ''body'') (Inr resp)])\<rparr>)"
proof -
  let ?l = "demo_lib (\<lambda>r. if rq_URL r = ''https://token'' then ok_response else resp) [] demo_idporten"
  have token: "getAuthToken ?l demo_config s =
      (Inr ''body'', s\<lparr>world := world s + 4, trace := trace s @ [Http TokenEndpoint demo_token_request (Inr ok_response)]\<rparr>)" for s
    by (rule demo_token) (simp add: demo_token_request_def)
  have step: "attempt ?l demo_config ''PUT'' ''u'' '''' (Inr :: string \<Rightarrow> gerror + string) s =
      (Inl (Retryable (refusal resp b)),
       s\<lparr>world := world s + 5, trace := trace s @ [Http TokenEndpoint demo_token_request (Inr ok_response),
           Http AdminAPI (apiRequest ''PUT'' ''u'' '''' ''body'') (Inr resp)]\<rparr>)" for s
    using assms by (auto simp: attempt_def bindE_def wrapE_run token http_do_def demo_net_def refusal_def
        apiRequest_def RetryableError_def failE_def liftE_def)
  have "request ?l demo_config ''PUT'' ''u'' '''' (Inr :: string \<Rightarrow> gerror + string) s =
      retry_loop 5 (attempt ?l demo_config ''PUT'' ''u'' '''' (Inr :: string \<Rightarrow> gerror + string)) s" for s
    by (simp add: request_def Backoff_Do_def demo_net_def WithMaxAttempts_def retryMaxAttempts_def bindE_def
        liftE_def split: prod.split sum.split)
  then show ?thesis by (simp add: step eval_nat_numeral demo_state_def)
qed

section \<open>Calls by path\<close>

text \<open>
  The URL of a path of the API, a call to it, and a call that was answered with a status below 400
  and a body that decodes to a value.
\<close>

definition api_url :: "('w, 'c) lib \<Rightarrow> config \<Rightarrow> string list \<Rightarrow> string" where
  "api_url l c path = (case ApiV1URL (net_URL (net l)) (cfg_Admin c) of
     Inl _ \<Rightarrow> '''' | Inr base \<Rightarrow> url_String (net_URL (net l)) (url_JoinPath (net_URL (net l)) base path))"

definition api_call :: "('w, 'c) lib \<Rightarrow> config \<Rightarrow> string \<Rightarrow> string list \<Rightarrow> string \<Rightarrow> effect \<Rightarrow> bool" where
  "api_call l c m path q e \<longleftrightarrow> is_token_call e \<or>
     (\<exists>p tok r. e = Http AdminAPI (apiRequest m (api_url l c path @ q) p tok) r)"

definition answered ::
  "('w, 'c) lib \<Rightarrow> config \<Rightarrow> string \<Rightarrow> string list \<Rightarrow> string \<Rightarrow> string \<Rightarrow> (string \<Rightarrow> gerror + 'a) \<Rightarrow> 'a \<Rightarrow> effect \<Rightarrow> bool" where
  "answered l c m path q p decode x e \<longleftrightarrow> (\<exists>tok resp b.
     e = Http AdminAPI (apiRequest m (api_url l c path @ q) p tok) (Inr resp) \<and>
     hr_StatusCode resp < 400 \<and> hr_Body resp = Inr b \<and> decode b = Inr x)"

lemma endpoint_Inr: "endpoint l c path s = (Inr ep, s') \<longleftrightarrow>
    (\<exists>base. ApiV1URL (net_URL (net l)) (cfg_Admin c) = Inr base) \<and> ep = api_url l c path \<and> s' = s"
  by (auto simp: endpoint_def api_url_def bindE_def split: sum.splits prod.splits)

lemma endpoint_Inl: "endpoint l c path s = (Inl e, s') \<longleftrightarrow>
    ApiV1URL (net_URL (net l)) (cfg_Admin c) = Inl e \<and> s' = s"
  by (auto simp: endpoint_def bindE_def split: sum.splits prod.splits)

lemma endpoint_frame:
  assumes "state_preorder R" and "\<And>base. ApiV1URL (net_URL (net l)) (cfg_Admin c) = Inr base \<Longrightarrow> keeps R (k (api_url l c path))"
  shows "keeps R (bindE (endpoint l c path) k)"
proof (cases "ApiV1URL (net_URL (net l)) (cfg_Admin c)")
  case (Inl e)
  then have "bindE (endpoint l c path) k = failE e"
    by (simp add: bindE_def endpoint_def failE_def liftE_def fun_eq_iff)
  then show ?thesis using state_preorder.keeps_failE [OF assms(1)] by simp
next
  case (Inr base)
  then have "bindE (endpoint l c path) k = k (api_url l c path)"
    by (simp add: bindE_def endpoint_def returnE_def liftE_def api_url_def fun_eq_iff)
  then show ?thesis using assms(2) [OF Inr] by simp
qed

lemma emits_request_call:
  assumes "retry_contract (net l)"
  shows "keeps (emits (api_call l c m path q)) (request l c m (api_url l c path @ q) p decode)"
  by (rule emits_mono [OF emits_request [OF assms]]) (auto simp: request_call_def api_call_def)

lemma emits_request_call0:
  "retry_contract (net l) \<Longrightarrow> keeps (emits (api_call l c m path '''')) (request l c m (api_url l c path) p decode)"
  using emits_request_call [of l c m path "''''"] by simp

lemmas emits_endpoint = endpoint_frame [OF emits.state_preorder_axioms]
lemmas same_inst_endpoint = endpoint_frame [OF same_inst.state_preorder_axioms]

lemma emits_cache_set [frame_intros]: "keeps (emits P) (cache_set l k v x)"
  by (auto simp: keeps_def cache_set_def bindE_def call_def emits_def split: prod.split)

lemma emits_cache_get [frame_intros]: "keeps (emits P) (cache_get l k)"
  by (auto simp: keeps_def cache_get_def bindE_def call_def emits_def split: prod.split)

lemma same_inst_cache_set [frame_intros]: "keeps same_inst (cache_set l k v x)"
  by (auto simp: keeps_def cache_set_def bindE_def call_def same_inst_def split: prod.split)

lemma same_inst_cache_get [frame_intros]: "keeps same_inst (cache_get l k)"
  by (auto simp: keeps_def cache_get_def bindE_def call_def same_inst_def split: prod.split)

lemmas client_op_defs = Register_def GetRegistration_def Exists_def Update_def Delete_def GetKeys_def
  RegisterKeys_def GetAccessibleScopes_def GetOpenScopes_def GetScopes_def RegisterScope_def UpdateScope_def
  DeleteScope_def GetScopeACL_def AddToScopeACL_def DeactivateConsumer_def

text \<open>Each operation calls its own path only, and changes neither the object nor its client ID.\<close>

lemma emits_ops:
  assumes retry: "retry_contract (net l)"
  shows
  "keeps (emits (api_call l c MethodPost [''clients''] '''')) (Register l c payload)"
  "keeps (emits (api_call l c MethodGet [''clients''] '''')) (GetRegistration l c cn)"
  "keeps (emits (api_call l c MethodGet [''clients''] '''')) (Exists l c cn)"
  "keeps (emits (api_call l c MethodPut [''clients'', cid] '''')) (Update l c payload cid)"
  "keeps (emits (api_call l c MethodDelete [''clients'', cid] '''')) (Delete l c cid)"
  "keeps (emits (api_call l c MethodGet [''clients'', cid, ''jwks''] '''')) (GetKeys l c cid)"
  "keeps (emits (api_call l c MethodPost [''clients'', cid, ''jwks''] '''')) (RegisterKeys l c cid keys)"
  "keeps (emits (api_call l c MethodGet [''scopes'', ''access'', ''all''] '''')) (GetAccessibleScopes l c)"
  "keeps (emits (api_call l c MethodGet [''scopes'', ''all''] ''?accessible_for_all=true'')) (GetOpenScopes l c)"
  "keeps (emits (api_call l c MethodGet [''scopes''] ''?inactive=true'')) (GetScopes l c)"
  "keeps (emits (api_call l c MethodPost [''scopes''] '''')) (RegisterScope l c sreg)"
  "keeps (emits (api_call l c MethodPut [''scopes''] (''?scope='' @ QueryEscape scp))) (UpdateScope l c sreg scp)"
  "keeps (emits (api_call l c MethodDelete [''scopes''] (''?scope='' @ QueryEscape scp))) (DeleteScope l c scp)"
  "keeps (emits (api_call l c MethodGet [''scopes'', ''access''] (''?scope='' @ QueryEscape scp))) (GetScopeACL l c scp)"
  "keeps (emits (api_call l c MethodPut [''scopes'', ''access'', org] (''?scope='' @ QueryEscape scp)))
     (AddToScopeACL l c scp org)"
  "keeps (emits (api_call l c MethodDelete [''scopes'', ''access'', org] (''?scope='' @ QueryEscape scp)))
     (DeactivateConsumer l c scp org)"
  unfolding client_op_defs
  by (intro emits_endpoint emits.keeps_intros keeps_splits emits_request_call [OF retry]
      emits_request_call0 [OF retry] emits_the_inst emits_modify_status emits_cache_set)+

lemma same_inst_ops:
  assumes retry: "retry_contract (net l)"
  shows
  "keeps same_inst (Register l c payload)"
  "keeps same_inst (Update l c payload cid)"
  "keeps same_inst (Delete l c cid)"
  "keeps same_inst (GetKeys l c cid)"
  "keeps same_inst (RegisterKeys l c cid keys)"
  "keeps same_inst (GetAccessibleScopes l c)"
  "keeps same_inst (GetOpenScopes l c)"
  "keeps same_inst (GetScopes l c)"
  "keeps same_inst (RegisterScope l c sreg)"
  "keeps same_inst (UpdateScope l c sreg scp)"
  "keeps same_inst (DeleteScope l c scp)"
  "keeps same_inst (GetScopeACL l c scp)"
  "keeps same_inst (AddToScopeACL l c scp org)"
  "keeps same_inst (DeactivateConsumer l c scp org)"
  unfolding client_op_defs
  by (intro same_inst_endpoint same_inst.keeps_intros same_inst.keeps_request [OF retry] same_inst_cache_set)+

lemmas same_client_ops = same_inst_ops [THEN same_inst_client]

text \<open>A successful request ends with the call that was answered.\<close>

lemma retry_run_Inr:
  assumes "retry_run f n s r" and "fst r = Inr x" and "keeps (emits P) f"
  shows "\<exists>s1. emits P s s1 \<and> f s1 = (Inr x, snd r)"
  using assms(1,2)
proof induction
  case (success s y s')
  then show ?case by (auto intro: emits_same_trace)
next
  case (again s e s' e0 n w r)
  then obtain s1 where s1: "emits P (s'\<lparr>world := w\<rparr>) s1" "f s1 = (Inr x, snd r)" by blast
  have "emits P s s'" by (rule keepsD [OF assms(3) again(1)])
  then have "emits P s s1" using s1(1) by (auto simp: emits_def)
  with s1(2) show ?case by blast
qed auto

lemma attempt_Inr:
  assumes "attempt l c m ep p decode s = (Inr b, s')"
  shows "\<exists>t tok resp. trace s' = trace s @ t @ [Http AdminAPI (apiRequest m ep p tok) (Inr resp)] \<and>
    list_all is_token_call t \<and> hr_StatusCode resp < 400 \<and> hr_Body resp = Inr b"

proof -
  from assms obtain tok sa resp where a: "getAuthToken l c s = (Inr tok, sa)"
    and h: "http_do l AdminAPI (apiRequest m ep p tok) sa = (Inr resp, s')"
    and r: "hr_Body resp = Inr b" "hr_StatusCode resp < 400"
    unfolding attempt_def by (auto elim!: bindE_InrE split: if_splits)
  obtain t where t: "trace sa = trace s @ t" "list_all is_token_call t"
    using keepsD [OF emits_getAuthToken a] by (auto simp: emits_def)
  from h have "trace s' = trace sa @ [Http AdminAPI (apiRequest m ep p tok) (Inr resp)]"
    by (auto simp: http_do_def split: prod.splits)
  with t r show ?thesis by auto
qed
lemma request_Inr:
  assumes "retry_contract (net l)" and "request l c m ep p decode s = (Inr x, s')"
  shows "\<exists>t tok resp b. trace s' = trace s @ t @ [Http AdminAPI (apiRequest m ep p tok) (Inr resp)] \<and>
    list_all (request_call m ep p) t \<and> hr_StatusCode resp < 400 \<and> hr_Body resp = Inr b \<and> decode b = Inr x"
proof -
  let ?bo = "WithMaxAttempts retryMaxAttempts (Fibonacci retryInitialDelay)"
  let ?f = "attempt l c m ep p decode"
  obtain b where b: "net_Retry (net l) ?bo ?f s = (Inr b, s')" "decode b = Inr x"
    using assms(2) unfolding request_def Backoff_Do_def by (auto elim!: bindE_InrE)
  obtain k where "retry_run ?f k s (Inr b, s')"
    using assms(1) b(1) unfolding retry_contract_def by metis
  from retry_run_Inr [OF this _ emits_attempt] obtain s1 where
    s1: "emits (request_call m ep p) s s1" "?f s1 = (Inr b, s')" by auto
  obtain t tok resp where t: "trace s' = trace s1 @ t @ [Http AdminAPI (apiRequest m ep p tok) (Inr resp)]"
    "list_all is_token_call t" "hr_StatusCode resp < 400" "hr_Body resp = Inr b"
    using attempt_Inr [OF s1(2)] by blast
  obtain t1 where t1: "trace s1 = trace s @ t1" "list_all (request_call m ep p) t1"
    using s1(1) by (auto simp: emits_def)
  have "list_all (request_call m ep p) t" using t(2) by (simp add: list_all_iff request_call_def)
  then show ?thesis
    by (intro exI [of _ "t1 @ t"] exI [of _ tok] exI [of _ resp] exI [of _ b]) (use t t1 b(2) in auto)
qed

lemma request_answered:
  assumes "retry_contract (net l)" and "request l c m (api_url l c path @ q) p decode s = (Inr x, s')"
  shows "\<exists>t e. trace s' = trace s @ t @ [e] \<and> list_all (api_call l c m path q) t \<and>
    answered l c m path q p decode x e"
proof -
  obtain t tok resp b where
    *: "trace s' = trace s @ t @ [Http AdminAPI (apiRequest m (api_url l c path @ q) p tok) (Inr resp)]"
      "list_all (request_call m (api_url l c path @ q) p) t"
      "hr_StatusCode resp < 400" "hr_Body resp = Inr b" "decode b = Inr x"
    using request_Inr [OF assms] by blast
  have "list_all (api_call l c m path q) t"
    using *(2) by (auto simp: list_all_iff request_call_def api_call_def)
  with * show ?thesis by (auto simp: answered_def)
qed

section \<open>Escaped scope names\<close>

lemma quotient_remainder_unique: "(a::nat) div n = a' div n \<Longrightarrow> a mod n = a' mod n \<Longrightarrow> a = a'"
  by (metis div_mult_mod_eq)

lemma upper_hex_inj: "i < 16 \<Longrightarrow> j < 16 \<Longrightarrow> upper_hex i = upper_hex j \<Longrightarrow> i = j"
proof -
  assume i: "i < 16" and j: "j < 16" and eq: "upper_hex i = upper_hex j"
  have code: "of_char (upper_hex n) = (if n < 10 then 48 + n else 55 + n)" if "n < 16" for n
    using that by (simp add: upper_hex_def)
  from eq have "of_char (upper_hex i) = (of_char (upper_hex j) :: nat)" by simp
  then show "i = j" unfolding code [OF i] code [OF j] using i j by (simp split: if_splits)
qed

lemma escape_char_cases:
  obtains (plain) "unreserved a" and "escape_char a = [a]"
    | (space) "\<not> unreserved a" and "of_char a = (32::nat)" and "escape_char a = [char_of (43::nat)]"
    | (hex) "\<not> unreserved a" and "of_char a \<noteq> (32::nat)"
        and "escape_char a = [char_of (37::nat), upper_hex (of_char a div 16), upper_hex (of_char a mod 16)]"
  by (cases "unreserved a"; cases "of_char a = (32::nat)") (auto simp: escape_char_def Let_def)

lemma not_unreserved [simp]: "\<not> unreserved (char_of (37::nat))" "\<not> unreserved (char_of (43::nat))"
  by (simp_all add: unreserved_def)

lemma escape_char_prefix_free:
  assumes "escape_char a @ x = escape_char b @ y"
  shows "a = b \<and> x = y"
proof -
  have pct: "char_of (37::nat) \<noteq> char_of (43::nat)"
  proof
    assume "char_of (37::nat) = char_of (43::nat)"
    then have "of_char (char_of (37::nat)) = (of_char (char_of (43::nat)) :: nat)" by simp
    then show False by simp
  qed
  show ?thesis
  proof (cases a rule: escape_char_cases)
    case plain
    with assms show ?thesis by (cases b rule: escape_char_cases) auto
  next
    case space
    with assms pct show ?thesis
      by (cases b rule: escape_char_cases) (auto, metis of_char_eq_iff)
  next
    case a: hex
    show ?thesis
    proof (cases b rule: escape_char_cases)
      case hex
      have "(of_char b :: nat) < 256" "(of_char a :: nat) < 256" by simp_all
      then have "of_char a div 16 < (16::nat)" "of_char b div 16 < (16::nat)" by (simp_all add: less_mult_imp_div_less)
      moreover have "upper_hex (of_char a div 16) = upper_hex (of_char b div 16)"
        "upper_hex (of_char a mod 16) = upper_hex (of_char b mod 16)" "x = y"
        using assms a hex by auto
      ultimately have "of_char a div 16 = (of_char b div 16 :: nat)" "of_char a mod 16 = (of_char b mod 16 :: nat)"
        using upper_hex_inj by auto
      then have "of_char a = (of_char b :: nat)" by (rule quotient_remainder_unique)
      with \<open>x = y\<close> show ?thesis by (metis of_char_eq_iff)
    qed (use assms a pct in auto)
  qed
qed

lemma QueryEscape_inj: "QueryEscape s = QueryEscape t \<Longrightarrow> s = t"
proof (induction s arbitrary: t)
  case Nil
  then show ?case
    by (cases t) (auto simp: QueryEscape_def escape_char_def Let_def split: if_splits)
next
  case (Cons a s)
  show ?case
  proof (cases t)
    case Nil
    with Cons.prems show ?thesis
      by (auto simp: QueryEscape_def escape_char_def Let_def split: if_splits)
  next
    case (Cons b t')
    with Cons.prems have "escape_char a @ QueryEscape s = escape_char b @ QueryEscape t'"
      by (simp add: QueryEscape_def)
    with escape_char_prefix_free have "a = b" "QueryEscape s = QueryEscape t'" by blast+
    with Cons Cons.IH show ?thesis by blast
  qed
qed

lemma upper_hex_unreserved: "n < 16 \<Longrightarrow> unreserved (upper_hex n)"
  by (simp add: upper_hex_def unreserved_def Let_def)

text \<open>
  The escaping of scope names is injective, and an escaped name consists of unreserved characters,
  the percent sign and the plus sign, so that it cannot end the query parameter or start another one.
\<close>

lemma query_escape_injective:
  "inj QueryEscape \<and> list_all (\<lambda>x. unreserved x \<or> x = char_of (37::nat) \<or> x = char_of (43::nat)) (QueryEscape s)"
proof
  show "inj QueryEscape" using QueryEscape_inj by (rule injI)
  have "list_all (\<lambda>x. unreserved x \<or> x = char_of (37::nat) \<or> x = char_of (43::nat)) (escape_char a)" for a
  proof (cases a rule: escape_char_cases)
    case hex
    have "(of_char a :: nat) < 256" by simp
    then have "of_char a div 16 < (16::nat)" by (simp add: less_mult_imp_div_less)
    with hex show ?thesis using upper_hex_unreserved by simp
  qed simp_all
  then show "list_all (\<lambda>x. unreserved x \<or> x = char_of (37::nat) \<or> x = char_of (43::nat)) (QueryEscape s)"
    by (induction s) (simp_all add: QueryEscape_def)
qed

section \<open>Finding the registration of a client\<close>

lemma GetRegistration_Inr:
  assumes "retry_contract (net l)" and "GetRegistration l c cn s = (Inr res, s')"
  shows "\<exists>regs t e. trace s' = trace s @ t @ [e] \<and> list_all (api_call l c MethodGet [''clients''] '''') t \<and>
    answered l c MethodGet [''clients''] '''' '''' (json_Clients (json l)) regs e \<and>
    res = List.find (\<lambda>r. clientMatches l r (inst s) cn) regs \<and>
    inst s' = (case res of None \<Rightarrow> inst s
      | Some r \<Rightarrow> (inst s)\<lparr>inst_Status := (inst_Status (inst s))\<lparr>st_ClientID := cr_ClientID r\<rparr>\<rparr>)"
proof -
  obtain regs s1 where r: "request l c MethodGet (api_url l c [''clients''] @ '''') '''' (json_Clients (json l)) s = (Inr regs, s1)"
    and k: "(case List.find (\<lambda>actual. clientMatches l actual (inst s1) cn) regs of
       Some actual \<Rightarrow>
         bindE (modify_status (\<lambda>st. st\<lparr>st_ClientID := cr_ClientID actual\<rparr>)) (\<lambda>_. returnE (Some actual))
     | None \<Rightarrow> returnE None) s1 = (Inr res, s')"
    using assms(2) unfolding GetRegistration_def the_inst_def
    by (auto simp: endpoint_Inr elim!: bindE_InrE)
  have i: "inst s1 = inst s"
    using keepsD [OF same_inst.keeps_request [OF assms(1)] r] by (simp add: same_inst_def)
  obtain t e where te: "trace s1 = trace s @ t @ [e]" "list_all (api_call l c MethodGet [''clients''] '''') t"
    "answered l c MethodGet [''clients''] '''' '''' (json_Clients (json l)) regs e"
    using request_answered [OF assms(1) r] by blast
  have res: "res = List.find (\<lambda>r. clientMatches l r (inst s) cn) regs"
    and tr: "trace s' = trace s1"
    and s': "inst s' = (case res of None \<Rightarrow> inst s
      | Some r \<Rightarrow> (inst s)\<lparr>inst_Status := (inst_Status (inst s))\<lparr>st_ClientID := cr_ClientID r\<rparr>\<rparr>)"
    using k i by (auto simp: modify_status_def bindE_def returnE_def split: option.splits)
  show ?thesis
    by (intro exI [of _ regs] exI [of _ t] exI [of _ e] conjI te res s') (simp add: tr te)
qed

text \<open>
  C12: the registration of a resource is looked up in the list that DigDir returns. A resource with a
  client ID finds exactly a registration with that ID and keeps it; a resource without one finds
  the first registration with its description and integration type, and adopts its ID.
\<close>

theorem get_registration_match:
  assumes "retry_contract (net l)" and "GetRegistration l c cn s = (Inr res, s')"
  shows "\<exists>regs t e. trace s' = trace s @ t @ [e] \<and>
    answered l c MethodGet [''clients''] '''' '''' (json_Clients (json l)) regs e \<and>
    (if st_ClientID (inst_Status (inst s)) \<noteq> ''''
     then res = List.find (\<lambda>r. cr_ClientID r = st_ClientID (inst_Status (inst s))) regs \<and> inst s' = inst s
     else res = List.find (\<lambda>r. cr_Description r = kube_URN (kube l) (inst_Meta (inst s)) cn \<and>
              cr_IntegrationType r = GetIntegrationType (inst s)) regs \<and>
          st_ClientID (inst_Status (inst s')) = (case res of None \<Rightarrow> '''' | Some r \<Rightarrow> cr_ClientID r))"
proof -
  obtain regs t e where *: "trace s' = trace s @ t @ [e]"
    "answered l c MethodGet [''clients''] '''' '''' (json_Clients (json l)) regs e"
    "res = List.find (\<lambda>r. clientMatches l r (inst s) cn) regs"
    "inst s' = (case res of None \<Rightarrow> inst s
      | Some r \<Rightarrow> (inst s)\<lparr>inst_Status := (inst_Status (inst s))\<lparr>st_ClientID := cr_ClientID r\<rparr>\<rparr>)"
    using GetRegistration_Inr [OF assms] by blast
  show ?thesis
  proof (intro exI [of _ regs] exI [of _ t] exI [of _ e] conjI *(1,2))
    show "if st_ClientID (inst_Status (inst s)) \<noteq> ''''
     then res = List.find (\<lambda>r. cr_ClientID r = st_ClientID (inst_Status (inst s))) regs \<and> inst s' = inst s
     else res = List.find (\<lambda>r. cr_Description r = kube_URN (kube l) (inst_Meta (inst s)) cn \<and>
              cr_IntegrationType r = GetIntegrationType (inst s)) regs \<and>
          st_ClientID (inst_Status (inst s')) = (case res of None \<Rightarrow> '''' | Some r \<Rightarrow> cr_ClientID r)"
    proof (cases "st_ClientID (inst_Status (inst s)) = ''''")
      case True
      with * show ?thesis by (auto simp: clientMatches_def split: option.splits)
    next
      case False
      then have res: "res = List.find (\<lambda>r. cr_ClientID r = st_ClientID (inst_Status (inst s))) regs"
        using *(3) by (simp add: clientMatches_def)
      then have "cr_ClientID r = st_ClientID (inst_Status (inst s))" if "res = Some r" for r
        using find_SomeD [OF that [unfolded res]] by simp
      with *(4) have "inst s' = inst s" by (auto split: option.splits)
      with res False show ?thesis by simp
    qed
  qed
qed

theorem get_registration_match_witness:
  "case GetRegistration (demo_lib (\<lambda>_. ok_response) [demo_registration] demo_idporten) demo_config ''c1''
      (demo_state demo_idporten) of
     (r, s') \<Rightarrow> r = Inr (Some demo_registration) \<and> st_ClientID (inst_Status (inst s')) = ''id1''"
proof -
  let ?l = "demo_lib (\<lambda>_. ok_response) [demo_registration] demo_idporten"
  let ?s = "demo_state demo_idporten"
  obtain r s' where run: "GetRegistration ?l demo_config ''c1'' ?s = (r, s')"
    by (cases "GetRegistration ?l demo_config ''c1'' ?s")

  have r: "r = Inr (Some demo_registration)"
    using run by (simp add: GetRegistration_def endpoint_def ApiV1URL_def demo_net_def demo_url_def has_suffix_def
        demo_request_all_ok demo_codec_def bindE_def returnE_def liftE_def the_inst_def clientMatches_def
        demo_state_def demo_idporten_def demo_status_def demo_meta_def demo_registration_def demo_kube_def
        GetIntegrationType_def IntegrationTypeIDPorten_def modify_status_def)
  have "retry_contract (net ?l)" by simp
  from get_registration_match [OF this run [unfolded r]]
  have "st_ClientID (inst_Status (inst s')) = ''id1''"
    by (auto simp: demo_state_def demo_idporten_def demo_status_def demo_registration_def)
  with run r show ?thesis by simp
qed

section \<open>Access to scopes\<close>

text \<open>
  The cache, seen as a map from names to answers: a lookup returns only what the map holds and may
  drop entries (that expired), an assignment overwrites the entry of its key.
\<close>

definition cache_contract :: "('w, 'c) netLib \<Rightarrow> ('c \<Rightarrow> string \<Rightarrow> bool option) \<Rightarrow> bool" where
  "cache_contract n entries \<longleftrightarrow>
     (\<forall>k now c v. fst (net_CacheGet n k now c) = Some v \<longrightarrow> entries c k = Some v) \<and>
     (\<forall>k now c k' v. entries (snd (net_CacheGet n k now c)) k' = Some v \<longrightarrow> entries c k' = Some v) \<and>
     (\<forall>k v x now c. entries (net_CacheSet n k v x now c) = (entries c)(k \<mapsto> v))"

text \<open>What the two listings say of a scope: the open scopes are stored last and so take precedence.\<close>

definition listed :: "accessScope list \<Rightarrow> scopeRegistration list \<Rightarrow> string \<Rightarrow> bool option" where
  "listed accs regs name = (case List.find (\<lambda>r. sr_Name r = name) (rev regs) of
     Some r \<Rightarrow> Some (sr_AccessibleForAll r)
   | None \<Rightarrow> map_option IsAccessible (List.find (\<lambda>a. as_Scope a = name) (rev accs)))"

lemma cache_fill:
  assumes "cache_contract (net l) entries"
    and "forE xs (\<lambda>x. cache_set l (key x) (val x) expiry) s = (r, s')"
  shows "r = Inr () \<and> entries (scopeCache s') k =
    (case List.find (\<lambda>x. key x = k) (rev xs) of Some x \<Rightarrow> Some (val x) | None \<Rightarrow> entries (scopeCache s) k)"
  using assms(2)
proof (induction xs arbitrary: s r s')
  case Nil
  then show ?case by simp
next
  case (Cons x xs)
  obtain s1 where s1: "cache_set l (key x) (val x) expiry s = (Inr (), s1)"
    and e: "entries (scopeCache s1) = (entries (scopeCache s))(key x \<mapsto> val x)"
    using assms(1) by (cases "sys_Now (sys l) (world s)")
      (auto simp: cache_set_def bindE_def call_def cache_contract_def)
  then have "forE xs (\<lambda>x. cache_set l (key x) (val x) expiry) s1 = (r, s')"
    using Cons.prems by (simp add: bindE_def)
  from Cons.IH [OF this] e show ?case
    by (auto simp: find_append split: option.splits)
qed

lemma scopes_Inr:
  assumes "retry_contract (net l)" and "cache_contract (net l) entries"
    and "bindE (request l c MethodGet (api_url l c path @ q) '''' decode) (\<lambda>xs.
      bindE (forE xs (\<lambda>x. cache_set l (key x) (val x) expiry)) (\<lambda>_. returnE xs)) s = (Inr xs, s')"
  shows "\<exists>t e. trace s' = trace s @ t @ [e] \<and> answered l c MethodGet path q '''' decode xs e \<and>
    (\<forall>k. entries (scopeCache s') k =
      (case List.find (\<lambda>x. key x = k) (rev xs) of Some x \<Rightarrow> Some (val x) | None \<Rightarrow> entries (scopeCache s) k))"
proof -
  obtain s1 where r: "request l c MethodGet (api_url l c path @ q) '''' decode s = (Inr xs, s1)"
    and f: "forE xs (\<lambda>x. cache_set l (key x) (val x) expiry) s1 = (Inr (), s')"
    using assms(3) by (auto elim!: bindE_InrE)
  have c: "scopeCache s1 = scopeCache s"
    using keepsD [OF same_cache.keeps_request [OF assms(1)] r] by (simp add: same_cache_def)
  have "keeps (emits (\<lambda>_. False)) (forE xs (\<lambda>x. cache_set l (key x) (val x) expiry))"
    by (intro emits.keeps_intros emits_cache_set)
  from keepsD [OF this f] have "trace s' = trace s1"
    by (auto simp: emits_def list_all_iff)
  moreover obtain t e where "trace s1 = trace s @ t @ [e]" "answered l c MethodGet path q '''' decode xs e"
    using request_answered [OF assms(1) r] by blast
  ultimately show ?thesis
    using cache_fill [OF assms(2) f, unfolded c] by (intro exI [of _ t] exI [of _ e]) simp
qed

lemma endpoint_then: "bindE (endpoint l c path) k s = (Inr x, s') \<Longrightarrow> k (api_url l c path) s = (Inr x, s')"
  by (auto simp: endpoint_Inr elim!: bindE_InrE)

lemma cache_get_run:
  assumes "cache_contract (net l) entries" and "cache_get l k s = (r, s')"
  shows "trace s' = trace s" and "r = Inr (Some a) \<Longrightarrow> entries (scopeCache s) k = Some a"
    and "entries (scopeCache s') k' = Some b \<Longrightarrow> entries (scopeCache s) k' = Some b"
proof -
  obtain now w where now: "sys_Now (sys l) (world s) = (now, w)" by (cases "sys_Now (sys l) (world s)")
  let ?g = "net_CacheGet (net l) k now (scopeCache s)"
  have s': "s' = s\<lparr>world := w, scopeCache := snd ?g\<rparr>" and r: "r = Inr (fst ?g)"
    using assms(2) now by (auto simp: cache_get_def bindE_def call_def split: prod.splits)
  show "trace s' = trace s" by (simp add: s')
  show "entries (scopeCache s) k = Some a" if "r = Inr (Some a)"
  proof -
    have "fst ?g = Some a" using that r by simp
    with assms(1) show ?thesis unfolding cache_contract_def by blast
  qed
  show "entries (scopeCache s) k' = Some b" if "entries (scopeCache s') k' = Some b"
  proof -
    have "entries (snd ?g) k' = Some b" using that s' by simp
    with assms(1) show ?thesis unfolding cache_contract_def by blast
  qed
qed

text \<open>What one check of a scope leaves behind: an answer from the cache, or both listings in the log.\<close>

lemma CanAccessScope_Inr:
  assumes "retry_contract (net l)" and "cache_contract (net l) entries"
    and "CanAccessScope l c name s = (Inr b, s')"
  shows "(entries (scopeCache s) name = Some b \<and> trace s' = trace s \<and>
      (\<forall>k. entries (scopeCache s') k = Some True \<longrightarrow> entries (scopeCache s) k = Some True)) \<or>
    (\<exists>accs regs t1 e1 t2 e2. trace s' = trace s @ t1 @ [e1] @ t2 @ [e2] \<and>
       answered l c MethodGet [''scopes'', ''access'', ''all''] '''' '''' (json_Access (json l)) accs e1 \<and>
       answered l c MethodGet [''scopes'', ''all''] ''?accessible_for_all=true'' '''' (json_Scopes (json l)) regs e2 \<and>
       (b \<longrightarrow> listed accs regs name = Some True \<or> entries (scopeCache s) name = Some True) \<and>
       (\<forall>k. entries (scopeCache s') k = Some True \<longrightarrow> listed accs regs k = Some True \<or> entries (scopeCache s) k = Some True))"
proof -
  note get = cache_get_run [OF assms(2)]
  obtain hit s1 where g: "cache_get l name s = (Inr hit, s1)"
    using assms(3) unfolding CanAccessScope_def by (auto elim!: bindE_InrE)
  show ?thesis
  proof (cases hit)
    case (Some a)
    then have "a = b \<and> s' = s1" using assms(3) g by (auto simp: CanAccessScope_def bindE_def)
    with get(1) [OF g] get(2) [OF g] get(3) [OF g] Some show ?thesis by blast
  next
    case None
    then obtain accs s2 regs s3 hit2 where a: "GetAccessibleScopes l c s1 = (Inr accs, s2)"
      and o: "GetOpenScopes l c s2 = (Inr regs, s3)" and g2: "cache_get l name s3 = (Inr hit2, s')"
      and t: "b \<longrightarrow> hit2 = Some True"
      using assms(3) g unfolding CanAccessScope_def
      by (auto simp: bindE_Inr elim!: bindE_InrE split: option.splits)
    obtain t1 e1 where 1: "trace s2 = trace s1 @ t1 @ [e1]"
      "answered l c MethodGet [''scopes'', ''access'', ''all''] '''' '''' (json_Access (json l)) accs e1"
      "\<forall>k. entries (scopeCache s2) k = (case List.find (\<lambda>x. as_Scope x = k) (rev accs) of
         Some x \<Rightarrow> Some (IsAccessible x) | None \<Rightarrow> entries (scopeCache s1) k)"
      using scopes_Inr [OF assms(1,2), where q = "''''" and key = as_Scope and val = IsAccessible, unfolded append_Nil2,
          OF endpoint_then [OF a [unfolded GetAccessibleScopes_def]]] by blast
    obtain t2 e2 where 2: "trace s3 = trace s2 @ t2 @ [e2]"
      "answered l c MethodGet [''scopes'', ''all''] ''?accessible_for_all=true'' '''' (json_Scopes (json l)) regs e2"
      "\<forall>k. entries (scopeCache s3) k = (case List.find (\<lambda>x. sr_Name x = k) (rev regs) of
         Some x \<Rightarrow> Some (sr_AccessibleForAll x) | None \<Rightarrow> entries (scopeCache s2) k)"
      using scopes_Inr [OF assms(1,2), where key = sr_Name and val = sr_AccessibleForAll,
          OF endpoint_then [OF o [unfolded GetOpenScopes_def]]] by blast
    have 3: "listed accs regs k = Some True \<or> entries (scopeCache s) k = Some True"
      if "entries (scopeCache s3) k = Some True" for k
      using that 1(3) 2(3) get(3) [OF g, of k True] by (auto simp: listed_def split: option.splits)
    have "trace s' = trace s @ t1 @ [e1] @ t2 @ [e2]"
      using 1(1) 2(1) get(1) [OF g] get(1) [OF g2] by simp
    moreover have "b \<longrightarrow> entries (scopeCache s3) name = Some True" using get(2) [OF g2, of True] t by simp
    ultimately show ?thesis using 1(2) 2(2) 3 get(3) [OF g2] by blast
  qed
qed

text \<open>
  C16: access to a consumed scope is granted only on evidence: an answer of true was in the cache, or
  both listings were fetched and answered in this call and, taken together with the open scopes
  last, they say that the scope is accessible.
\<close>

theorem can_access_scope_sound:
  assumes "retry_contract (net l)" and "cache_contract (net l) entries"
    and "CanAccessScope l c name s = (Inr True, s')"
  shows "entries (scopeCache s) name = Some True \<or>
    (\<exists>accs regs t1 e1 t2 e2. trace s' = trace s @ t1 @ [e1] @ t2 @ [e2] \<and>
       answered l c MethodGet [''scopes'', ''access'', ''all''] '''' '''' (json_Access (json l)) accs e1 \<and>
       answered l c MethodGet [''scopes'', ''all''] ''?accessible_for_all=true'' '''' (json_Scopes (json l)) regs e2 \<and>
       listed accs regs name = Some True)"
  using CanAccessScope_Inr [OF assms] by blast
theorem can_access_scope_sound_witness:
  "cache_contract (demo_net (\<lambda>_. ok_response)) map_of \<and>
   (case CanAccessScope (demo_lib (\<lambda>_. ok_response) [] demo_maskinporten) demo_config ''a'' (demo_state demo_maskinporten) of
     (r, s') \<Rightarrow> r = Inr True \<and>
       (\<exists>accs regs t1 e1 t2 e2. trace s' = t1 @ [e1] @ t2 @ [e2] \<and> listed accs regs ''a'' = Some True))"
proof -
  let ?l = "demo_lib (\<lambda>_. ok_response) [] demo_maskinporten"
  let ?s = "demo_state demo_maskinporten"
  have cc: "cache_contract (net ?l) map_of"
    by (simp add: cache_contract_def demo_net_def fun_eq_iff)
  have rc: "retry_contract (net ?l)" by simp
  have s: "scopeCache ?s = []" "trace ?s = []" by (simp_all add: demo_state_def)
  obtain r s' where run: "CanAccessScope ?l demo_config ''a'' ?s = (r, s')"
    by (cases "CanAccessScope ?l demo_config ''a'' ?s")
  have r: "r = Inr True"
    using run s(1) by (simp add: CanAccessScope_def GetAccessibleScopes_def GetOpenScopes_def endpoint_def ApiV1URL_def
        demo_net_def demo_url_def has_suffix_def demo_request_all_ok demo_codec_def bindE_def returnE_def liftE_def
        wrapE_run cache_get_def cache_set_def call_def demo_sys_def demo_scope_def zeroScopeRegistration_def
        IsAccessible_def ScopeAccessApproved_def)
  from can_access_scope_sound [OF rc cc run [unfolded r]] s
  have "\<exists>accs regs t1 e1 t2 e2. trace s' = t1 @ [e1] @ t2 @ [e2] \<and> listed accs regs ''a'' = Some True"
    by auto
  with cc run r show ?thesis by simp
qed

end
