(* ===== verification/Common.thy ===== *)
theory Common
  imports Digdir Metrics
begin

text \<open>
  What the parts of \<open>controllers/common\<close> share: status conditions, event reasons and the reporting of
  events. The instance of a \<open>Transaction\<close> is the component \<open>inst\<close> of the state.
\<close>

section \<open>Conditions\<close>

definition ConditionTypeReady :: string where "ConditionTypeReady = ''Ready''"
definition ConditionTypeError :: string where "ConditionTypeError = ''Error''"
definition ConditionTypeInvalidConsumedScopes :: string where
  "ConditionTypeInvalidConsumedScopes = ''InvalidConsumedScopes''"
definition ConditionTypeInvalidExposedScopesConsumers :: string where
  "ConditionTypeInvalidExposedScopesConsumers = ''InvalidExposedScopesConsumers''"

definition ConditionReasonFailed :: string where "ConditionReasonFailed = ''Failed''"
definition ConditionReasonProcessing :: string where "ConditionReasonProcessing = ''Processing''"
definition ConditionReasonSynchronized :: string where "ConditionReasonSynchronized = ''Synchronized''"
definition ConditionReasonValidated :: string where "ConditionReasonValidated = ''Validated''"

definition ConditionTrue :: string where "ConditionTrue = ''True''"
definition ConditionFalse :: string where "ConditionFalse = ''False''"

lemmas condition_type_defs = ConditionTypeReady_def ConditionTypeError_def
  ConditionTypeInvalidConsumedScopes_def ConditionTypeInvalidExposedScopesConsumers_def

definition ReadyCondition :: "string \<Rightarrow> string \<Rightarrow> string \<Rightarrow> int \<Rightarrow> condition" where
  "ReadyCondition status reason message generation =
     \<lparr>cond_Type = ConditionTypeReady, cond_Status = status, cond_Reason = reason,
      cond_Message = message, cond_ObservedGeneration = generation\<rparr>"

definition ErrorCondition :: "string \<Rightarrow> string \<Rightarrow> string \<Rightarrow> int \<Rightarrow> condition" where
  "ErrorCondition status reason message generation =
     \<lparr>cond_Type = ConditionTypeError, cond_Status = status, cond_Reason = reason,
      cond_Message = message, cond_ObservedGeneration = generation\<rparr>"

definition InvalidConsumedScopesCondition :: "string \<Rightarrow> string \<Rightarrow> string \<Rightarrow> int \<Rightarrow> condition" where
  "InvalidConsumedScopesCondition status reason message generation =
     \<lparr>cond_Type = ConditionTypeInvalidConsumedScopes, cond_Status = status, cond_Reason = reason,
      cond_Message = message, cond_ObservedGeneration = generation\<rparr>"

definition InvalidExposedScopesConsumersCondition :: "string \<Rightarrow> string \<Rightarrow> string \<Rightarrow> int \<Rightarrow> condition" where
  "InvalidExposedScopesConsumersCondition status reason message generation =
     \<lparr>cond_Type = ConditionTypeInvalidExposedScopesConsumers, cond_Status = status, cond_Reason = reason,
      cond_Message = message, cond_ObservedGeneration = generation\<rparr>"

lemmas condition_defs = ReadyCondition_def ErrorCondition_def InvalidConsumedScopesCondition_def
  InvalidExposedScopesConsumersCondition_def

definition IsStatusConditionTrue :: "('w, 'c) lib \<Rightarrow> condition list option \<Rightarrow> string \<Rightarrow> bool" where
  "IsStatusConditionTrue l conditions conditionType = (case conditions of
     None \<Rightarrow> False | Some cs \<Rightarrow> kube_IsConditionTrue (kube l) cs conditionType)"

definition HasRetryableStatusCondition :: "('w, 'c) lib \<Rightarrow> condition list option \<Rightarrow> bool" where
  "HasRetryableStatusCondition l conditions =
     (if conditions = None then False
      else let isError = IsStatusConditionTrue l conditions ConditionTypeError;
               isInvalidConsumedScopes = IsStatusConditionTrue l conditions ConditionTypeInvalidConsumedScopes
           in isError \<or> isInvalidConsumedScopes)"

section \<open>Events\<close>

definition EventSynchronized :: string where "EventSynchronized = ''Synchronized''"
definition EventFailedSynchronization :: string where "EventFailedSynchronization = ''FailedSynchronization''"
definition EventCreatedInDigDir :: string where "EventCreatedInDigDir = ''CreatedInDigDir''"
definition EventUpdatedInDigDir :: string where "EventUpdatedInDigDir = ''UpdatedInDigDir''"
definition EventRotatedInDigDir :: string where "EventRotatedInDigDir = ''RotatedInDigDir''"
definition EventActivatedScopeInDigDir :: string where "EventActivatedScopeInDigDir = ''ActivatedScopeInDigDir''"
definition EventDeactivatedScopeInDigDir :: string where "EventDeactivatedScopeInDigDir = ''DeactivatedScopeInDigDir''"
definition EventCreatedScopeInDigDir :: string where "EventCreatedScopeInDigDir = ''CreatedScopeInDigDir''"
definition EventUpdatedScopeInDigDir :: string where "EventUpdatedScopeInDigDir = ''UpdatedScopeInDigDir''"
definition EventUpdatedACLForScopeInDigDir :: string where
  "EventUpdatedACLForScopeInDigDir = ''UpdatedACLForScopeInDigDir''"

definition EventTypeNormal :: string where "EventTypeNormal = ''Normal''"
definition EventTypeWarning :: string where "EventTypeWarning = ''Warning''"

text \<open>\<open>reportEvent\<close>: the reason also becomes the synchronisation state of the status.\<close>

definition reportEvent :: "string \<Rightarrow> string \<Rightarrow> string \<Rightarrow> (('w, 'c) st, unit) eff" where
  "reportEvent eventType event message =
     bindE (modify_status (\<lambda>st. st\<lparr>st_SynchronizationState := event\<rparr>)) (\<lambda>_.
     emit (EventRecorded eventType event message))"

text \<open>Increment a counter for the instance of the transaction.\<close>

definition tally :: "(clientInstance \<Rightarrow> (('w, 'c) st, unit) eff) \<Rightarrow> (('w, 'c) st, unit) eff" where
  "tally f = bindE the_inst f"

section \<open>Frame facts\<close>

fun is_event :: "effect \<Rightarrow> bool" where
  "is_event (EventRecorded _ _ _) = True"
| "is_event _ = False"

lemma emits_reportEvent: "(\<And>a b c. P (EventRecorded a b c)) \<Longrightarrow> keeps (emits P) (reportEvent t e m)"
  unfolding reportEvent_def by (intro emits.keeps_intros emits_modify_status emits_emit)

lemma same_client_reportEvent [frame_intros]: "keeps same_client (reportEvent t e m)"
  unfolding reportEvent_def
  by (intro same_client.keeps_intros same_client_modify_status same_client.keeps_steps) simp

lemma emits_tally: "(\<And>i. keeps (emits P) (f i)) \<Longrightarrow> keeps (emits P) (tally f)"
  unfolding tally_def by (intro emits.keeps_intros emits_the_inst)

lemma same_inst_tally: "(\<And>i. keeps same_inst (f i)) \<Longrightarrow> keeps same_inst (tally f)"
  unfolding tally_def by (intro same_inst.keeps_intros same_inst.keeps_steps)

text \<open>The counters after one increment, and what of a step leaves them alone.\<close>

definition bumped :: "('w, 'c) st \<Rightarrow> counter \<Rightarrow> string \<Rightarrow> counter \<Rightarrow> string \<Rightarrow> nat option" where
  "bumped s m ns m' ns' = (if m' = m \<and> ns' = ns
     then Some ((case counters s m ns of Some k \<Rightarrow> k | None \<Rightarrow> 0) + 1) else counters s m' ns')"

definition same_counters :: "('w, 'c) st \<Rightarrow> ('w, 'c) st \<Rightarrow> bool" where
  "same_counters s s' \<longleftrightarrow> counters s' = counters s"

interpretation same_counters: process_relation same_counters
  by unfold_locales (auto simp: same_counters_def)

lemma tally_by_kind:
  "tally (inc_by_kind a b) s = (Inr (), s\<lparr>counters := bumped s
     (case inst_Spec (inst s) of IDPortenClient _ \<Rightarrow> a | MaskinportenClient _ \<Rightarrow> b) (om_Namespace (inst_Meta (inst s)))\<rparr>)"
  by (cases "inst_Spec (inst s)") (simp_all add: tally_def bindE_the_inst inc_by_kind_def incWithNamespaceLabel_def
      add_counter_def bumped_def fun_eq_iff cong: if_cong)

lemma tally_maskinporten:
  assumes "inst_Spec (inst s) = MaskinportenClient sp"
  shows "tally (inc_maskinporten m) s = (Inr (), s\<lparr>counters := bumped s m (om_Namespace (inst_Meta (inst s)))\<rparr>)"
  using assms by (simp add: tally_def bindE_the_inst inc_maskinporten_def incWithNamespaceLabel_def add_counter_def
      bumped_def fun_eq_iff cong: if_cong)

lemma reportEvent_run:
  "reportEvent ty ev m s = (Inr (), s\<lparr>inst := (inst s)\<lparr>inst_Status := (inst_Status (inst s))\<lparr>st_SynchronizationState := ev\<rparr>\<rparr>,
     trace := trace s @ [EventRecorded ty ev m]\<rparr>)"
  by (simp add: reportEvent_def bindE_def step_defs)

text \<open>
  A resource needs another attempt exactly when its list of conditions is present and one of
  the two conditions error and invalid consumed scopes is true in it.
\<close>

lemma HasRetryableStatusCondition_iff:
  "HasRetryableStatusCondition l cs \<longleftrightarrow> (\<exists>c. cs = Some c \<and>
     (kube_IsConditionTrue (kube l) c ConditionTypeError \<or>
      kube_IsConditionTrue (kube l) c ConditionTypeInvalidConsumedScopes))"
  by (auto simp: HasRetryableStatusCondition_def IsStatusConditionTrue_def Let_def split: option.splits)

end
