(* ===== verification/ScopeController.thy ===== *)
theory ScopeController
  imports Common
begin

text \<open>
  \<open>controllers/common/scopes.go\<close>: what a reconcile does for the scopes that a Maskinporten client
  exposes. Scopes are created, updated, activated or deactivated in DigDir, and the access list of
  an enabled scope is brought in line with the consumers of its specification.
\<close>

section \<open>Access lists\<close>

definition StatusBadRequest :: int where "StatusBadRequest = 400"

definition asInvalidConsumerError :: "gerror \<Rightarrow> bool" where
  "asInvalidConsumerError e = (case as_digdir_error e of
     Some (_, _, code, _) \<Rightarrow> code = StatusBadRequest | None \<Rightarrow> False)"

definition setValidCondition :: "('w, 'c) lib \<Rightarrow> string \<Rightarrow> (('w, 'c) st, unit) eff" where
  "setValidCondition l scopeName =
     bindE the_inst (\<lambda>i.
     set_condition l (InvalidExposedScopesConsumersCondition ConditionFalse ConditionReasonValidated
       (''All consumers for scope '' @ quote scopeName @ '' are valid'') (om_Generation (inst_Meta i))))"

definition setInvalidCondition :: "('w, 'c) lib \<Rightarrow> string \<Rightarrow> string list \<Rightarrow> (('w, 'c) st, unit) eff" where
  "setInvalidCondition l scopeName invalidConsumers =
     bindE the_inst (\<lambda>i.
     set_condition l (InvalidExposedScopesConsumersCondition ConditionTrue ConditionReasonFailed
       (''Scope '' @ quote scopeName @ '' has invalid consumers ['' @ join '', '' invalidConsumers @ '']'')
       (om_Generation (inst_Meta i))))"

text \<open>
  The body of the loop of \<open>updateACL\<close>; the accumulator holds \<open>consumerStatus\<close> and \<open>invalidConsumers\<close>.
\<close>

definition updateConsumer ::
  "('w, 'c) lib \<Rightarrow> config \<Rightarrow> string \<Rightarrow> string list \<times> string list \<Rightarrow> consumer \<Rightarrow>
   (('w, 'c) st, string list \<times> string list) eff" where
  "updateConsumer l c scopeName acc consumer =
     (case acc of (consumerStatus, invalidConsumers) \<Rightarrow>
      if c_ShouldBeAdded consumer then
        catchE (AddToScopeACL l c scopeName (c_Orgno consumer))
          (\<lambda>e. if asInvalidConsumerError e
               then returnE (consumerStatus, invalidConsumers @ [c_Orgno consumer])
               else failE (Wrap ''adding consumer'' e))
          (\<lambda>_. bindE (reportEvent EventTypeNormal EventUpdatedACLForScopeInDigDir
                 (''ACL: granted access to scope '' @ quote scopeName @ '' for consumer '' @ quote (c_Orgno consumer))) (\<lambda>_.
               bindE (tally (\<lambda>i. IncScopesConsumersCreatedOrUpdated i (c_State consumer))) (\<lambda>_.
               returnE (consumerStatus @ [c_Orgno consumer], invalidConsumers))))
      else
        bindE (wrapE ''deactivating consumer'' (DeactivateConsumer l c scopeName (c_Orgno consumer))) (\<lambda>_.
        bindE (reportEvent EventTypeNormal EventUpdatedACLForScopeInDigDir
          (''ACL: revoked access to scope '' @ quote scopeName @ '' for consumer '' @ quote (c_Orgno consumer))) (\<lambda>_.
        bindE (tally IncScopesConsumersDeleted) (\<lambda>_.
        returnE (consumerStatus, invalidConsumers)))))"

text \<open>\<open>updateACL\<close> after the difference is known.\<close>

definition updateConsumers ::
  "('w, 'c) lib \<Rightarrow> config \<Rightarrow> string \<Rightarrow> string list \<Rightarrow> consumer list \<Rightarrow> (('w, 'c) st, unit) eff" where
  "updateConsumers l c scopeName consumerStatus consumerList =
     (if length consumerList = 0 then
        bindE (reportEvent EventTypeNormal EventUpdatedACLForScopeInDigDir
          (''ACL: scope '' @ quote scopeName @ '' is up to date'')) (\<lambda>_.
        setValidCondition l scopeName)
      else
        bindE (foldE (updateConsumer l c scopeName) (consumerStatus, []) consumerList) (\<lambda>(_, invalidConsumers).
        if length invalidConsumers > 0 then setInvalidCondition l scopeName invalidConsumers
        else setValidCondition l scopeName))"

definition updateACL :: "('w, 'c) lib \<Rightarrow> config \<Rightarrow> scope \<Rightarrow> (('w, 'c) st, unit) eff" where
  "updateACL l c scope =
     (let scopeName = ToString scope in
      bindE (wrapE ''getting ACL'' (GetScopeACL l c scopeName)) (\<lambda>acl.
      bindE (call (sys_RangeOrder (sys l))) (\<lambda>ord.
      case FilterConsumers ord scope acl of (consumerStatus, consumerList) \<Rightarrow>
      updateConsumers l c scopeName consumerStatus consumerList)))"
section \<open>Scopes\<close>

definition create :: "('w, 'c) lib \<Rightarrow> config \<Rightarrow> exposedScope \<Rightarrow> (('w, 'c) st, scopeRegistration) eff" where
  "create l c newScope =
     bindE the_inst (\<lambda>i.
     wrapE ''registering scope'' (RegisterScope l c (ToScopeRegistration i newScope c)))"

definition update :: "('w, 'c) lib \<Rightarrow> config \<Rightarrow> scope \<Rightarrow> (('w, 'c) st, unit) eff" where
  "update l c scope =
     bindE the_inst (\<lambda>i.
     bindE (wrapE ''updating scope''
              (UpdateScope l c (ToScopeRegistration i (sc_CurrentScope scope) c) (ToString scope))) (\<lambda>registration.
     bindE (reportEvent EventTypeNormal EventUpdatedScopeInDigDir (''Updated scope '' @ quote (sr_Name registration))) (\<lambda>_.
     tally IncScopesUpdated)))"

definition activate :: "('w, 'c) lib \<Rightarrow> config \<Rightarrow> scope \<Rightarrow> (('w, 'c) st, unit) eff" where
  "activate l c scope =
     bindE the_inst (\<lambda>i.
     bindE (wrapE ''activating scope''
              (UpdateScope l c (ToScopeRegistration i (sc_CurrentScope scope) c) (ToString scope))) (\<lambda>registration.
     bindE (reportEvent EventTypeNormal EventActivatedScopeInDigDir (''Activated scope '' @ quote (sr_Name registration))) (\<lambda>_.
     tally IncScopesReactivated)))"

text \<open>A nil registration, which a JSON null gives, is dereferenced for its name.\<close>

definition deactivate :: "('w, 'c) lib \<Rightarrow> config \<Rightarrow> scope \<Rightarrow> (('w, 'c) st, unit) eff" where
  "deactivate l c scope =
     bindE (wrapE ''deleting scope'' (DeleteScope l c (ToString scope))) (\<lambda>registration.
     case registration of
       None \<Rightarrow> failE (Panicked ''invalid memory address or nil pointer dereference'')
     | Some r \<Rightarrow>
         bindE (reportEvent EventTypeWarning EventDeactivatedScopeInDigDir
           (''Deactivated scope '' @ quote (sr_Name r) @ ''; consumers no longer have access'')) (\<lambda>_.
         tally IncScopesDeleted))"

definition filtered :: "('w, 'c) lib \<Rightarrow> config \<Rightarrow> exposedScope list \<Rightarrow> (('w, 'c) st, operations) eff" where
  "filtered l c exposedScopes =
     bindE (wrapE ''getting scopes'' (GetScopes l c)) (\<lambda>allScopes.
     returnE (Generate allScopes exposedScopes))"

definition createScope :: "('w, 'c) lib \<Rightarrow> config \<Rightarrow> exposedScope \<Rightarrow> (('w, 'c) st, unit) eff" where
  "createScope l c newScope =
     bindE (create l c newScope) (\<lambda>scope.
     bindE (reportEvent EventTypeNormal EventCreatedScopeInDigDir (''Created scope '' @ quote (sr_Name scope))) (\<lambda>_.
     bindE (tally IncScopesCreated) (\<lambda>_.
     wrapE ''updating ACL'' (updateACL l c (CurrentScopeInfo scope newScope)))))"

definition createScopes :: "('w, 'c) lib \<Rightarrow> config \<Rightarrow> exposedScope list \<Rightarrow> (('w, 'c) st, unit) eff" where
  "createScopes l c toCreate = forE toCreate (createScope l c)"

definition updateScope :: "('w, 'c) lib \<Rightarrow> config \<Rightarrow> scope \<Rightarrow> (('w, 'c) st, unit) eff" where
  "updateScope l c scope =
     (let wantEnabled = es_Enabled (sc_CurrentScope scope);
          isEnabled = sr_Active (sc_ScopeRegistration scope) in
      bindE (if wantEnabled \<and> \<not> isEnabled then activate l c scope
             else if wantEnabled then update l c scope
             else deactivate l c scope) (\<lambda>_.
      whenE wantEnabled (wrapE ''updating ACL'' (updateACL l c scope))))"

definition updateScopes :: "('w, 'c) lib \<Rightarrow> config \<Rightarrow> scope list \<Rightarrow> (('w, 'c) st, unit) eff" where
  "updateScopes l c toUpdate = forE toUpdate (updateScope l c)"

definition Process :: "('w, 'c) lib \<Rightarrow> config \<Rightarrow> exposedScope list \<Rightarrow> (('w, 'c) st, unit) eff" where
  "Process l c exposedScopes =
     (if length exposedScopes = 0 then returnE ()
      else
        bindE (filtered l c exposedScopes) (\<lambda>ops.
        bindE (wrapE ''creating scopes'' (createScopes l c (ToCreate ops))) (\<lambda>_.
        wrapE ''updating scopes'' (updateScopes l c (ToUpdate ops)))))"

definition finalizeScope :: "('w, 'c) lib \<Rightarrow> config \<Rightarrow> scope \<Rightarrow> (('w, 'c) st, unit) eff" where
  "finalizeScope l c scope =
     (if es_Enabled (sc_CurrentScope scope) then returnE () else deactivate l c scope)"

definition Finalize :: "('w, 'c) lib \<Rightarrow> config \<Rightarrow> exposedScope list \<Rightarrow> (('w, 'c) st, unit) eff" where
  "Finalize l c exposedScopes =
     bindE (filtered l c exposedScopes) (\<lambda>ops.
     if length (ToUpdate ops) = 0 then returnE ()
     else forE (ToUpdate ops) (finalizeScope l c))"

section \<open>Effects of the scope operations\<close>

definition scope_query :: "string \<Rightarrow> string" where
  "scope_query name = ''?scope='' @ QueryEscape name"

text \<open>The calls that concern the access list of a scope.\<close>

definition acl_effect :: "('w, 'c) lib \<Rightarrow> config \<Rightarrow> string \<Rightarrow> effect \<Rightarrow> bool" where
  "acl_effect l c name e \<longleftrightarrow> is_event e \<or> api_call l c MethodGet [''scopes'', ''access''] (scope_query name) e \<or>
     (\<exists>org. api_call l c MethodPut [''scopes'', ''access'', org] (scope_query name) e \<or>
            api_call l c MethodDelete [''scopes'', ''access'', org] (scope_query name) e)"

text \<open>A call to some path below \<open>scopes\<close>.\<close>

definition scope_effect :: "('w, 'c) lib \<Rightarrow> config \<Rightarrow> effect \<Rightarrow> bool" where
  "scope_effect l c e \<longleftrightarrow> is_event e \<or> (\<exists>m path q. api_call l c m (''scopes'' # path) q e)"

lemma acl_scope_effect: "acl_effect l c name e \<Longrightarrow> scope_effect l c e"
  by (auto simp: acl_effect_def scope_effect_def)

lemma emits_setConditions:
  "keeps (emits P) (setValidCondition l name)" "keeps (emits P) (setInvalidCondition l name orgs)"
  unfolding setValidCondition_def setInvalidCondition_def
  by (intro emits.keeps_intros emits_the_inst emits_set_condition)+

lemma emits_updateConsumer:
  assumes "retry_contract (net l)"
  shows "keeps (emits (acl_effect l c name)) (updateConsumer l c name acc x)"
  unfolding updateConsumer_def
  by (intro keeps_splits emits.keeps_intros emits_reportEvent emits_tally emits_inc emits_mono [OF emits_ops(15) [OF assms]]
      emits_mono [OF emits_ops(16) [OF assms]])
    (auto simp: acl_effect_def scope_query_def)

lemma emits_updateConsumers:
  assumes "retry_contract (net l)"
  shows "keeps (emits (acl_effect l c name)) (updateConsumers l c name st cs)"
  unfolding updateConsumers_def
  by (intro keeps_splits emits.keeps_intros emits_reportEvent emits_setConditions emits_updateConsumer assms)
    (simp add: acl_effect_def)

lemma emits_updateACL:
  assumes "retry_contract (net l)"
  shows "keeps (emits (acl_effect l c (ToString sc))) (updateACL l c sc)"
  unfolding updateACL_def Let_def
  by (intro keeps_splits emits.keeps_intros emits_call emits_updateConsumers assms emits_mono [OF emits_ops(14) [OF assms]])
    (auto simp: acl_effect_def scope_query_def)

lemma emits_deactivate:
  assumes "retry_contract (net l)"
  shows "keeps (emits (\<lambda>e. is_event e \<or> api_call l c MethodDelete [''scopes''] (scope_query (ToString sc)) e))
    (deactivate l c sc)"
  unfolding deactivate_def
  by (intro keeps_splits emits.keeps_intros emits_reportEvent emits_tally emits_inc
      emits_mono [OF emits_ops(13) [OF assms]])
    (auto simp: scope_query_def)

lemma emits_update_activate:
  assumes "retry_contract (net l)"
  shows "keeps (emits (\<lambda>e. is_event e \<or> api_call l c MethodPut [''scopes''] (scope_query (ToString sc)) e)) (update l c sc)"
    and "keeps (emits (\<lambda>e. is_event e \<or> api_call l c MethodPut [''scopes''] (scope_query (ToString sc)) e)) (activate l c sc)"
  unfolding update_def activate_def
  by (intro keeps_splits emits.keeps_intros emits_reportEvent emits_tally emits_inc emits_the_inst
      emits_mono [OF emits_ops(12) [OF assms]]; auto simp: scope_query_def)+

lemma emits_updateScope:
  assumes "retry_contract (net l)"
  shows "keeps (emits (scope_effect l c)) (updateScope l c sc)"
  unfolding updateScope_def
  by (intro keeps_splits emits.keeps_intros emits_mono [OF emits_updateACL [OF assms] acl_scope_effect]
      emits_mono [OF emits_deactivate [OF assms]] emits_mono [OF emits_update_activate(1) [OF assms]]
      emits_mono [OF emits_update_activate(2) [OF assms]])
    (auto simp: scope_effect_def)

lemma emits_createScope:
  assumes "retry_contract (net l)"
  shows "keeps (emits (scope_effect l c)) (createScope l c ex)"
  unfolding createScope_def create_def
  by (intro keeps_splits emits.keeps_intros emits_mono [OF emits_updateACL [OF assms] acl_scope_effect]
      emits_the_inst emits_reportEvent emits_tally emits_inc emits_mono [OF emits_ops(11) [OF assms]])
    (auto simp: scope_effect_def)

lemma emits_filtered:
  assumes "retry_contract (net l)"
  shows "keeps (emits (api_call l c MethodGet [''scopes''] ''?inactive=true'')) (filtered l c exs)"
  unfolding filtered_def by (intro emits.keeps_intros emits_ops(10) [OF assms])

lemma emits_Process:
  assumes "retry_contract (net l)"
  shows "keeps (emits (scope_effect l c)) (Process l c exs)"
  unfolding Process_def createScopes_def updateScopes_def
  by (intro keeps_splits emits.keeps_intros emits_createScope emits_updateScope assms
      emits_mono [OF emits_filtered [OF assms]])
    (auto simp: scope_effect_def)

text \<open>None of them touches the metadata or the specification of the object.\<close>

lemmas same_object_ops = same_inst_ops [THEN same_inst_object]
lemmas same_object_inc = same_inst_inc [THEN same_inst_object]
lemmas same_object_reportEvent = same_client_reportEvent [THEN same_client_object]

lemma same_object_tally: "(\<And>i. keeps same_object (f i)) \<Longrightarrow> keeps same_object (tally f)"
  unfolding tally_def by (intro same_object.keeps_intros same_object.keeps_steps)

lemmas same_object_intros = keeps_splits same_object.keeps_intros same_object.keeps_steps same_object_reportEvent
  same_object_tally same_object_inc same_object_set_condition same_object_modify_status

lemma same_object_updateConsumer:
  assumes "retry_contract (net l)"
  shows "keeps same_object (updateConsumer l c name acc x)"
  unfolding updateConsumer_def by (intro same_object_intros same_object_ops [OF assms])

lemma same_object_updateACL:
  assumes "retry_contract (net l)"
  shows "keeps same_object (updateACL l c sc)"
  unfolding updateACL_def updateConsumers_def setValidCondition_def setInvalidCondition_def
  by (intro same_object_intros same_object_ops [OF assms] same_object_updateConsumer assms)

lemma same_object_updateScope:
  assumes "retry_contract (net l)"
  shows "keeps same_object (updateScope l c sc)" and "keeps same_object (deactivate l c sc)"
  unfolding updateScope_def update_def activate_def deactivate_def
  by (intro same_object_intros same_object_ops [OF assms] same_object_updateACL assms)+

lemma same_object_createScope:
  assumes "retry_contract (net l)"
  shows "keeps same_object (createScope l c ex)"
  unfolding createScope_def create_def
  by (intro same_object_intros same_object_ops [OF assms] same_object_updateACL assms)

lemma same_object_Process:
  assumes "retry_contract (net l)"
  shows "keeps same_object (Process l c exs)"
  unfolding Process_def createScopes_def updateScopes_def filtered_def
  by (intro same_object_intros same_object_ops [OF assms] same_object_createScope same_object_updateScope assms)

section \<open>Access lists converge\<close>

text \<open>What the log says of one organisation and a scope.\<close>

definition granted :: "('w, 'c) lib \<Rightarrow> config \<Rightarrow> string \<Rightarrow> string \<Rightarrow> effect list \<Rightarrow> bool" where
  "granted l c name n t \<longleftrightarrow> (\<exists>e \<in> set t. \<exists>x.
     answered l c MethodPut [''scopes'', ''access'', n] (scope_query name) '''' (json_Consumer (json l)) x e)"

definition refused :: "('w, 'c) lib \<Rightarrow> config \<Rightarrow> string \<Rightarrow> string \<Rightarrow> effect list \<Rightarrow> bool" where
  "refused l c name n t \<longleftrightarrow> (\<exists>tok resp. hr_StatusCode resp = 400 \<and>
     Http AdminAPI (apiRequest MethodPut (api_url l c [''scopes'', ''access'', n] @ scope_query name) '''' tok) (Inr resp) \<in> set t)"

definition revoked :: "('w, 'c) lib \<Rightarrow> config \<Rightarrow> string \<Rightarrow> string \<Rightarrow> effect list \<Rightarrow> bool" where
  "revoked l c name n t \<longleftrightarrow> (\<exists>e \<in> set t. \<exists>x.
     answered l c MethodDelete [''scopes'', ''access'', n] (scope_query name) '''' (json_Consumer (json l)) x e)"

lemmas acl_log_defs = granted_def refused_def revoked_def

lemma AddToScopeACL_Inr:
  assumes "retry_contract (net l)" and "AddToScopeACL l c name n s = (Inr x, s')"
  shows "granted l c name n (trace s')"
  using request_answered [OF assms(1) endpoint_then [OF assms(2) [unfolded AddToScopeACL_def]]]
  unfolding granted_def scope_query_def by fastforce

lemma DeactivateConsumer_Inr:
  assumes "retry_contract (net l)" and "DeactivateConsumer l c name n s = (Inr x, s')"
  shows "revoked l c name n (trace s')"
  using request_answered [OF assms(1) endpoint_then [OF assms(2) [unfolded DeactivateConsumer_def]]]
  unfolding revoked_def scope_query_def by fastforce

lemma AddToScopeACL_Inl:
  assumes "retry_contract (net l)" and "plain_errors l" and "AddToScopeACL l c name n s = (Inl e, s')"
    and "\<not> is_panic e" and "asInvalidConsumerError e"
  shows "refused l c name n (trace s')"
proof -
  let ?ep = "api_url l c [''scopes'', ''access'', n] @ ''?scope='' @ QueryEscape name"
  have "request l c MethodPut ?ep '''' (json_Consumer (json l)) s = (Inl e, s')"
    using assms(3,4) unfolding AddToScopeACL_def
    by (auto simp: endpoint_Inr endpoint_Inl ApiV1URL_def split: sum.splits if_splits elim!: bindE_InlE)
  moreover have "plain_result (json_Consumer (json l) b)" for b
    using assms(2) by (simp add: plain_errors_def)
  ultimately obtain t where t: "trace s' = trace s @ t"
    "request_reports MethodPut ?ep '''' (json_Consumer (json l)) t (Inl e)"
    using request_run [OF assms(1,2)] by blast
  obtain k st msg where "as_digdir_error e = Some (k, st, 400, msg)"
    using assms(5) unfolding asInvalidConsumerError_def StatusBadRequest_def by (auto split: option.splits)
  with t(2) obtain t' tok resp where "t = t' @ [Http AdminAPI (apiRequest MethodPut ?ep '''' tok) (Inr resp)]"
    and "hr_StatusCode resp = 400"
    unfolding request_reports_def by auto
  with t(1) show ?thesis unfolding refused_def scope_query_def
    by (intro exI [of _ tok] exI [of _ resp]) simp
qed

lemma updateConsumer_Inr:
  assumes "retry_contract (net l)" and "plain_errors l" and "updateConsumer l c name acc x s = (Inr acc', s')"
  shows "if c_ShouldBeAdded x then granted l c name (c_Orgno x) (trace s') \<or> refused l c name (c_Orgno x) (trace s')
    else revoked l c name (c_Orgno x) (trace s')"
proof -
  have rest: "set (trace s1) \<subseteq> set (trace s')" if "m s1 = (r, s')" "keeps (emits is_event) m"
    for m :: "(('a, 'b) st, string list \<times> string list) eff" and r s1
    using keepsD [OF that(2,1)] by (auto simp: emits_def)

  obtain cs inv where acc: "acc = (cs, inv)" by (cases acc)
  show ?thesis
  proof (cases "c_ShouldBeAdded x")
    case True
    let ?k = "\<lambda>_. bindE (reportEvent EventTypeNormal EventUpdatedACLForScopeInDigDir
         (''ACL: granted access to scope '' @ quote name @ '' for consumer '' @ quote (c_Orgno x))) (\<lambda>_.
         bindE (tally (\<lambda>i. IncScopesConsumersCreatedOrUpdated i (c_State x))) (\<lambda>_.
         returnE (cs @ [c_Orgno x], inv)))"
    have "catchE (AddToScopeACL l c name (c_Orgno x))
          (\<lambda>e. if asInvalidConsumerError e then returnE (cs, inv @ [c_Orgno x]) else failE (Wrap ''adding consumer'' e))
          ?k s = (Inr acc', s')"
      using assms(3) True by (simp add: updateConsumer_def acc)
    then show ?thesis
    proof (cases rule: catchE_E)
      case (error e s1)
      then have "asInvalidConsumerError e" "s' = s1" by (auto split: if_splits)
      with error AddToScopeACL_Inl [OF assms(1,2)] True show ?thesis by simp
    next
      case (ok y s1)
      have "keeps (emits is_event) (?k y)"
        by (intro emits.keeps_intros emits_reportEvent emits_tally emits_inc) simp
      from rest [OF ok(2) this] AddToScopeACL_Inr [OF assms(1) ok(1)] True show ?thesis
        unfolding granted_def by auto
    qed simp
  next
    case False
    let ?k = "\<lambda>_. bindE (reportEvent EventTypeNormal EventUpdatedACLForScopeInDigDir
          (''ACL: revoked access to scope '' @ quote name @ '' for consumer '' @ quote (c_Orgno x))) (\<lambda>_.
        bindE (tally IncScopesConsumersDeleted) (\<lambda>_. returnE (cs, inv)))"
    have "bindE (wrapE ''deactivating consumer'' (DeactivateConsumer l c name (c_Orgno x))) ?k s = (Inr acc', s')"
      using assms(3) False by (simp add: updateConsumer_def acc)
    then obtain y s1 where d0: "wrapE ''deactivating consumer'' (DeactivateConsumer l c name (c_Orgno x)) s = (Inr y, s1)"
      and k: "?k y s1 = (Inr acc', s')" by (rule bindE_InrE)
    from d0 have d: "DeactivateConsumer l c name (c_Orgno x) s = (Inr y, s1)" by (simp only: wrapE_Inr_iff)
    have "keeps (emits is_event) (?k y)"
      by (intro emits.keeps_intros emits_reportEvent emits_tally emits_inc) simp
    from rest [OF k this] DeactivateConsumer_Inr [OF assms(1) d] False show ?thesis
      unfolding revoked_def by auto
  qed
qed

lemma acl_log_mono:
  assumes "set t \<subseteq> set t'"
  shows "granted l c name n t \<Longrightarrow> granted l c name n t'" "refused l c name n t \<Longrightarrow> refused l c name n t'"
    "revoked l c name n t \<Longrightarrow> revoked l c name n t'"
  using assms unfolding acl_log_defs by blast+

lemma updateConsumers_Inr:
  assumes "retry_contract (net l)" and "plain_errors l" and "updateConsumers l c name st cs s = (Inr (), s')"
    and "x \<in> set cs"
  shows "if c_ShouldBeAdded x then granted l c name (c_Orgno x) (trace s') \<or> refused l c name (c_Orgno x) (trace s')
    else revoked l c name (c_Orgno x) (trace s')"
proof -
  let ?k = "\<lambda>(_, inv). if length inv > 0 then setInvalidCondition l name inv else setValidCondition l name"
  have "bindE (foldE (updateConsumer l c name) (st, []) cs) ?k s = (Inr (), s')"
    using assms(3,4) unfolding updateConsumers_def by (auto split: if_splits)
  then obtain r s1 where f: "foldE (updateConsumer l c name) (st, []) cs s = (Inr r, s1)" and k: "?k r s1 = (Inr (), s')"
    by (rule bindE_InrE)
  have "keeps (emits (\<lambda>_. False)) (?k r)" by (intro keeps_splits emits_setConditions)
  from keepsD [OF this k] have g: "trace s' = trace s1" by (auto simp: emits_def list_all_iff)
  obtain s2 a a' s3 where "updateConsumer l c name a x s2 = (Inr a', s3)" and "emits (acl_effect l c name) s3 s1"
    using emits.foldE_each [OF emits_updateConsumer [OF assms(1)] f assms(4)] by blast
  moreover from this(2) have "set (trace s3) \<subseteq> set (trace s')" by (auto simp: emits_def g)
  ultimately show ?thesis
    using updateConsumer_Inr [OF assms(1,2)] acl_log_mono by meson
qed

text \<open>Go visits every entry of a map exactly once, in some order.\<close>

definition range_contract :: "('w, 'c) lib \<Rightarrow> bool" where
  "range_contract l \<longleftrightarrow> (\<forall>w i. range_order (fst (sys_RangeOrder (sys l) w) i))"

text \<open>
  C9: when the access list of a scope has been updated without error, DigDir answered with the
  current list, every desired organisation that had no access was granted it or refused as invalid
  with status 400, and the access of every organisation that is not desired was revoked: no other
  failure of one of these calls is passed over.
\<close>

theorem update_acl_settles:
  assumes "retry_contract (net l)" and "plain_errors l" and "range_contract l"
    and "updateACL l c sc s = (Inr (), s')"
  shows "\<exists>acl e. e \<in> set (trace s') \<and>
    answered l c MethodGet [''scopes'', ''access''] (scope_query (ToString sc)) '''' (json_ACL (json l)) acl e \<and>
    (\<forall>n \<in> desired_orgnos sc - active_orgnos (acl_state acl).
       granted l c (ToString sc) n (trace s') \<or> refused l c (ToString sc) n (trace s')) \<and>
    (\<forall>n \<in> active_orgnos (acl_state acl) - desired_orgnos sc. revoked l c (ToString sc) n (trace s'))"
proof -
  let ?n = "ToString sc"
  obtain acl s1 where a0: "wrapE ''getting ACL'' (GetScopeACL l c ?n) s = (Inr acl, s1)"
    and k: "bindE (call (sys_RangeOrder (sys l))) (\<lambda>ord. case FilterConsumers ord sc acl of
      (consumerStatus, consumerList) \<Rightarrow> updateConsumers l c ?n consumerStatus consumerList) s1 = (Inr (), s')"
    using assms(4) unfolding updateACL_def Let_def by (rule bindE_InrE)
  from a0 have a: "GetScopeACL l c ?n s = (Inr acl, s1)" by (simp only: wrapE_Inr_iff)
  obtain t e where e0: "trace s1 = trace s @ t @ [e]"
    and e: "answered l c MethodGet [''scopes'', ''access''] (scope_query ?n) '''' (json_ACL (json l)) acl e"
    using request_answered [OF assms(1) endpoint_then [OF a [unfolded GetScopeACL_def, folded scope_query_def]]] by blast
  obtain ord w where ord: "sys_RangeOrder (sys l) (world s1) = (ord, w)" by (cases "sys_RangeOrder (sys l) (world s1)")
  obtain cs diff where f: "FilterConsumers ord sc acl = (cs, diff)" by (cases "FilterConsumers ord sc acl")
  let ?s = "s1\<lparr>world := w\<rparr>"
  have u: "updateConsumers l c ?n cs diff ?s = (Inr (), s')"
    using k by (simp add: bindE_def call_def ord f)
  have "\<forall>i. range_order (ord i)" using assms(3) ord unfolding range_contract_def by (metis fst_conv)
  note D = set_difference [OF this, of _ sc acl, unfolded f snd_conv]
  have settled: "if c_ShouldBeAdded x then granted l c ?n (c_Orgno x) (trace s') \<or> refused l c ?n (c_Orgno x) (trace s')
      else revoked l c ?n (c_Orgno x) (trace s')" if "x \<in> set diff" for x
    by (rule updateConsumers_Inr [OF assms(1,2) u that])
  have grow: "set (trace s1) \<subseteq> set (trace s')"
    using keepsD [OF emits_updateConsumers [OF assms(1)] u] by (auto simp: emits_def)
  have add: "granted l c ?n n (trace s') \<or> refused l c ?n n (trace s')"
    if n: "n \<in> desired_orgnos sc - active_orgnos (acl_state acl)" for n
  proof -
    obtain st where "CreateConsumer True st n \<in> set diff"
      using n by (cases "acl_state acl n") (auto simp: D active_orgnos_def)
    from settled [OF this] show ?thesis by simp
  qed
  have del: "revoked l c ?n n (trace s')" if n: "n \<in> active_orgnos (acl_state acl) - desired_orgnos sc" for n
  proof -
    obtain st where "CreateConsumer False st n \<in> set diff"
      using n by (auto simp: D active_orgnos_def)
    from settled [OF this] show ?thesis by simp
  qed
  from e0 grow have "e \<in> set (trace s')" by auto
  with e add del show ?thesis by blast
qed

definition demo_scope_pair :: scope where
  "demo_scope_pair = CurrentScopeInfo demo_scope demo_exposed"

lemma demo_filter: "FilterConsumers (\<lambda>_ cs. cs) demo_scope_pair [] = ([], [CreateConsumer True ScopeStateApproved ''111''])"
  by code_simp

lemma demo_plain_errors [simp]: "plain_errors (demo_lib (\<lambda>_. ok_response) regs i)"
  by (simp add: plain_errors_def plain_result_def demo_net_def demo_codec_def ok_response_def)

lemma demo_range_contract [simp]: "range_contract (demo_lib r regs i)"
  by (simp add: range_contract_def demo_sys_def range_order_def)

text \<open>The unfolding rules of a run against the demonstration libraries.\<close>

lemmas demo_run = bindE_def wrapE_run catchE_def returnE_def liftE_def failE_def call_def call_err_def endpoint_def
  ApiV1URL_def demo_net_def demo_url_def has_suffix_def demo_request_all_ok demo_codec_def the_inst_def set_inst_def
  modify_status_def emit_def set_condition_def reportEvent_def tally_def client_op_defs Let_def

theorem update_acl_settles_witness:
  "case updateACL (demo_lib (\<lambda>_. ok_response) [] demo_maskinporten) demo_config demo_scope_pair (demo_state demo_maskinporten) of
     (r, s') \<Rightarrow> r = Inr () \<and>
       (granted (demo_lib (\<lambda>_. ok_response) [] demo_maskinporten) demo_config ''nav:p:s'' ''111'' (trace s') \<or>
        refused (demo_lib (\<lambda>_. ok_response) [] demo_maskinporten) demo_config ''nav:p:s'' ''111'' (trace s'))"
proof -
  let ?l = "demo_lib (\<lambda>_. ok_response) [] demo_maskinporten"
  let ?s = "demo_state demo_maskinporten"
  obtain r s' where run: "updateACL ?l demo_config demo_scope_pair ?s = (r, s')"
    by (cases "updateACL ?l demo_config demo_scope_pair ?s")
  have name: "ToString demo_scope_pair = ''nav:p:s''"
    by (simp add: ToString_def demo_scope_pair_def demo_scope_def)
  have r: "r = Inr ()"
    using run by (simp add: updateACL_def updateConsumers_def updateConsumer_def setValidCondition_def demo_run
        demo_sys_def demo_filter IncScopesConsumersCreatedOrUpdated_def incWithNamespaceLabel_def add_counter_def
        demo_state_def demo_maskinporten_def CreateConsumer_def demo_kube_def)
  have d: "desired_orgnos demo_scope_pair = {''111''}"
    by (auto simp: desired_orgnos_def demo_scope_pair_def demo_exposed_def)
  have "retry_contract (net ?l)" by simp
  from update_acl_settles [OF this _ _ run [unfolded r]] obtain acl e where
    a: "answered ?l demo_config MethodGet [''scopes'', ''access''] (scope_query ''nav:p:s'') '''' (json_ACL (json ?l)) acl e"
    "\<forall>n \<in> {''111''} - active_orgnos (acl_state acl). granted ?l demo_config ''nav:p:s'' n (trace s') \<or>
       refused ?l demo_config ''nav:p:s'' n (trace s')"
    unfolding name d by auto
  from a(1) have "acl = []" by (auto simp: answered_def demo_codec_def)
  with a(2) have "granted ?l demo_config ''nav:p:s'' ''111'' (trace s') \<or> refused ?l demo_config ''nav:p:s'' ''111'' (trace s')"
    by (simp add: active_orgnos_def acl_state_def)
  with run r show ?thesis by simp
qed

section \<open>Exposed scopes\<close>

lemma deactivate_Inr:
  assumes "retry_contract (net l)" and "deactivate l c sc s = (Inr (), s')"
  shows "\<exists>t e x. trace s' = trace s @ t \<and> e \<in> set t \<and>
    answered l c MethodDelete [''scopes''] (scope_query (ToString sc)) '''' (json_ScopePtr (json l)) (Some x) e"
proof -
  let ?k = "\<lambda>registration. case registration of
       None \<Rightarrow> failE (Panicked ''invalid memory address or nil pointer dereference'')
     | Some r \<Rightarrow>
         bindE (reportEvent EventTypeWarning EventDeactivatedScopeInDigDir
           (''Deactivated scope '' @ quote (sr_Name r) @ ''; consumers no longer have access'')) (\<lambda>_.
         tally IncScopesDeleted)"
  obtain y s1 where d0: "wrapE ''deleting scope'' (DeleteScope l c (ToString sc)) s = (Inr y, s1)" and k: "?k y s1 = (Inr (), s')"
    using assms(2) unfolding deactivate_def by (rule bindE_InrE)
  from k obtain x where y: "y = Some x" by (cases y) auto
  from d0 have d: "DeleteScope l c (ToString sc) s = (Inr (Some x), s1)" by (simp only: wrapE_Inr_iff y)
  have "keeps (emits is_event) (?k y)"
    by (intro keeps_splits emits.keeps_intros emits_reportEvent emits_tally emits_inc) simp
  from keepsD [OF this k] obtain t' where g: "trace s' = trace s1 @ t'" by (auto simp: emits_def)
  obtain t e where "trace s1 = trace s @ t @ [e]"
    "answered l c MethodDelete [''scopes''] (scope_query (ToString sc)) '''' (json_ScopePtr (json l)) (Some x) e"
    using request_answered [OF assms(1) endpoint_then [OF d [unfolded DeleteScope_def, folded scope_query_def]]] by blast
  with g show ?thesis by (intro exI [of _ "t @ [e] @ t'"] exI [of _ e] exI [of _ x]) simp
qed

text \<open>
  C14: a scope that is not enabled is deactivated and nothing else: the only calls delete this scope,
  its access list is neither read nor changed, and success means that the deletion was answered.
\<close>

theorem disabled_scope_deactivated:
  assumes "retry_contract (net l)" and "\<not> es_Enabled (sc_CurrentScope sc)" and "updateScope l c sc s = (r, s')"
  shows "\<exists>t. trace s' = trace s @ t \<and>
    list_all (\<lambda>e. is_event e \<or> api_call l c MethodDelete [''scopes''] (scope_query (ToString sc)) e) t \<and>
    (r = Inr () \<longrightarrow> (\<exists>e x. e \<in> set (trace s') \<and>
       answered l c MethodDelete [''scopes''] (scope_query (ToString sc)) '''' (json_ScopePtr (json l)) (Some x) e))"
proof -
  have run: "deactivate l c sc s = (r, s')"
    using assms(2,3) by (auto simp: updateScope_def whenE_def bindE_def split: prod.splits sum.splits)
  obtain t where "trace s' = trace s @ t"
    "list_all (\<lambda>e. is_event e \<or> api_call l c MethodDelete [''scopes''] (scope_query (ToString sc)) e) t"
    using keepsD [OF emits_deactivate [OF assms(1)] run] unfolding emits_def by blast
  moreover have "\<exists>e x. e \<in> set (trace s') \<and>
       answered l c MethodDelete [''scopes''] (scope_query (ToString sc)) '''' (json_ScopePtr (json l)) (Some x) e"
    if "r = Inr ()" using deactivate_Inr [OF assms(1) run [unfolded that]] by auto
  ultimately show ?thesis by (intro exI [of _ t] conjI impI)
qed

theorem disabled_scope_deactivated_witness:
  "case updateScope (demo_lib (\<lambda>_. ok_response) [] demo_maskinporten) demo_config
      (CurrentScopeInfo demo_scope (demo_exposed\<lparr>es_Enabled := False\<rparr>)) (demo_state demo_maskinporten) of
     (r, s') \<Rightarrow> r = Inr () \<and> (\<exists>e x. e \<in> set (trace s') \<and>
       answered (demo_lib (\<lambda>_. ok_response) [] demo_maskinporten) demo_config MethodDelete [''scopes'']
         (scope_query ''nav:p:s'') '''' (json_ScopePtr (demo_codec [])) (Some x) e)"
proof -
  let ?l = "demo_lib (\<lambda>_. ok_response) [] demo_maskinporten"
  let ?s = "demo_state demo_maskinporten"
  let ?sc = "CurrentScopeInfo demo_scope (demo_exposed\<lparr>es_Enabled := False\<rparr>)"
  obtain r s' where run: "updateScope ?l demo_config ?sc ?s = (r, s')"
    by (cases "updateScope ?l demo_config ?sc ?s")
  have name: "ToString ?sc = ''nav:p:s''" by (simp add: ToString_def demo_scope_def)
  have r: "r = Inr ()"
    using run by (simp add: updateScope_def whenE_def deactivate_def demo_run inc_defs inc_maskinporten_def
        incWithNamespaceLabel_def add_counter_def demo_state_def demo_maskinporten_def)
  have "retry_contract (net ?l)" by simp
  from disabled_scope_deactivated [OF this _ run] r run show ?thesis by (simp add: name) blast
qed

lemma filtered_Inr:
  assumes "retry_contract (net l)" and "filtered l c exs s = (Inr ops, s')"
  shows "\<exists>all t e. trace s' = trace s @ t @ [e] \<and> ops = Generate all exs \<and>
    answered l c MethodGet [''scopes''] ''?inactive=true'' '''' (json_Scopes (json l)) all e"
proof -
  obtain all where g: "GetScopes l c s = (Inr all, s')" and o: "ops = Generate all exs"
    using assms(2) unfolding filtered_def by (auto elim!: bindE_InrE)
  obtain t e where "trace s' = trace s @ t @ [e]"
    "answered l c MethodGet [''scopes''] ''?inactive=true'' '''' (json_Scopes (json l)) all e"
    using request_answered [OF assms(1) endpoint_then [OF g [unfolded GetScopes_def]]] by blast
  with o show ?thesis by (intro exI [of _ all] exI [of _ t] exI [of _ e]) simp
qed

text \<open>Deleting one of the given scopes that is not enabled.\<close>

definition deletes_disabled :: "('w, 'c) lib \<Rightarrow> config \<Rightarrow> exposedScope list \<Rightarrow> effect \<Rightarrow> bool" where
  "deletes_disabled l c exs e \<longleftrightarrow> (\<exists>sc. sc_CurrentScope sc \<in> set exs \<and> \<not> es_Enabled (sc_CurrentScope sc) \<and>
     sr_Subscope (sc_ScopeRegistration sc) = Subscope (sc_CurrentScope sc) \<and>
     api_call l c MethodDelete [''scopes''] (scope_query (ToString sc)) e)"

definition finalize_effect :: "('w, 'c) lib \<Rightarrow> config \<Rightarrow> exposedScope list \<Rightarrow> effect \<Rightarrow> bool" where
  "finalize_effect l c exs e \<longleftrightarrow> is_event e \<or>
     api_call l c MethodGet [''scopes''] ''?inactive=true'' e \<or> deletes_disabled l c exs e"

lemma emits_finalizeScope:
  assumes "retry_contract (net l)" and "sc \<in> set (ToUpdate (Generate all exs))"
  shows "keeps (emits (finalize_effect l c exs)) (finalizeScope l c sc)"
proof -
  have ex: "sc_CurrentScope sc \<in> set exs" using assms(2) by (auto simp: Generate_eq)
  have "sr_Subscope (sc_ScopeRegistration sc) = Subscope (sc_CurrentScope sc)"
    using find_SomeD [OF ToUpdate_pairs [OF assms(2)]] by simp
  with ex have "finalize_effect l c exs e"
    if "\<not> es_Enabled (sc_CurrentScope sc)" "is_event e \<or> api_call l c MethodDelete [''scopes''] (scope_query (ToString sc)) e" for e
    using that by (auto simp: finalize_effect_def deletes_disabled_def)
  then show ?thesis
    unfolding finalizeScope_def
    by (cases "es_Enabled (sc_CurrentScope sc)") (auto intro: emits_mono [OF emits_deactivate [OF assms(1)]])
qed

lemma Finalize_emits:
  assumes "retry_contract (net l)"
  shows "keeps (emits (finalize_effect l c exs)) (Finalize l c exs)"
proof -
  have get: "keeps (emits (finalize_effect l c exs)) (GetScopes l c)"
    by (rule emits_mono [OF emits_ops(10) [OF assms]]) (simp add: finalize_effect_def)
  have "keeps (emits (finalize_effect l c exs))
      (if length (ToUpdate (Generate all exs)) = 0 then returnE ()
       else forE (ToUpdate (Generate all exs)) (finalizeScope l c))" for all
    by (intro keeps_splits emits.keeps_intros emits_finalizeScope [OF assms])
  then show ?thesis unfolding Finalize_def filtered_def bindE_assoc bindE_returnE
    by (intro emits.keeps_bindE emits.keeps_wrapE get)
qed

text \<open>
  C15: when a client is finalized, the only scopes that are deleted in DigDir are scopes of its
  specification that are not enabled; an enabled scope is left in place, whatever the calls answer.
\<close>

theorem finalize_spares_enabled_scopes:
  assumes "retry_contract (net l)" and "Finalize l c exs s = (r, s')"
  shows "\<exists>t. trace s' = trace s @ t \<and> list_all (finalize_effect l c exs) t \<and>
    (list_all es_Enabled exs \<longrightarrow> list_all (api_call l c MethodGet [''scopes''] ''?inactive=true'') (filter (Not \<circ> is_event) t))"
proof -
  obtain t where t: "trace s' = trace s @ t" "list_all (finalize_effect l c exs) t"
    using keepsD [OF Finalize_emits [OF assms(1)] assms(2)] by (auto simp: emits_def)
  moreover have "list_all (api_call l c MethodGet [''scopes''] ''?inactive=true'') (filter (Not \<circ> is_event) t)"
    if "list_all es_Enabled exs"
    using t(2) that unfolding list_all_iff finalize_effect_def deletes_disabled_def by auto
  ultimately show ?thesis by blast
qed

theorem finalize_spares_enabled_scopes_witness:
  "case Finalize (demo_lib (\<lambda>_. ok_response) [] demo_maskinporten) demo_config [demo_exposed] (demo_state demo_maskinporten) of
     (r, s') \<Rightarrow> r = Inr () \<and> list_all es_Enabled [demo_exposed] \<and>
       list_all (api_call (demo_lib (\<lambda>_. ok_response) [] demo_maskinporten) demo_config MethodGet [''scopes''] ''?inactive=true'')
         (filter (Not \<circ> is_event) (trace s'))"
proof -
  let ?l = "demo_lib (\<lambda>_. ok_response) [] demo_maskinporten"
  let ?s = "demo_state demo_maskinporten"
  obtain r s' where run: "Finalize ?l demo_config [demo_exposed] ?s = (r, s')"
    by (cases "Finalize ?l demo_config [demo_exposed] ?s")
  have gen: "ToUpdate (Generate [demo_scope] [demo_exposed]) = [demo_scope_pair]" by code_simp
  have en: "es_Enabled (sc_CurrentScope demo_scope_pair)" "list_all es_Enabled [demo_exposed]"
    by (simp_all add: demo_scope_pair_def demo_exposed_def)
  have r: "r = Inr ()"
    using run by (simp add: Finalize_def filtered_def finalizeScope_def demo_run gen en)
  have "retry_contract (net ?l)" by simp
  from finalize_spares_enabled_scopes [OF this run] en run r show ?thesis
    by (auto simp: demo_state_def)
qed

text \<open>
  The scopes of a client are finalized: DigDir listed its scopes, and every disabled scope of the
  specification that it knows was deleted.
\<close>

definition scopes_finalized :: "('w, 'c) lib \<Rightarrow> config \<Rightarrow> exposedScope list \<Rightarrow> effect list \<Rightarrow> bool" where
  "scopes_finalized l c exs t \<longleftrightarrow> (\<exists>all e. e \<in> set t \<and>
     answered l c MethodGet [''scopes''] ''?inactive=true'' '''' (json_Scopes (json l)) all e \<and>
     (\<forall>ex \<in> set exs. \<not> es_Enabled ex \<longrightarrow> (case List.find (\<lambda>r. sr_Subscope r = Subscope ex) (rev all) of
        None \<Rightarrow> True
      | Some reg \<Rightarrow> \<exists>e' \<in> set t. \<exists>x. answered l c MethodDelete [''scopes''] (scope_query (ToString (CurrentScopeInfo reg ex))) ''''
          (json_ScopePtr (json l)) (Some x) e')))"

lemma Finalize_Inr:
  assumes "retry_contract (net l)" and "Finalize l c exs s = (Inr (), s')"
  shows "\<exists>t. trace s' = trace s @ t \<and> scopes_finalized l c exs t"
proof -
  obtain ops s1 where f: "filtered l c exs s = (Inr ops, s1)"
    and k: "(if length (ToUpdate ops) = 0 then returnE () else forE (ToUpdate ops) (finalizeScope l c)) s1 = (Inr (), s')"
    using assms(2) unfolding Finalize_def by (rule bindE_InrE)
  obtain all t1 e where e: "trace s1 = trace s @ t1 @ [e]" "ops = Generate all exs"
    "answered l c MethodGet [''scopes''] ''?inactive=true'' '''' (json_Scopes (json l)) all e"
    using filtered_Inr [OF assms(1) f] by blast
  have loop: "forE (ToUpdate ops) (finalizeScope l c) s1 = (Inr (), s')"
    using k by (cases "ToUpdate ops = []") simp_all
  have em: "sc \<in> set (ToUpdate ops) \<Longrightarrow> keeps (emits (\<lambda>_. True)) (finalizeScope l c sc)" for sc
    using emits_finalizeScope [OF assms(1)] e(2) by (blast intro: emits_mono)
  obtain t2 where t2: "trace s' = trace s1 @ t2"
    using keepsD [OF emits.keeps_forE [OF em] loop] by (auto simp: emits_def)
  have del: "\<exists>e' \<in> set t2. \<exists>x. answered l c MethodDelete [''scopes''] (scope_query (ToString (CurrentScopeInfo reg ex))) ''''
      (json_ScopePtr (json l)) (Some x) e'"
    if ex: "ex \<in> set exs" "\<not> es_Enabled ex" "List.find (\<lambda>r. sr_Subscope r = Subscope ex) (rev all) = Some reg" for ex reg
  proof -
    let ?sc = "CurrentScopeInfo reg ex"
    have "?sc \<in> set (ToUpdate ops)"
      using ex by (auto simp: e(2) Generate_eq subscopes_lookup image_iff intro!: bexI [of _ ex])
    from emits.forE_each [OF em loop this] obtain sa sb where
      s: "emits (\<lambda>_. True) s1 sa" "finalizeScope l c ?sc sa = (Inr (), sb)" "emits (\<lambda>_. True) sb s'" by blast
    have "deactivate l c ?sc sa = (Inr (), sb)" using s(2) ex(2) by (simp add: finalizeScope_def CurrentScopeInfo_sel)
    from deactivate_Inr [OF assms(1) this] obtain t e' x where "trace sb = trace sa @ t" "e' \<in> set t"
      "answered l c MethodDelete [''scopes''] (scope_query (ToString ?sc)) '''' (json_ScopePtr (json l)) (Some x) e'" by blast
    with s(1,3) t2 show ?thesis by (auto simp: emits_def)
  qed
  have "scopes_finalized l c exs (t1 @ [e] @ t2)"
    unfolding scopes_finalized_def using e(3)
    by (intro exI [of _ all] exI [of _ e]) (auto split: option.split dest!: del)
  with e(1) t2 show ?thesis by (intro exI [of _ "t1 @ [e] @ t2"]) simp
qed

lemma ToScopeRegistration_same: "same_object s s' \<Longrightarrow> ToScopeRegistration (inst s') ex c = ToScopeRegistration (inst s) ex c"
  by (simp add: same_object_def ToScopeRegistration_def split: clientSpec.split)

text \<open>What the log says of one exposed scope, given the scopes DigDir knows and the payload for it.\<close>

definition scope_settled ::
  "('w, 'c) lib \<Rightarrow> config \<Rightarrow> scopeRegistration list \<Rightarrow> clientInstance \<Rightarrow> exposedScope \<Rightarrow> effect list \<Rightarrow> bool" where
  "scope_settled l c all i ex t \<longleftrightarrow>
     (case List.find (\<lambda>r. sr_Subscope r = Subscope ex) (rev all) of
        None \<Rightarrow> \<exists>e p x. e \<in> set t \<and> json_MarshalScope (json l) (ToScopeRegistration i ex c) = Inr p \<and>
          answered l c MethodPost [''scopes''] '''' p (json_Scope (json l)) x e
      | Some reg \<Rightarrow>
          if es_Enabled ex
          then \<exists>e p x. e \<in> set t \<and> json_MarshalScope (json l) (ToScopeRegistration i ex c) = Inr p \<and>
            answered l c MethodPut [''scopes''] (scope_query (ToString (CurrentScopeInfo reg ex))) p (json_Scope (json l)) x e
          else \<exists>e x. e \<in> set t \<and>
            answered l c MethodDelete [''scopes''] (scope_query (ToString (CurrentScopeInfo reg ex))) ''''
              (json_ScopePtr (json l)) (Some x) e)"

lemma createScope_Inr:
  assumes "retry_contract (net l)" and "createScope l c ex s = (Inr (), s')"
  shows "\<exists>e p x. e \<in> set (trace s') \<and> json_MarshalScope (json l) (ToScopeRegistration (inst s) ex c) = Inr p \<and>
    answered l c MethodPost [''scopes''] '''' p (json_Scope (json l)) x e"
proof -
  let ?k = "\<lambda>scope. bindE (reportEvent EventTypeNormal EventCreatedScopeInDigDir (''Created scope '' @ quote (sr_Name scope))) (\<lambda>_.
     bindE (tally IncScopesCreated) (\<lambda>_.
     wrapE ''updating ACL'' (updateACL l c (CurrentScopeInfo scope ex))))"
  obtain x s1 where cr: "create l c ex s = (Inr x, s1)" and k: "?k x s1 = (Inr (), s')"
    using assms(2) unfolding createScope_def by (rule bindE_InrE)
  have "keeps (emits (scope_effect l c)) (?k x)"
    by (intro emits.keeps_intros emits_reportEvent emits_tally emits_inc emits_mono [OF emits_updateACL [OF assms(1)] acl_scope_effect])
      (auto simp: scope_effect_def)
  from keepsD [OF this k] have g: "set (trace s1) \<subseteq> set (trace s')" by (auto simp: emits_def)
  have "RegisterScope l c (ToScopeRegistration (inst s) ex c) s = (Inr x, s1)"
    using cr by (simp add: create_def the_inst_def bindE_def)
  from endpoint_then [OF this [unfolded RegisterScope_def]] obtain p
    where p: "json_MarshalScope (json l) (ToScopeRegistration (inst s) ex c) = Inr p"
      and q: "request l c MethodPost (api_url l c [''scopes''] @ '''') p (json_Scope (json l)) s = (Inr x, s1)"
    by (auto elim!: bindE_InrE)
  obtain t e where "trace s1 = trace s @ t @ [e]" "answered l c MethodPost [''scopes''] '''' p (json_Scope (json l)) x e"
    using request_answered [OF assms(1) q] by blast
  with p g show ?thesis by (intro exI [of _ e] exI [of _ p] exI [of _ x]) auto
qed

lemma UpdateScope_Inr:
  assumes "retry_contract (net l)" and "UpdateScope l c payload name s = (Inr x, s')"
  shows "\<exists>e p. e \<in> set (trace s') \<and> json_MarshalScope (json l) payload = Inr p \<and>
    answered l c MethodPut [''scopes''] (scope_query name) p (json_Scope (json l)) x e"
proof -
  from endpoint_then [OF assms(2) [unfolded UpdateScope_def, folded scope_query_def]] obtain p
    where p: "json_MarshalScope (json l) payload = Inr p"
      and q: "request l c MethodPut (api_url l c [''scopes''] @ scope_query name) p (json_Scope (json l)) s = (Inr x, s')"
    by (auto elim!: bindE_InrE)
  obtain t e where "trace s' = trace s @ t @ [e]" "answered l c MethodPut [''scopes''] (scope_query name) p (json_Scope (json l)) x e"
    using request_answered [OF assms(1) q] by blast
  with p show ?thesis by (intro exI [of _ e] exI [of _ p]) auto
qed

lemma update_activate_Inr:
  assumes "retry_contract (net l)" and "update l c sc s = (Inr (), s') \<or> activate l c sc s = (Inr (), s')"
  shows "\<exists>e p x. e \<in> set (trace s') \<and>
    json_MarshalScope (json l) (ToScopeRegistration (inst s) (sc_CurrentScope sc) c) = Inr p \<and>
    answered l c MethodPut [''scopes''] (scope_query (ToString sc)) p (json_Scope (json l)) x e"
proof -
  let ?u = "UpdateScope l c (ToScopeRegistration (inst s) (sc_CurrentScope sc) c) (ToString sc)"
  obtain x s1 k where u: "?u s = (Inr x, s1)" and k: "k s1 = (Inr (), s')" and e: "keeps (emits is_event) k"
  proof (cases "update l c sc s = (Inr (), s')")
    case True
    let ?k = "\<lambda>r. bindE (reportEvent EventTypeNormal EventUpdatedScopeInDigDir (''Updated scope '' @ quote (sr_Name r))) (\<lambda>_.
      tally IncScopesUpdated)"
    have "bindE (wrapE ''updating scope'' ?u) ?k s = (Inr (), s')"
      using True by (simp add: update_def the_inst_def bindE_def)
    then obtain x s1 where "wrapE ''updating scope'' ?u s = (Inr x, s1)" "?k x s1 = (Inr (), s')" by (rule bindE_InrE)
    moreover have "keeps (emits is_event) (?k x)"
      by (intro emits.keeps_intros emits_reportEvent emits_tally emits_inc) simp
    ultimately show thesis using that unfolding wrapE_Inr_iff by blast
  next
    case False
    let ?k = "\<lambda>r. bindE (reportEvent EventTypeNormal EventActivatedScopeInDigDir (''Activated scope '' @ quote (sr_Name r))) (\<lambda>_.
      tally IncScopesReactivated)"
    have "bindE (wrapE ''activating scope'' ?u) ?k s = (Inr (), s')"
      using assms(2) False by (simp add: activate_def the_inst_def bindE_def)
    then obtain x s1 where "wrapE ''activating scope'' ?u s = (Inr x, s1)" "?k x s1 = (Inr (), s')" by (rule bindE_InrE)
    moreover have "keeps (emits is_event) (?k x)"
      by (intro emits.keeps_intros emits_reportEvent emits_tally emits_inc) simp
    ultimately show thesis using that unfolding wrapE_Inr_iff by blast
  qed
  from keepsD [OF e k] have "set (trace s1) \<subseteq> set (trace s')" by (auto simp: emits_def)
  with UpdateScope_Inr [OF assms(1) u] show ?thesis by blast
qed

lemma updateScope_Inr:
  assumes "retry_contract (net l)" and "updateScope l c sc s = (Inr (), s')"
  shows "if es_Enabled (sc_CurrentScope sc)
    then \<exists>e p x. e \<in> set (trace s') \<and>
      json_MarshalScope (json l) (ToScopeRegistration (inst s) (sc_CurrentScope sc) c) = Inr p \<and>
      answered l c MethodPut [''scopes''] (scope_query (ToString sc)) p (json_Scope (json l)) x e
    else \<exists>e x. e \<in> set (trace s') \<and>
      answered l c MethodDelete [''scopes''] (scope_query (ToString sc)) '''' (json_ScopePtr (json l)) (Some x) e"
proof (cases "es_Enabled (sc_CurrentScope sc)")
  case True
  then have "bindE (if \<not> sr_Active (sc_ScopeRegistration sc) then activate l c sc else update l c sc)
      (\<lambda>_. wrapE ''updating ACL'' (updateACL l c sc)) s = (Inr (), s')"
    using assms(2) by (cases "sr_Active (sc_ScopeRegistration sc)") (simp_all add: updateScope_def whenE_def)
  then obtain s1 where "update l c sc s = (Inr (), s1) \<or> activate l c sc s = (Inr (), s1)"
    and "wrapE ''updating ACL'' (updateACL l c sc) s1 = (Inr (), s')"
    by (elim bindE_InrE) (auto split: if_splits)
  moreover from this(2) have "updateACL l c sc s1 = (Inr (), s')" by (simp only: wrapE_Inr_iff)
  from keepsD [OF emits_updateACL [OF assms(1)] this] have "set (trace s1) \<subseteq> set (trace s')" by (auto simp: emits_def)
  ultimately show ?thesis using update_activate_Inr [OF assms(1), of c sc s s1] True by auto
next
  case False
  then have "deactivate l c sc s = (Inr (), s')"
    using assms(2) by (auto simp: updateScope_def whenE_def bindE_def split: prod.splits sum.splits)
  from deactivate_Inr [OF assms(1) this] False show ?thesis by auto
qed

lemma Process_Inr:
  assumes "exs \<noteq> []" and "Process l c exs s = (Inr (), s')"
  obtains ops s1 u s2 where "filtered l c exs s = (Inr ops, s1)"
    and "forE (ToCreate ops) (createScope l c) s1 = (Inr u, s2)" and "forE (ToUpdate ops) (updateScope l c) s2 = (Inr (), s')"
proof -
  have "bindE (filtered l c exs) (\<lambda>ops.
      bindE (wrapE ''creating scopes'' (createScopes l c (ToCreate ops))) (\<lambda>_.
      wrapE ''updating scopes'' (updateScopes l c (ToUpdate ops)))) s = (Inr (), s')"
    using assms by (simp add: Process_def)
  then obtain ops s1 where f: "filtered l c exs s = (Inr ops, s1)"
    and "bindE (wrapE ''creating scopes'' (createScopes l c (ToCreate ops))) (\<lambda>_.
      wrapE ''updating scopes'' (updateScopes l c (ToUpdate ops))) s1 = (Inr (), s')" by (rule bindE_InrE)
  then obtain u s2 where "wrapE ''creating scopes'' (createScopes l c (ToCreate ops)) s1 = (Inr u, s2)"
    and "wrapE ''updating scopes'' (updateScopes l c (ToUpdate ops)) s2 = (Inr (), s')" by (elim bindE_InrE)
  with f show thesis by (intro that) (simp_all only: wrapE_Inr_iff createScopes_def updateScopes_def)
qed

text \<open>
  C13: when the exposed scopes of a client have been processed without error, DigDir listed the
  existing scopes, and for every exposed scope the right call was answered: a scope with an unknown
  subscope was created, a known one was updated with its payload when it is enabled (a disabled
  registration being activated by the same call) and deleted when it is not.
\<close>

theorem process_scopes_complete:
  assumes "retry_contract (net l)" and "exs \<noteq> []" and "Process l c exs s = (Inr (), s')"
  shows "\<exists>all e. e \<in> set (trace s') \<and>
    answered l c MethodGet [''scopes''] ''?inactive=true'' '''' (json_Scopes (json l)) all e \<and>
    list_all (\<lambda>ex. scope_settled l c all (inst s) ex (trace s')) exs"
proof -
  obtain ops s1 u s2 where f: "filtered l c exs s = (Inr ops, s1)"
    and cr: "forE (ToCreate ops) (createScope l c) s1 = (Inr u, s2)" and up: "forE (ToUpdate ops) (updateScope l c) s2 = (Inr (), s')"
    using assms(2,3) by (rule Process_Inr)
  note steps = step_ofI [OF emits_createScope [OF assms(1)] same_object_createScope [OF assms(1)]]
    step_ofI [OF emits_updateScope [OF assms(1)] same_object_updateScope(1) [OF assms(1)]]
  have 1: "step_of s s1"
    by (rule keepsD [OF step_ofI [OF emits_filtered [OF assms(1)]] f])
      (unfold filtered_def, intro same_object_intros same_object_ops [OF assms(1)])
  have 2: "step_of s1 s2" by (rule keepsD [OF step_of.keeps_forE cr]) (rule steps(1))
  have 3: "step_of s2 s'" by (rule keepsD [OF step_of.keeps_forE up]) (rule steps(2))
  obtain all t e where tr: "trace s1 = trace s @ t @ [e]" and ops: "ops = Generate all exs"
    and ans: "answered l c MethodGet [''scopes''] ''?inactive=true'' '''' (json_Scopes (json l)) all e"
    using filtered_Inr [OF assms(1) f] by blast
  have "e \<in> set (trace s1)" by (simp add: tr)
  note e = this ops ans
  have "scope_settled l c all (inst s) ex (trace s')" if ex: "ex \<in> set exs" for ex
  proof (cases "List.find (\<lambda>r. sr_Subscope r = Subscope ex) (rev all)")
    case None
    then have "ex \<in> set (ToCreate ops)" using ex by (simp add: e(2) Generate_eq subscopes_lookup)
    from step_of.forE_each [OF steps(1) cr this] obtain sa sb where
      s: "step_of s1 sa" "createScope l c ex sa = (Inr (), sb)" "step_of sb s2" by blast
    have "same_object s sa" using 1 s(1) step_of.trans unfolding step_of_def by blast
    note same = ToScopeRegistration_same [OF this, of ex c]
    have "set (trace sb) \<subseteq> set (trace s')" using step_of_effects [OF step_of.trans [OF s(3) 3]] .
    with createScope_Inr [OF assms(1) s(2), unfolded same] None show ?thesis
      unfolding scope_settled_def by auto
  next
    case (Some reg)
    then have "CurrentScopeInfo reg ex \<in> set (ToUpdate ops)"
      using ex by (auto simp: e(2) Generate_eq subscopes_lookup image_iff intro!: bexI [of _ ex])
    from step_of.forE_each [OF steps(2) up this] obtain sa sb where
      s: "step_of s2 sa" "updateScope l c (CurrentScopeInfo reg ex) sa = (Inr (), sb)" "step_of sb s'" by blast
    have "same_object s sa" using 1 2 s(1) step_of.trans unfolding step_of_def by blast
    note same = ToScopeRegistration_same [OF this, of ex c]
    have "set (trace sb) \<subseteq> set (trace s')" using step_of_effects [OF s(3)] .
    with updateScope_Inr [OF assms(1) s(2), unfolded CurrentScopeInfo_sel same] Some show ?thesis
      unfolding scope_settled_def by (auto split: if_splits)
  qed
  moreover have "e \<in> set (trace s')" using e(1) step_of_effects [OF step_of.trans [OF 2 3]] by blast
  ultimately show ?thesis using e(3) by (auto simp: list_all_iff)
qed

theorem process_scopes_complete_witness:
  "case Process (demo_lib (\<lambda>_. ok_response) [] demo_maskinporten) demo_config [demo_exposed] (demo_state demo_maskinporten) of
     (r, s') \<Rightarrow> r = Inr () \<and> (\<exists>e p x. e \<in> set (trace s') \<and>
       answered (demo_lib (\<lambda>_. ok_response) [] demo_maskinporten) demo_config MethodPut [''scopes'']
         (scope_query ''nav:p:s'') p (json_Scope (demo_codec [])) x e)"
proof -
  let ?l = "demo_lib (\<lambda>_. ok_response) [] demo_maskinporten"
  let ?s = "demo_state demo_maskinporten"
  obtain r s' where run: "Process ?l demo_config [demo_exposed] ?s = (r, s')"
    by (cases "Process ?l demo_config [demo_exposed] ?s")
  have gen: "ToUpdate (Generate [demo_scope] [demo_exposed]) = [demo_scope_pair]"
    "ToCreate (Generate [demo_scope] [demo_exposed]) = []" by code_simp+
  have sub: "Subscope demo_exposed = sr_Subscope demo_scope" by code_simp
  have en: "es_Enabled (sc_CurrentScope demo_scope_pair)" "sr_Active (sc_ScopeRegistration demo_scope_pair)" "es_Enabled demo_exposed"
    by (simp_all add: demo_scope_pair_def demo_exposed_def demo_scope_def)
  have name: "ToString (CurrentScopeInfo demo_scope demo_exposed) = ''nav:p:s''" by (simp add: ToString_def demo_scope_def)
  have r: "r = Inr ()"
    using run by (simp add: Process_def filtered_def createScopes_def updateScopes_def updateScope_def update_def whenE_def
        demo_run gen en updateACL_def updateConsumers_def updateConsumer_def setValidCondition_def demo_sys_def demo_filter
        inc_defs inc_maskinporten_def incWithNamespaceLabel_def add_counter_def demo_state_def demo_maskinporten_def
        CreateConsumer_def demo_kube_def)
  have "retry_contract (net ?l)" by simp
  from process_scopes_complete [OF this _ run [unfolded r]] obtain all e where
    a: "answered ?l demo_config MethodGet [''scopes''] ''?inactive=true'' '''' (json_Scopes (json ?l)) all e"
    "scope_settled ?l demo_config all (inst ?s) demo_exposed (trace s')" by auto
  from a(1) have "all = [demo_scope]" by (auto simp: answered_def demo_codec_def)
  with a(2) have "\<exists>e p x. e \<in> set (trace s') \<and>
       answered ?l demo_config MethodPut [''scopes''] (scope_query ''nav:p:s'') p (json_Scope (demo_codec [])) x e"
    by (auto simp: scope_settled_def sub en name)
  with run r show ?thesis by simp
qed


section \<open>Counting reactivations\<close>

lemma same_counters_UpdateScope:
  assumes "retry_contract (net l)"
  shows "keeps same_counters (UpdateScope l c payload name)"
  unfolding UpdateScope_def
  by (intro same_counters.keeps_intros endpoint_frame [OF same_counters.state_preorder_axioms] same_counters.keeps_request [OF assms])

text \<open>
  C40: a scope that is activated again is counted as deleted: a successful \<open>activate\<close> adds one to the
  counter of deleted scopes of the resource's namespace and to no other, so the counter of
  reactivated scopes stays as it was.
\<close>

theorem activation_counted_as_deletion:
  assumes "retry_contract (net l)" and "inst_Spec (inst s) = MaskinportenClient sp" and "activate l c sc s = (Inr (), s')"
  shows "counters s' = bumped s MaskinportenScopesDeletedCount (om_Namespace (inst_Meta (inst s))) \<and>
    counters s' MaskinportenScopesReactivatedCount = counters s MaskinportenScopesReactivatedCount"
proof -
  let ?k = "\<lambda>registration. bindE (reportEvent EventTypeNormal EventActivatedScopeInDigDir (''Activated scope '' @ quote (sr_Name registration)))
    (\<lambda>_. tally IncScopesReactivated)"
  obtain x s1 where u0: "wrapE ''activating scope'' (UpdateScope l c (ToScopeRegistration (inst s) (sc_CurrentScope sc) c) (ToString sc)) s =
      (Inr x, s1)" and k: "?k x s1 = (Inr (), s')"
    using assms(3) unfolding activate_def bindE_the_inst by (rule bindE_InrE)
  from u0 have u: "UpdateScope l c (ToScopeRegistration (inst s) (sc_CurrentScope sc) c) (ToString sc) s = (Inr x, s1)"
    by (simp only: wrapE_Inr_iff)
  have s1: "counters s1 = counters s" "inst s1 = inst s"
    using keepsD [OF same_counters_UpdateScope [OF assms(1)] u] keepsD [OF same_inst_ops(10) [OF assms(1)] u]
    by (simp_all add: same_counters_def same_inst_def)
  have "counters s' = bumped s MaskinportenScopesDeletedCount (om_Namespace (inst_Meta (inst s)))"
    using k s1 assms(2)
    by (auto simp: bindE_Inr [OF reportEvent_run] IncScopesReactivated_def tally_maskinporten bumped_def fun_eq_iff)
  then show ?thesis by (simp add: bumped_def fun_eq_iff)
qed

theorem activation_counted_as_deletion_witness:
  "\<exists>s'. activate (demo_lib (\<lambda>_. ok_response) [] demo_maskinporten) demo_config demo_scope_pair (demo_state demo_maskinporten) = (Inr (), s') \<and>
     counters s' MaskinportenScopesDeletedCount ''ns'' = Some 1 \<and> counters s' MaskinportenScopesReactivatedCount ''ns'' = None"
proof -
  let ?l = "demo_lib (\<lambda>_. ok_response) [] demo_maskinporten"
  let ?s = "demo_state demo_maskinporten"
  obtain r s' where run: "activate ?l demo_config demo_scope_pair ?s = (r, s')" by (cases "activate ?l demo_config demo_scope_pair ?s")
  have s: "inst ?s = demo_maskinporten" "counters ?s = (\<lambda>_ _. None)" "om_Namespace (inst_Meta demo_maskinporten) = ''ns''"
    by (simp_all add: demo_state_def demo_maskinporten_def demo_meta_def)
  obtain sp where "inst_Spec demo_maskinporten = MaskinportenClient sp" by (simp add: demo_maskinporten_def)
  then have sp: "inst_Spec (inst ?s) = MaskinportenClient sp" by (simp only: s)
  have "r = Inr ()"
    using run sp by (simp add: activate_def demo_run inc_defs inc_maskinporten_def incWithNamespaceLabel_def add_counter_def)
  with run activation_counted_as_deletion [OF _ sp, of ?l demo_config demo_scope_pair s'] show ?thesis
    by (auto simp: s bumped_def)
qed

end
