(* ===== verification/SecretController.thy ===== *)
theory SecretController
  imports Common
begin

text \<open>
  \<open>controllers/common/secrets.go\<close>: the secret that holds the credentials of a client, and the
  removal of the secrets that no pod uses any more. The name of the current secret is the one in
  the specification.
\<close>

definition StakaterReloaderKeyAnnotation :: string where
  "StakaterReloaderKeyAnnotation = ''reloader.stakater.com/match''"

definition secretData ::
  "('w, 'c) lib \<Rightarrow> clientInstance \<Rightarrow> jsonWebKey \<Rightarrow> config \<Rightarrow> gerror + (string \<times> string) list" where
  "secretData l i jwk c = (case inst_Spec i of
     IDPortenClient sp \<Rightarrow>
       IDPortenClientSecretData (sys_MarshalJwk (sys l)) (sys_ValidateMetadata (sys l)) sp (inst_Status i) jwk c
   | MaskinportenClient sp \<Rightarrow>
       MaskinportenClientSecretData (sys_MarshalJwk (sys l)) (sys_ValidateMetadata (sys l)) sp (inst_Status i) jwk c)"

text \<open>The closure that \<open>controllerutil.CreateOrUpdate\<close> applies to the secret it finds or creates.\<close>

definition mutateSecret ::
  "('w, 'c) lib \<Rightarrow> clientInstance \<Rightarrow> (string \<times> string) list \<Rightarrow> secret \<Rightarrow> gerror option \<times> secret" where
  "mutateSecret l i data target0 =
     (let target = target0\<lparr>sec_Annotations := [(StakaterReloaderKeyAnnotation, ''true'')],
                           sec_Labels := MakeLabels i, sec_Data := data\<rparr> in
      case kube_SetControllerReference (kube l) i target of
        Inl e \<Rightarrow> (Some e, target)
      | Inr owner \<Rightarrow> (None, target\<lparr>sec_Owner := Some owner\<rparr>))"

definition targetSecret :: "clientInstance \<Rightarrow> string \<Rightarrow> secret" where
  "targetSecret i name = zeroSecret\<lparr>sec_Name := name, sec_Namespace := om_Namespace (inst_Meta i)\<rparr>"

text \<open>The call is logged with the secret that the closure makes of the target.\<close>

definition apply_secret ::
  "('w, 'c) lib \<Rightarrow> clientInstance \<Rightarrow> (string \<times> string) list \<Rightarrow> secret \<Rightarrow> (('w, 'c) st, unit) eff" where
  "apply_secret l i data target = (\<lambda>s.
     case kube_CreateOrUpdate (kube l) target (mutateSecret l i data) (world s) of
       (r, w) \<Rightarrow> (case r of Inl e \<Rightarrow> Inl e | Inr _ \<Rightarrow> Inr (),
                  s\<lparr>world := w, trace := trace s @ [SecretApplied (snd (mutateSecret l i data target)) r]\<rparr>))"

definition CreateOrUpdate :: "('w, 'c) lib \<Rightarrow> config \<Rightarrow> string \<Rightarrow> jsonWebKey \<Rightarrow> (('w, 'c) st, unit) eff" where
  "CreateOrUpdate l c secretName jwk =
     bindE the_inst (\<lambda>i.
     bindE (wrapE ''creating secret data'' (liftE (secretData l i jwk c))) (\<lambda>data.
     wrapE (''creating or updating secret '' @ quote secretName) 
       (apply_secret l i data (targetSecret i secretName))))"

definition GetManaged :: "('w, 'c) lib \<Rightarrow> (('w, 'c) st, secretLists) eff" where
  "GetManaged l =
     bindE the_inst (\<lambda>i.
     call_err (kube_ListSecrets (kube l)
       \<lparr>nn_Namespace = om_Namespace (inst_Meta i), nn_Name = om_Name (inst_Meta i)\<rparr> (MakeLabels i)))"

definition delete_secret :: "('w, 'c) lib \<Rightarrow> secret \<Rightarrow> (('w, 'c) st, unit) eff" where
  "delete_secret l sc = (\<lambda>s. case kube_Delete (kube l) sc (world s) of
     (e, w) \<Rightarrow> (write_result e, s\<lparr>world := w, trace := trace s @ [SecretDeleted sc e]\<rparr>))"

definition DeleteUnused :: "('w, 'c) lib \<Rightarrow> string \<Rightarrow> secret list \<Rightarrow> (('w, 'c) st, unit) eff" where
  "DeleteUnused l secretName unused =
     forE unused (\<lambda>oldSecret.
       if sec_Name oldSecret = secretName then returnE ()
       else wrapE ''deleting unused secret'' (delete_secret l oldSecret))"

section \<open>Properties\<close>

fun is_secret_applied :: "effect \<Rightarrow> bool" where
  "is_secret_applied (SecretApplied _ _) = True"
| "is_secret_applied _ = False"

definition deletes_other :: "string \<Rightarrow> secret list \<Rightarrow> effect \<Rightarrow> bool" where
  "deletes_other name unused e \<longleftrightarrow> (\<exists>sc r. e = SecretDeleted sc r \<and> sc \<in> set unused \<and> sec_Name sc \<noteq> name)"

lemma delete_secret_run:
  "delete_secret l sc s = (r, s') \<Longrightarrow> \<exists>e. write_result e = r \<and> trace s' = trace s @ [SecretDeleted sc e]"
  by (auto simp: delete_secret_def split: prod.splits)

lemma emits_DeleteUnused: "keeps (emits (deletes_other name unused)) (DeleteUnused l name unused)"
  unfolding DeleteUnused_def
proof (intro emits.keeps_forE keeps_if emits.keeps_returnE emits.keeps_wrapE keepsI)
  fix x s assume "x \<in> set unused" and "sec_Name x \<noteq> name"
  then show "emits (deletes_other name unused) s (snd (delete_secret l x s))"
    using delete_secret_run [of l x s "fst (delete_secret l x s)" "snd (delete_secret l x s)"]
    by (auto simp: emits_def deletes_other_def)
qed

lemma emits_CreateOrUpdate: "keeps (emits is_secret_applied) (CreateOrUpdate l c name jwk)"
  unfolding CreateOrUpdate_def
proof (intro emits.keeps_bindE emits.keeps_wrapE emits_the_inst emits.keeps_liftE)
  fix i data
  show "keeps (emits is_secret_applied) (apply_secret l i data (targetSecret i name))"
    by (simp add: keeps_def emits_def apply_secret_def split: prod.split)
qed

lemma emits_GetManaged: "keeps (emits P) (GetManaged l)"
  unfolding GetManaged_def by (intro emits.keeps_intros emits_the_inst emits_call_err)

lemma same_inst_GetManaged: "keeps same_inst (GetManaged l)"
  unfolding GetManaged_def by (intro same_inst.keeps_intros same_inst.keeps_steps)

lemma same_inst_secrets: "keeps same_inst (CreateOrUpdate l c name jwk)" "keeps same_inst (DeleteUnused l name unused)"
proof -
  have "keeps same_inst (apply_secret l i data target)" for i data target
    by (simp add: keeps_def same_inst_def apply_secret_def split: prod.split)
  then show "keeps same_inst (CreateOrUpdate l c name jwk)"
    unfolding CreateOrUpdate_def
    by (intro same_inst.keeps_bindE same_inst.keeps_wrapE same_inst.keeps_steps same_inst.keeps_liftE)
  have "keeps same_inst (delete_secret l sc)" for sc
    by (auto simp: keeps_def delete_secret_def same_inst_def split: prod.split)
  then show "keeps same_inst (DeleteUnused l name unused)"
    unfolding DeleteUnused_def by (intro same_inst.keeps_intros keeps_if)
qed

lemma DeleteUnused_Inr:
  "DeleteUnused l name unused s = (Inr u, s') \<Longrightarrow>
     trace s' = trace s @ map (\<lambda>sc. SecretDeleted sc None) (filter (\<lambda>sc. sec_Name sc \<noteq> name) unused)"
proof (induction unused arbitrary: s)
  case (Cons sc unused)
  show ?case
  proof (cases "sec_Name sc = name")
    case True
    with Cons show ?thesis by (simp add: DeleteUnused_def)
  next
    case False
    then obtain s1 where d: "delete_secret l sc s = (Inr (), s1)" and r: "DeleteUnused l name unused s1 = (Inr u, s')"
      using Cons.prems by (auto simp: DeleteUnused_def elim!: bindE_InrE)
    from delete_secret_run [OF d] have "trace s1 = trace s @ [SecretDeleted sc None]" by auto
    with Cons.IH [OF r] False show ?thesis by simp
  qed
qed (simp add: DeleteUnused_def)

text \<open>
  C11: removing unused secrets deletes only secrets of the given list, never the one with the name
  of the current secret, and on success exactly the others, in order.
\<close>

theorem delete_unused_spares_current:
  assumes "DeleteUnused l name unused s = (r, s')"
  shows "\<exists>t. trace s' = trace s @ t \<and> list_all (deletes_other name unused) t \<and>
    (r = Inr () \<longrightarrow> t = map (\<lambda>sc. SecretDeleted sc None) (filter (\<lambda>sc. sec_Name sc \<noteq> name) unused))"
proof -
  obtain t where "trace s' = trace s @ t" "list_all (deletes_other name unused) t"
    using keepsD [OF emits_DeleteUnused assms] by (auto simp: emits_def)
  with DeleteUnused_Inr [of l name unused s _ s'] assms show ?thesis by auto
qed

theorem delete_unused_spares_current_witness:
  "case DeleteUnused (demo_lib (\<lambda>_. ok_response) [] demo_idporten) ''sec''
      [zeroSecret\<lparr>sec_Name := ''old''\<rparr>, zeroSecret\<lparr>sec_Name := ''sec''\<rparr>] (demo_state demo_idporten) of
     (r, s') \<Rightarrow> r = Inr () \<and> trace s' = [SecretDeleted (zeroSecret\<lparr>sec_Name := ''old''\<rparr>) None]"
proof -
  let ?l = "demo_lib (\<lambda>_. ok_response) [] demo_idporten"
  let ?u = "[zeroSecret\<lparr>sec_Name := ''old''\<rparr>, zeroSecret\<lparr>sec_Name := ''sec''\<rparr>]"
  obtain r s' where run: "DeleteUnused ?l ''sec'' ?u (demo_state demo_idporten) = (r, s')"
    by (cases "DeleteUnused ?l ''sec'' ?u (demo_state demo_idporten)")
  have r: "r = Inr ()"
    using run by (simp add: DeleteUnused_def delete_secret_def demo_kube_def bindE_def wrapE_run returnE_def)
  from delete_unused_spares_current [OF run] r run show ?thesis
    by (auto simp: demo_state_def)
qed

text \<open>The key under which the secret of an instance holds its client ID.\<close>

definition secret_client_id_key :: "clientInstance \<Rightarrow> string" where
  "secret_client_id_key i = (case inst_Spec i of
     IDPortenClient _ \<Rightarrow> IDPortenClientIDKey | MaskinportenClient _ \<Rightarrow> MaskinportenClientIDKey)"

lemma secretData_Inr:
  assumes "secretData l i jwk c = Inr d"
  shows "\<exists>j. sys_MarshalJwk (sys l) jwk = Inr j \<and> map_of d (GetSecretJwkKey i) = Some j"
    and "map_of d (secret_client_id_key i) = Some (st_ClientID (inst_Status i))"
  using assms IDPortenClientSecretData_Inr MaskinportenClientSecretData_Inr
  by (fastforce simp: secretData_def GetSecretJwkKey_def secret_client_id_key_def split: clientSpec.splits)+

text \<open>
  The secret of an instance with a key: where it is, how it is labelled, which client ID and which
  key it holds.
\<close>

definition holds_key :: "('w, 'c) lib \<Rightarrow> clientInstance \<Rightarrow> string \<Rightarrow> jsonWebKey \<Rightarrow> secret \<Rightarrow> bool" where
  "holds_key l i name jwk sc \<longleftrightarrow> sec_Name sc = name \<and> sec_Namespace sc = om_Namespace (inst_Meta i) \<and>
     sec_Labels sc = MakeLabels i \<and>
     map_of (sec_Data sc) (secret_client_id_key i) = Some (st_ClientID (inst_Status i)) \<and>
     (\<exists>j. sys_MarshalJwk (sys l) jwk = Inr j \<and> map_of (sec_Data sc) (GetSecretJwkKey i) = Some j)"

lemma CreateOrUpdate_run:
  assumes "CreateOrUpdate l c name jwk s = (r, s')"
  shows "\<exists>t. trace s' = trace s @ t \<and> (case r of
      Inl e \<Rightarrow> t = [] \<or> (\<exists>sc e'. t = [SecretApplied sc (Inl e')] \<and> holds_key l (inst s) name jwk sc)
    | Inr _ \<Rightarrow> \<exists>sc res. t = [SecretApplied sc (Inr res)] \<and> holds_key l (inst s) name jwk sc)"
proof (cases "secretData l (inst s) jwk c")
  case (Inl e)
  with assms have "r = Inl (wrapped ''creating secret data'' e)" "s' = s"
    by (simp_all add: CreateOrUpdate_def the_inst_def bindE_def wrapE_run)
  then show ?thesis by simp
next
  case (Inr d)
  let ?t = "snd (mutateSecret l (inst s) d (targetSecret (inst s) name))"
  have h: "holds_key l (inst s) name jwk ?t"
    using secretData_Inr [OF Inr] by (simp add: holds_key_def targetSecret_def mutateSecret_def Let_def split: sum.split)
  from assms Inr h show ?thesis
    by (auto simp: CreateOrUpdate_def apply_secret_def the_inst_def bindE_def wrapE_run split: prod.splits sum.splits)
qed

end
