(* ===== verification/Reconciler.thy ===== *)
theory Reconciler
  imports ScopeController SecretController
begin

text \<open>
  \<open>controllers/common/reconciler.go\<close> and \<open>finalizer.go\<close>, and the two controllers that call them: the
  reconcile of one custom resource, from reading it to the result that says when to look again.
\<close>

section \<open>Registering the client\<close>

text \<open>The body of the loop of \<open>filterConsumedScopes\<close>; the accumulator holds \<open>valid\<close> and \<open>invalid\<close>.\<close>

definition checkConsumedScope ::
  "('w, 'c) lib \<Rightarrow> config \<Rightarrow> string list \<times> string list \<Rightarrow> string \<Rightarrow> (('w, 'c) st, string list \<times> string list) eff" where
  "checkConsumedScope l c acc scp =
     bindE (CanAccessScope l c scp) (\<lambda>canAccess.
     returnE (if canAccess then (fst acc @ [scp], snd acc) else (fst acc, snd acc @ [scp])))"

definition filterConsumedScopes ::
  "('w, 'c) lib \<Rightarrow> config \<Rightarrow> maskinportenSpec \<Rightarrow> (('w, 'c) st, string list) eff" where
  "filterConsumedScopes l c client =
     (let desired = (if length (ms_ConsumedScopes client) = 0
                     then [mp_DefaultClientScope (cfg_Maskinporten c)] else ms_ConsumedScopes client) in
      bindE (foldE (checkConsumedScope l c) ([], []) desired) (\<lambda>(valid, invalid).
      bindE the_inst (\<lambda>i.
      bindE (if length invalid > 0
             then set_condition l (InvalidConsumedScopesCondition ConditionTrue ConditionReasonFailed
                    (''Organization has no access to scopes: ['' @ join '', '' invalid @ '']'')
                    (om_Generation (inst_Meta i)))
             else set_condition l (InvalidConsumedScopesCondition ConditionFalse ConditionReasonValidated
                    ''Organization has access to all consumed scopes'' (om_Generation (inst_Meta i)))) (\<lambda>_.
      returnE valid))))"

definition createClient :: "('w, 'c) lib \<Rightarrow> config \<Rightarrow> clientRegistration \<Rightarrow> (('w, 'c) st, clientRegistration) eff" where
  "createClient l c payload = wrapE ''registering client'' (Register l c payload)"

definition updateClient ::
  "('w, 'c) lib \<Rightarrow> config \<Rightarrow> clientRegistration \<Rightarrow> string \<Rightarrow> (('w, 'c) st, clientRegistration) eff" where
  "updateClient l c payload clientID = wrapE ''updating client'' (Update l c payload clientID)"

definition registrationPayload :: "('w, 'c) lib \<Rightarrow> config \<Rightarrow> (('w, 'c) st, clientRegistration) eff" where
  "registrationPayload l c =
     bindE the_inst (\<lambda>i.
     let payload = ToClientRegistration (kube_URN (kube l)) i c in
     case inst_Spec i of
       IDPortenClient _ \<Rightarrow> returnE payload
     | MaskinportenClient sp \<Rightarrow>
         bindE (wrapE ''processing scopes'' (Process l c (ms_ExposedScopes sp))) (\<lambda>_.
         bindE (filterConsumedScopes l c sp) (\<lambda>consumedScopes.
         returnE (payload\<lparr>cr_Scopes := Some consumedScopes\<rparr>))))"

definition createOrUpdateClient :: "('w, 'c) lib \<Rightarrow> config \<Rightarrow> (('w, 'c) st, clientRegistration) eff" where
  "createOrUpdateClient l c =
     bindE (wrapE ''getting client registration'' (GetRegistration l c (cfg_ClusterName c))) (\<lambda>registration.
     bindE (registrationPayload l c) (\<lambda>payload.
     case registration of
       Some r \<Rightarrow>
         if cr_IntegrationType r \<noteq> cr_IntegrationType payload
         then failE (Err (''cannot update immutable integration type (existing: '' @ cr_IntegrationType r @
                '', desired: '' @ cr_IntegrationType payload @ '')''))
         else
           bindE (wrapE ''updating client'' (updateClient l c payload (cr_ClientID r))) (\<lambda>_.
           bindE (reportEvent EventTypeNormal EventUpdatedInDigDir ''Client is updated'') (\<lambda>_.
           bindE (tally IncClientsUpdated) (\<lambda>_.
           returnE r)))
     | None \<Rightarrow>
         bindE (wrapE ''creating client'' (createClient l c payload)) (\<lambda>r.
         bindE (reportEvent EventTypeNormal EventCreatedInDigDir ''Client is registered'') (\<lambda>_.
         bindE (tally IncClientsCreated) (\<lambda>_.
         returnE r)))))"

section \<open>Keys\<close>

definition generate_jwk :: "('w, 'c) lib \<Rightarrow> (('w, 'c) st, jsonWebKey) eff" where
  "generate_jwk l = GenerateJwk (call_err (sys_RSA (sys l))) (call (sys_UUID (sys l)))"

definition registerJwk ::
  "('w, 'c) lib \<Rightarrow> config \<Rightarrow> jsonWebKey \<Rightarrow> secretLists \<Rightarrow> string \<Rightarrow> (('w, 'c) st, unit) eff" where
  "registerJwk l c jwk managedSecrets clientID =
     bindE the_inst (\<lambda>i.
     bindE (wrapE ''merging JWKS''
              (liftE (MergeJwks (sys_Public (sys l)) (sys_UnmarshalJwk (sys l)) jwk (sl_Used managedSecrets)
                        (GetSecretJwkKey i)))) (\<lambda>jwks.
     bindE (wrapE ''registering JWKS'' (RegisterKeys l c clientID jwks)) (\<lambda>jwksResponse.
     modify_status (\<lambda>st. st\<lparr>st_KeyIDs := KeyIDs (jr_Keys jwksResponse)\<rparr>))))"

definition expiryThreshold :: duration where
  "expiryThreshold = 30 * 24 * Hour"

text \<open>
  The loop of \<open>ensureJwkValidExternalState\<close>: the first registered key with the ID decides, as
  \<open>(found, expiring)\<close>.
\<close>

fun keyState :: "int \<Rightarrow> string \<Rightarrow> digdirJwk list \<Rightarrow> bool \<times> bool" where
  "keyState now kid [] = (False, False)"
| "keyState now kid (key # keys) =
     (if dk_KeyID key = kid then (True, time_sub (ExpiryTime key) now < expiryThreshold)
      else keyState now kid keys)"

definition ensureJwkValidExternalState ::
  "('w, 'c) lib \<Rightarrow> config \<Rightarrow> string \<Rightarrow> jsonWebKey \<Rightarrow> secretLists \<Rightarrow> (('w, 'c) st, unit) eff" where
  "ensureJwkValidExternalState l c clientID jwk managedSecrets =
     bindE (wrapE ''getting keys'' (GetKeys l c clientID)) (\<lambda>resp.
     bindE (call (sys_Now (sys l))) (\<lambda>now.
     case keyState now (jwk_KeyID jwk) (jr_Keys resp) of (found, expiring) \<Rightarrow>
     if found \<and> \<not> expiring then returnE ()
     else
       bindE (registerJwk l c jwk managedSecrets clientID) (\<lambda>_.
       reportEvent EventTypeNormal EventUpdatedInDigDir ''Client credentials is refreshed'')))"

text \<open>The two ways \<open>process\<close> arrives at the key of the secret.\<close>

definition rotateKey ::
  "('w, 'c) lib \<Rightarrow> config \<Rightarrow> string \<Rightarrow> secretLists \<Rightarrow> (('w, 'c) st, jsonWebKey) eff" where
  "rotateKey l c clientID managedSecrets =
     bindE (wrapE ''generating jwk'' (generate_jwk l)) (\<lambda>jwk.
     bindE (registerJwk l c jwk managedSecrets clientID) (\<lambda>_.
     bindE (reportEvent EventTypeNormal EventRotatedInDigDir ''Client credentials is rotated'') (\<lambda>_.
     bindE (tally IncClientsRotated) (\<lambda>_.
     returnE jwk))))"

definition reuseKey ::
  "('w, 'c) lib \<Rightarrow> config \<Rightarrow> string \<Rightarrow> secretLists \<Rightarrow> (('w, 'c) st, jsonWebKey) eff" where
  "reuseKey l c clientID managedSecrets =
     bindE the_inst (\<lambda>i.
     bindE (case GetPreviousJwkFromSecret (sys_UnmarshalJwk (sys l)) managedSecrets (GetSecretJwkKey i) of
              Inr jwk \<Rightarrow> returnE jwk
            | Inl e \<Rightarrow>
                if is_sentinel ''no previous JWK found in secrets'' e
                then wrapE ''generating new JWK'' (generate_jwk l)
                else failE e) (\<lambda>jwk.
     bindE (wrapE ''refreshing keys'' (ensureJwkValidExternalState l c clientID jwk managedSecrets)) (\<lambda>_.
     returnE jwk)))"

section \<open>Processing\<close>

definition set_client_id :: "string \<Rightarrow> (('w, 'c) st, unit) eff" where
  "set_client_id clientID = modify_status (\<lambda>st. st\<lparr>st_ClientID := clientID\<rparr>)"

text \<open>The start of \<open>process\<close>: the ready condition is withdrawn.\<close>

definition startProcessing :: "('w, 'c) lib \<Rightarrow> (('w, 'c) st, unit) eff" where
  "startProcessing l =
     bindE the_inst (\<lambda>i.
     bindE (set_condition l (ReadyCondition ConditionFalse ConditionReasonProcessing
              ''Started processing resource'' (om_Generation (inst_Meta i)))) (\<lambda>_.
     wrapE ''updating status'' (update_status l)))"

text \<open>Processed annotations are removed; the write overwrites the object, status included.\<close>

definition removeAnnotations :: "('w, 'c) lib \<Rightarrow> (('w, 'c) st, unit) eff" where
  "removeAnnotations l =
     bindE the_inst (\<lambda>i.
     let a = om_Annotations (inst_Meta i);
         hasResync = (map_of a AnnotationResynchronize \<noteq> None);
         hasRotate = (map_of a AnnotationRotate \<noteq> None) in
     if hasResync \<or> hasRotate then
       bindE (set_inst (i\<lparr>inst_Meta := (inst_Meta i)\<lparr>om_Annotations :=
                filter (\<lambda>(k, _). k \<noteq> AnnotationResynchronize \<and> k \<noteq> AnnotationRotate) a\<rparr>\<rparr>)) (\<lambda>_.
       wrapE ''updating object'' (update_object l))
     else returnE ())"

text \<open>
  The end of \<open>process\<close>: the saved copy of the status is completed, put back on the object and written.
  The event is reported before the copy is put back, so its state is overwritten.
\<close>

definition completeStatus :: "('w, 'c) lib \<Rightarrow> digdiratorStatus \<Rightarrow> (('w, 'c) st, unit) eff" where
  "completeStatus l status0 =
     bindE the_inst (\<lambda>i.
     bindE (liftE (kube_Hash (kube l) i)) (\<lambda>hash.
     let generation = om_Generation (inst_Meta i) in
     bindE (getE (\<lambda>s. kube_ReconcileID (kube l) (world s))) (\<lambda>reconcileID.
     let status1 = status0\<lparr>st_CorrelationID := reconcileID, st_ObservedGeneration := Some generation,
                           st_SynchronizationHash := hash, st_SynchronizationSecretName := GetSecretName i\<rparr> in
     bindE (call (kube_SetStateSynchronized (kube l) status1)) (\<lambda>status2.
     bindE (call (kube_SetCondition (kube l) (ReadyCondition ConditionTrue ConditionReasonSynchronized
              ''Resource is up-to-date with DigDir'' generation) status2)) (\<lambda>status3.
     bindE (call (kube_SetCondition (kube l) (ErrorCondition ConditionFalse ConditionReasonSynchronized
              ''Processing completed without errors'' generation) status3)) (\<lambda>status4.
     bindE (reportEvent EventTypeNormal EventSynchronized ''Resource is up-to-date'') (\<lambda>_.
     bindE (modify_status (\<lambda>_. status4)) (\<lambda>_.
     wrapE ''updating status'' (update_status l)))))))))"

text \<open>The middle of \<open>process\<close>: the key, the secret that holds it, and the secrets no longer used.\<close>

definition syncSecret :: "('w, 'c) lib \<Rightarrow> config \<Rightarrow> string \<Rightarrow> (('w, 'c) st, unit) eff" where
  "syncSecret l c clientID =
     bindE the_inst (\<lambda>i.
     let secretName = GetSecretName i in
     bindE (wrapE ''getting managed secrets'' (GetManaged l)) (\<lambda>managedSecrets.
     bindE (if NeedsSecretRotation i then rotateKey l c clientID managedSecrets
            else reuseKey l c clientID managedSecrets) (\<lambda>jwk.
     bindE (wrapE ''creating or updating secret'' (CreateOrUpdate l c secretName jwk)) (\<lambda>_.
     DeleteUnused l secretName (sl_Unused managedSecrets)))))"

definition process :: "('w, 'c) lib \<Rightarrow> config \<Rightarrow> (('w, 'c) st, unit) eff" where
  "process l c =
     bindE (startProcessing l) (\<lambda>_.
     bindE (createOrUpdateClient l c) (\<lambda>registration.
     bindE (set_client_id (cr_ClientID registration)) (\<lambda>_.
     bindE (syncSecret l c (cr_ClientID registration)) (\<lambda>_.
     bindE the_inst (\<lambda>i.
     let status = inst_Status i in
     bindE (removeAnnotations l) (\<lambda>_.
     completeStatus l status))))))"
definition observeError :: "('w, 'c) lib \<Rightarrow> gerror \<Rightarrow> (('w, 'c) st, unit) eff" where
  "observeError l reconcileErr =
     (let message = (case as_digdir_error reconcileErr of
                       Some (_, _, _, m) \<Rightarrow> m | None \<Rightarrow> error_text reconcileErr) in
      bindE (reportEvent EventTypeWarning EventFailedSynchronization message) (\<lambda>_.
      bindE the_inst (\<lambda>i.
      bindE (set_condition l (ErrorCondition ConditionTrue ConditionReasonFailed message (om_Generation (inst_Meta i)))) (\<lambda>_.
      bindE (tally IncClientsFailedProcessing) (\<lambda>_.
      update_status l)))))"

section \<open>Finalizing\<close>

definition FinalizerName :: string where "FinalizerName = ''digdirator.nais.io/finalizer''"
definition OldFinalizerName :: string where "OldFinalizerName = ''finalizer.digdirator.nais.io''"
definition PreserveAnnotation :: string where "PreserveAnnotation = ''digdir.nais.io/preserve''"

definition markedForDeletion :: "clientInstance \<Rightarrow> bool" where
  "markedForDeletion i = (case om_DeletionTimestamp (inst_Meta i) of
     None \<Rightarrow> False | Some t \<Rightarrow> t \<noteq> zeroTime)"

definition shouldPreserve :: "clientInstance \<Rightarrow> bool" where
  "shouldPreserve i = (case map_of (om_Annotations (inst_Meta i)) PreserveAnnotation of
     Some value \<Rightarrow> value = ''true'' | None \<Rightarrow> False)"

text \<open>\<open>ctrl.Result\<close>: when the object is looked at again; zero means not until it changes.\<close>

record ctrlResult =
  RequeueAfter :: duration

definition deleteClient :: "('w, 'c) lib \<Rightarrow> config \<Rightarrow> bool \<Rightarrow> (('w, 'c) st, unit) eff" where
  "deleteClient l c existing =
     bindE the_inst (\<lambda>i.
     if \<not> existing then returnE ()
     else if shouldPreserve i then returnE ()
     else wrapE ''deleting client'' (Delete l c (st_ClientID (inst_Status i))))"

definition finalizeScopes :: "('w, 'c) lib \<Rightarrow> config \<Rightarrow> (('w, 'c) st, unit) eff" where
  "finalizeScopes l c =
     bindE the_inst (\<lambda>i. case inst_Spec i of
       MaskinportenClient sp \<Rightarrow>
         wrapE ''finalizer: deleting Maskinporten scope'' (Finalize l c (ms_ExposedScopes sp))
     | IDPortenClient _ \<Rightarrow> returnE ())"

definition removeFinalizers :: "('w, 'c) lib \<Rightarrow> (('w, 'c) st, unit) eff" where
  "removeFinalizers l =
     bindE the_inst (\<lambda>i.
     bindE (set_inst (kube_RemoveFinalizer (kube l) OldFinalizerName
              (kube_RemoveFinalizer (kube l) FinalizerName i))) (\<lambda>_.
     wrapE ''removing finalizer'' (update_object l)))"

definition finalize :: "('w, 'c) lib \<Rightarrow> config \<Rightarrow> (('w, 'c) st, ctrlResult) eff" where
  "finalize l c =
     bindE the_inst (\<lambda>i.
     if \<not> kube_ContainsFinalizer (kube l) i FinalizerName \<and> \<not> kube_ContainsFinalizer (kube l) i OldFinalizerName
     then returnE \<lparr>RequeueAfter = 0\<rparr>
     else
       bindE (wrapE ''finalizer: checking client existence'' (Exists l c (cfg_ClusterName c))) (\<lambda>existing.
       bindE (deleteClient l c existing) (\<lambda>_.
       bindE (finalizeScopes l c) (\<lambda>_.
       bindE (removeFinalizers l) (\<lambda>_.
       bindE (tally IncClientsDeleted) (\<lambda>_.
       returnE \<lparr>RequeueAfter = 0\<rparr>))))))"

section \<open>Reconciling\<close>

definition prepare :: "('w, 'c) lib \<Rightarrow> resourceKind \<Rightarrow> namespacedName \<Rightarrow> (('w, 'c) st, unit) eff" where
  "prepare l kind req = bindE (call_err (kube_Get (kube l) kind req)) set_inst"

definition ensureFinalizer :: "('w, 'c) lib \<Rightarrow> (('w, 'c) st, unit) eff" where
  "ensureFinalizer l =
     bindE the_inst (\<lambda>i.
     if \<not> kube_ContainsFinalizer (kube l) i FinalizerName then
       bindE (set_inst (kube_AddFinalizer (kube l) FinalizerName i)) (\<lambda>_.
       wrapE ''registering finalizer'' (update_object l))
     else returnE ())"

text \<open>The result after processing succeeded, by the conditions it left.\<close>

definition processed :: "('w, 'c) lib \<Rightarrow> (('w, 'c) st, ctrlResult) eff" where
  "processed l =
     bindE the_inst (\<lambda>i.
     let conditions = st_Conditions (inst_Status i) in
     if IsStatusConditionTrue l conditions ConditionTypeInvalidConsumedScopes then
       bindE (tally IncClientsFailedInvalidConfig) (\<lambda>_. returnE \<lparr>RequeueAfter = 1 * Hour\<rparr>)
     else if IsStatusConditionTrue l conditions ConditionTypeInvalidExposedScopesConsumers then
       returnE \<lparr>RequeueAfter = 0\<rparr>
     else bindE (tally IncClientsProcessed) (\<lambda>_. returnE \<lparr>RequeueAfter = Second\<rparr>))"

text \<open>From the check whether anything has to be done to the end of \<open>Reconcile\<close>.\<close>

definition synchronize :: "('w, 'c) lib \<Rightarrow> config \<Rightarrow> (('w, 'c) st, ctrlResult) eff" where
  "synchronize l c =
     bindE (call (sys_Now (sys l))) (\<lambda>now.
     bindE the_inst (\<lambda>i.
     if IsUpToDate now i \<and> \<not> HasRetryableStatusCondition l (st_Conditions (inst_Status i))
     then returnE \<lparr>RequeueAfter = 8 * Hour\<rparr>
     else
       catchE (process l c)
         (\<lambda>err. bindE (wrapE ''observing error'' (observeError l err)) (\<lambda>_. returnE \<lparr>RequeueAfter = Second\<rparr>))
         (\<lambda>_. processed l)))"

definition Reconcile ::
  "('w, 'c) lib \<Rightarrow> config \<Rightarrow> resourceKind \<Rightarrow> namespacedName \<Rightarrow> (('w, 'c) st, ctrlResult) eff" where
  "Reconcile l c kind req =
     catchE (prepare l kind req)
       (\<lambda>err. case kube_IgnoreNotFound (kube l) err of
                None \<Rightarrow> returnE \<lparr>RequeueAfter = 0\<rparr> | Some e \<Rightarrow> failE e)
       (\<lambda>_. bindE the_inst (\<lambda>i.
            if markedForDeletion i then finalize l c
            else bindE (ensureFinalizer l) (\<lambda>_. synchronize l c)))"

definition IDPortenReconciler_Reconcile ::
  "('w, 'c) lib \<Rightarrow> config \<Rightarrow> namespacedName \<Rightarrow> (('w, 'c) st, ctrlResult) eff" where
  "IDPortenReconciler_Reconcile l c req = Reconcile l c KindIDPorten req"

definition MaskinportenReconciler_Reconcile ::
  "('w, 'c) lib \<Rightarrow> config \<Rightarrow> namespacedName \<Rightarrow> (('w, 'c) st, ctrlResult) eff" where
  "MaskinportenReconciler_Reconcile l c req = Reconcile l c KindMaskinporten req"

section \<open>Effects of the parts of a reconcile\<close>

fun is_http :: "effect \<Rightarrow> bool" where
  "is_http (Http _ _ _) = True"
| "is_http _ = False"

fun is_write :: "effect \<Rightarrow> bool" where
  "is_write (KubeUpdate _ _) = True"
| "is_write (KubeStatusUpdate _ _) = True"
| "is_write _ = False"

lemma api_call_http: "api_call l c m path q e \<Longrightarrow> is_http e"
  by (cases e) (auto simp: api_call_def elim: is_token_call.elims)

lemma scope_effect_http: "scope_effect l c e \<Longrightarrow> is_http e \<or> is_event e"
  by (auto simp: scope_effect_def dest: api_call_http)

abbreviation talks :: "effect \<Rightarrow> bool" where
  "talks e \<equiv> is_http e \<or> is_event e"

lemma emits_CanAccessScope:
  assumes "retry_contract (net l)"
  shows "keeps (emits (scope_effect l c)) (CanAccessScope l c name)"
  unfolding CanAccessScope_def
  by (intro keeps_splits emits.keeps_intros emits_cache_get emits_mono [OF emits_ops(8) [OF assms]]
      emits_mono [OF emits_ops(9) [OF assms]])
    (auto simp: scope_effect_def)

lemma emits_filterConsumedScopes:
  assumes "retry_contract (net l)"
  shows "keeps (emits (scope_effect l c)) (filterConsumedScopes l c sp)"
  unfolding filterConsumedScopes_def checkConsumedScope_def
  by (intro keeps_splits emits.keeps_intros emits_CanAccessScope [OF assms] emits_the_inst emits_set_condition)

lemma emits_registrationPayload:
  assumes "retry_contract (net l)"
  shows "keeps (emits (scope_effect l c)) (registrationPayload l c)"
  unfolding registrationPayload_def
  by (intro keeps_Let emits.keeps_intros emits_the_inst)
    (auto split: clientSpec.split intro!: emits.keeps_intros emits_Process emits_filterConsumedScopes assms)

text \<open>The calls of \<open>createOrUpdateClient\<close>: scopes, the list of clients, a creation, an update.\<close>

definition client_effect :: "('w, 'c) lib \<Rightarrow> config \<Rightarrow> effect \<Rightarrow> bool" where
  "client_effect l c e \<longleftrightarrow> scope_effect l c e \<or> api_call l c MethodGet [''clients''] '''' e \<or>
     api_call l c MethodPost [''clients''] '''' e \<or> (\<exists>cid. api_call l c MethodPut [''clients'', cid] '''' e)"

lemma emits_createOrUpdateClient:
  assumes "retry_contract (net l)"
  shows "keeps (emits (client_effect l c)) (createOrUpdateClient l c)"
  unfolding createOrUpdateClient_def updateClient_def createClient_def
  by (intro keeps_splits emits.keeps_intros emits_reportEvent emits_tally emits_inc
      emits_mono [OF emits_ops(1) [OF assms]] emits_mono [OF emits_ops(2) [OF assms]]
      emits_mono [OF emits_ops(4) [OF assms]] emits_mono [OF emits_registrationPayload [OF assms]])
    (auto simp: client_effect_def scope_effect_def)

definition keys_effect :: "('w, 'c) lib \<Rightarrow> config \<Rightarrow> string \<Rightarrow> effect \<Rightarrow> bool" where
  "keys_effect l c cid e \<longleftrightarrow> is_event e \<or> api_call l c MethodGet [''clients'', cid, ''jwks''] '''' e \<or>
     api_call l c MethodPost [''clients'', cid, ''jwks''] '''' e"

lemma emits_registerJwk:
  assumes "retry_contract (net l)"
  shows "keeps (emits (keys_effect l c cid)) (registerJwk l c jwk ms cid)"
  unfolding registerJwk_def
  by (intro keeps_splits emits.keeps_intros emits_the_inst emits_modify_status emits_mono [OF emits_ops(7) [OF assms]])
    (auto simp: keys_effect_def)

lemma emits_ensureJwkValidExternalState:
  assumes "retry_contract (net l)"
  shows "keeps (emits (keys_effect l c cid)) (ensureJwkValidExternalState l c cid jwk ms)"
  unfolding ensureJwkValidExternalState_def
  by (intro keeps_splits emits.keeps_intros emits_call emits_registerJwk [OF assms] emits_reportEvent
      emits_mono [OF emits_ops(6) [OF assms]])
    (auto simp: keys_effect_def)

lemma emits_generate_jwk: "keeps (emits P) (generate_jwk l)"
  unfolding generate_jwk_def GenerateJwk_def GenerateRSAKey_def
  by (intro emits.keeps_intros emits_call emits_call_err)

lemma emits_rotateKey:
  assumes "retry_contract (net l)"
  shows "keeps (emits (keys_effect l c cid)) (rotateKey l c cid ms)"
  unfolding rotateKey_def
  by (intro emits.keeps_intros emits_generate_jwk emits_registerJwk [OF assms] emits_reportEvent emits_tally emits_inc)
    (simp add: keys_effect_def)


lemma emits_reuseKey:
  assumes "retry_contract (net l)"
  shows "keeps (emits (keys_effect l c cid)) (reuseKey l c cid ms)"
  unfolding reuseKey_def
  by (intro keeps_sum keeps_splits emits.keeps_intros emits_the_inst emits_generate_jwk
      emits_ensureJwkValidExternalState [OF assms])

lemma keys_effect_talks: "keys_effect l c cid e \<Longrightarrow> talks e"
  by (auto simp: keys_effect_def dest: api_call_http)

lemma client_effect_talks: "client_effect l c e \<Longrightarrow> talks e"
  by (auto simp: client_effect_def dest: api_call_http scope_effect_http)

lemma emits_startProcessing: "keeps (emits is_write) (startProcessing l)"
  unfolding startProcessing_def
  by (intro emits.keeps_intros emits_the_inst emits_set_condition emits_update_status) simp

lemma emits_removeAnnotations: "keeps (emits is_write) (removeAnnotations l)"
  unfolding removeAnnotations_def
  by (intro keeps_splits emits.keeps_intros emits_the_inst emits_set_inst emits_update_object) simp

lemma emits_completeStatus: "keeps (emits (\<lambda>e. is_write e \<or> is_event e)) (completeStatus l st)"
  unfolding completeStatus_def
  by (intro keeps_splits emits.keeps_intros emits_the_inst emits_call emits_reportEvent emits_modify_status
      emits_update_status) simp_all


section \<open>The key of the secret is known to DigDir\<close>

lemma mergeLoop_prefix: "mergeLoop public um key ks secs = Inr ks' \<Longrightarrow> \<exists>rest. ks' = ks @ rest"
proof (induction secs arbitrary: ks)
  case (Cons s secs)
  show ?case
  proof (cases "getJWKFromSecret um s key")
    case (Inl e)
    with Cons.prems show ?thesis by simp
  next
    case (Inr k)
    with Cons show ?thesis by (cases k) fastforce+
  qed
qed simp

lemma MergeJwks_head: "MergeJwks public um jwk secs key = Inr ks \<Longrightarrow> public jwk \<in> set ks"
proof -
  assume "MergeJwks public um jwk secs key = Inr ks"
  then obtain ks' where m: "mergeLoop public um key [public jwk] secs = Inr ks'" and ks: "ks = unique ks'"
    by (auto simp: MergeJwks_def split: sum.splits)
  obtain rest where "ks' = public jwk # rest" using mergeLoop_prefix [OF m] by auto
  with uniq.head [of "public jwk" rest] ks show ?thesis by auto
qed

text \<open>
  DigDir knows the key of a client: it accepted a key set with the public part of the key, or it
  listed the key's ID among the keys of the client.
\<close>

definition key_confirmed :: "('w, 'c) lib \<Rightarrow> config \<Rightarrow> string \<Rightarrow> jsonWebKey \<Rightarrow> effect list \<Rightarrow> bool" where
  "key_confirmed l c cid jwk t \<longleftrightarrow>
     (\<exists>e \<in> set t. \<exists>keys p x. sys_Public (sys l) jwk \<in> set keys \<and> json_MarshalJwks (json l) keys = Inr p \<and>
        answered l c MethodPost [''clients'', cid, ''jwks''] '''' p (json_Jwks (json l)) x e) \<or>
     (\<exists>e \<in> set t. \<exists>x. answered l c MethodGet [''clients'', cid, ''jwks''] '''' '''' (json_Jwks (json l)) x e \<and>
        jwk_KeyID jwk \<in> dk_KeyID ` set (jr_Keys x))"

lemma key_confirmed_mono: "key_confirmed l c cid jwk t \<Longrightarrow> set t \<subseteq> set t' \<Longrightarrow> key_confirmed l c cid jwk t'"
  unfolding key_confirmed_def by blast

lemma registerJwk_Inr:
  assumes "retry_contract (net l)" and "registerJwk l c jwk ms cid s = (Inr (), s')"
  shows "\<exists>t. trace s' = trace s @ t \<and> key_confirmed l c cid jwk t"
proof -
  obtain keys x s1 where m: "MergeJwks (sys_Public (sys l)) (sys_UnmarshalJwk (sys l)) jwk (sl_Used ms) (GetSecretJwkKey (inst s)) = Inr keys"
    and r: "RegisterKeys l c cid keys s = (Inr x, s1)" and t: "trace s' = trace s1"
    using assms(2) unfolding registerJwk_def the_inst_def modify_status_def by (auto elim!: bindE_InrE)
  from endpoint_then [OF r [unfolded RegisterKeys_def]] obtain p
    where p: "json_MarshalJwks (json l) keys = Inr p"
      and q: "request l c MethodPost (api_url l c [''clients'', cid, ''jwks''] @ '''') p (json_Jwks (json l)) s = (Inr x, s1)"
    by (auto elim!: bindE_InrE)
  obtain t1 e where "trace s1 = trace s @ t1 @ [e]"
    "answered l c MethodPost [''clients'', cid, ''jwks''] '''' p (json_Jwks (json l)) x e"
    using request_answered [OF assms(1) q] by blast
  with t p MergeJwks_head [OF m] show ?thesis
    by (intro exI [of _ "t1 @ [e]"]) (auto simp: key_confirmed_def)
qed

lemma keyState_found: "keyState now kid ks = (True, x) \<Longrightarrow> kid \<in> dk_KeyID ` set ks"
  by (induction ks) (auto split: if_splits)

lemma ensureJwkValidExternalState_Inr:
  assumes "retry_contract (net l)" and "ensureJwkValidExternalState l c cid jwk ms s = (Inr (), s')"
  shows "\<exists>t. trace s' = trace s @ t \<and> key_confirmed l c cid jwk t"
proof -
  obtain resp s1 where g0: "wrapE ''getting keys'' (GetKeys l c cid) s = (Inr resp, s1)"
    and k: "bindE (call (sys_Now (sys l))) (\<lambda>now.
     case keyState now (jwk_KeyID jwk) (jr_Keys resp) of (found, expiring) \<Rightarrow>
     if found \<and> \<not> expiring then returnE ()
     else
       bindE (registerJwk l c jwk ms cid) (\<lambda>_.
       reportEvent EventTypeNormal EventUpdatedInDigDir ''Client credentials is refreshed'')) s1 = (Inr (), s')"
    using assms(2) unfolding ensureJwkValidExternalState_def by (rule bindE_InrE)
  from g0 have g: "GetKeys l c cid s = (Inr resp, s1)" by (simp only: wrapE_Inr_iff)
  obtain t1 e where t1: "trace s1 = trace s @ t1 @ [e]"
    "answered l c MethodGet [''clients'', cid, ''jwks''] '''' '''' (json_Jwks (json l)) resp e"
    using request_answered [OF assms(1), where q = "''''", unfolded append_Nil2, OF endpoint_then [OF g [unfolded GetKeys_def]]] by blast
  obtain now w where now: "sys_Now (sys l) (world s1) = (now, w)" by (cases "sys_Now (sys l) (world s1)")
  obtain found expiring where ks: "keyState now (jwk_KeyID jwk) (jr_Keys resp) = (found, expiring)"
    by (cases "keyState now (jwk_KeyID jwk) (jr_Keys resp)")
  let ?s = "s1\<lparr>world := w\<rparr>"
  show ?thesis
  proof (cases "found \<and> \<not> expiring")
    case True
    then have "trace s' = trace s1" using k by (auto simp: bindE_def call_def now ks)
    moreover have "jwk_KeyID jwk \<in> dk_KeyID ` set (jr_Keys resp)" using ks True keyState_found by auto
    ultimately show ?thesis using t1 by (intro exI [of _ "t1 @ [e]"]) (auto simp: key_confirmed_def)
  next
    case False
    then have "bindE (registerJwk l c jwk ms cid) (\<lambda>_.
       reportEvent EventTypeNormal EventUpdatedInDigDir ''Client credentials is refreshed'') ?s = (Inr (), s')"
      using k by (auto simp: bindE_def call_def now ks)
    then obtain s2 where r: "registerJwk l c jwk ms cid ?s = (Inr (), s2)"
      and ev: "reportEvent EventTypeNormal EventUpdatedInDigDir ''Client credentials is refreshed'' s2 = (Inr (), s')"
      by (auto elim!: bindE_InrE)
    obtain t2 where t2: "trace s2 = trace ?s @ t2" "key_confirmed l c cid jwk t2"
      using registerJwk_Inr [OF assms(1) r] by blast
    have "keeps (emits is_event) (reportEvent EventTypeNormal EventUpdatedInDigDir ''Client credentials is refreshed'')"
      by (intro emits_reportEvent) simp
    from keepsD [OF this ev] obtain t3 where "trace s' = trace s2 @ t3" by (auto simp: emits_def)
    with t1 t2 key_confirmed_mono [OF t2(2), of "t1 @ [e] @ t2 @ t3"] show ?thesis
      by (intro exI [of _ "t1 @ [e] @ t2 @ t3"]) auto
  qed
qed

lemma key_confirmed_then:
  assumes "\<exists>t. trace s1 = trace s @ t \<and> key_confirmed l c cid jwk t" and "keeps (emits P) m" and "m s1 = (r, s')"
  shows "\<exists>t. trace s' = trace s @ t \<and> key_confirmed l c cid jwk t"
proof -
  obtain t where t: "trace s1 = trace s @ t" "key_confirmed l c cid jwk t" using assms(1) by blast
  obtain t' where "trace s' = trace s1 @ t'" using keepsD [OF assms(2,3)] by (auto simp: emits_def)
  with t key_confirmed_mono [OF t(2), of "t @ t'"] show ?thesis by (intro exI [of _ "t @ t'"]) simp
qed

lemma key_confirmed_after:
  assumes "m s = (r, s1)" and "keeps (emits P) m" and "\<exists>t. trace s' = trace s1 @ t \<and> key_confirmed l c cid jwk t"
  shows "\<exists>t. trace s' = trace s @ t \<and> key_confirmed l c cid jwk t"
proof -
  obtain t where t: "trace s' = trace s1 @ t" "key_confirmed l c cid jwk t" using assms(3) by blast
  obtain t' where "trace s1 = trace s @ t'" using keepsD [OF assms(2,1)] by (auto simp: emits_def)
  with t key_confirmed_mono [OF t(2), of "t' @ t"] show ?thesis by (intro exI [of _ "t' @ t"]) simp
qed

lemma rotateKey_Inr:
  assumes "retry_contract (net l)" and "rotateKey l c cid ms s = (Inr jwk, s')"
  shows "\<exists>t. trace s' = trace s @ t \<and> key_confirmed l c cid jwk t"
proof -
  let ?k = "\<lambda>k. bindE (reportEvent EventTypeNormal EventRotatedInDigDir ''Client credentials is rotated'') (\<lambda>_.
     bindE (tally IncClientsRotated) (\<lambda>_. returnE k))"
  obtain k s1 where g: "wrapE ''generating jwk'' (generate_jwk l) s = (Inr k, s1)"
    and r: "bindE (registerJwk l c k ms cid) (\<lambda>_. ?k k) s1 = (Inr jwk, s')"
    using assms(2) unfolding rotateKey_def by (rule bindE_InrE)
  from r obtain u s2 where reg: "registerJwk l c k ms cid s1 = (Inr u, s2)" and tail: "?k k s2 = (Inr jwk, s')"
    by (rule bindE_InrE)
  from tail have k: "k = jwk" by (auto elim!: bindE_InrE)
  have "keeps (emits is_event) (?k k)"
    by (intro emits.keeps_intros emits_reportEvent emits_tally emits_inc) simp
  from key_confirmed_then [OF registerJwk_Inr [OF assms(1)] this tail] reg
  have "\<exists>t. trace s' = trace s1 @ t \<and> key_confirmed l c cid k t" by simp
  from key_confirmed_after [OF g emits.keeps_wrapE [OF emits_generate_jwk] this] show ?thesis by (simp add: k)
qed

lemma reuseKey_Inr:
  assumes "retry_contract (net l)" and "reuseKey l c cid ms s = (Inr jwk, s')"
  shows "\<exists>t. trace s' = trace s @ t \<and> key_confirmed l c cid jwk t"
proof -
  let ?g = "case GetPreviousJwkFromSecret (sys_UnmarshalJwk (sys l)) ms (GetSecretJwkKey (inst s)) of
              Inr jwk \<Rightarrow> returnE jwk
            | Inl e \<Rightarrow>
                if is_sentinel ''no previous JWK found in secrets'' e
                then wrapE ''generating new JWK'' (generate_jwk l)
                else failE e"
  let ?k = "\<lambda>k. bindE (wrapE ''refreshing keys'' (ensureJwkValidExternalState l c cid k ms)) (\<lambda>_. returnE k)"
  have "bindE ?g ?k s = (Inr jwk, s')"
    using assms(2) unfolding reuseKey_def by (simp only: bindE_the_inst)
  then obtain k s1 where g: "?g s = (Inr k, s1)" and r: "?k k s1 = (Inr jwk, s')" by (rule bindE_InrE)
  from r obtain u s2 where "wrapE ''refreshing keys'' (ensureJwkValidExternalState l c cid k ms) s1 = (Inr u, s2)"
    and "returnE k s2 = (Inr jwk, s')"
    by (rule bindE_InrE)
  then have "wrapE ''refreshing keys'' (ensureJwkValidExternalState l c cid jwk ms) s1 = (Inr (), s')"
    by (simp only: returnE_def prod.inject sum.inject unit_eq)
  then have "ensureJwkValidExternalState l c cid jwk ms s1 = (Inr (), s')" by (simp only: wrapE_Inr_iff)
  note conf = ensureJwkValidExternalState_Inr [OF assms(1) this]
  have "keeps (emits is_event) ?g"
    by (intro keeps_sum keeps_splits emits.keeps_intros emits_generate_jwk)
  from key_confirmed_after [OF g this conf] show ?thesis .
qed

lemma same_client_registerJwk:
  assumes "retry_contract (net l)"
  shows "keeps same_client (registerJwk l c jwk ms cid)"
  unfolding registerJwk_def
  by (intro same_client.keeps_intros same_client.keeps_steps same_client_ops [OF assms] same_client_modify_status) simp

lemma same_client_keys:
  assumes "retry_contract (net l)"
  shows "keeps same_client (rotateKey l c cid ms)" and "keeps same_client (reuseKey l c cid ms)"
proof -
  have gen: "keeps same_client (generate_jwk l)"
    unfolding generate_jwk_def GenerateJwk_def GenerateRSAKey_def
    by (intro same_client.keeps_intros same_client.keeps_steps)
  show "keeps same_client (rotateKey l c cid ms)"
    unfolding rotateKey_def
    by (intro same_client.keeps_intros gen same_client_registerJwk assms same_client_reportEvent
        same_inst_client [OF same_inst_tally] same_inst_inc)
  have "keeps same_client (ensureJwkValidExternalState l c cid jwk ms)" for jwk
    unfolding ensureJwkValidExternalState_def
    by (intro keeps_splits same_client.keeps_intros same_client.keeps_steps same_client_ops [OF assms]
        same_client_registerJwk assms same_client_reportEvent)
  then show "keeps same_client (reuseKey l c cid ms)"
    unfolding reuseKey_def
    by (intro keeps_sum keeps_splits same_client.keeps_intros same_client.keeps_steps gen)
qed

text \<open>
  What a list of effects says of the secrets it writes: there is at most one write, it writes the
  secret of the instance, with the client ID under which the key was confirmed before.
\<close>

definition secrets_confirmed :: "('w, 'c) lib \<Rightarrow> config \<Rightarrow> effect list \<Rightarrow> bool" where
  "secrets_confirmed l c t \<longleftrightarrow> (\<forall>t1 sc res t2. t = t1 @ SecretApplied sc res # t2 \<longrightarrow>
     (\<exists>i jwk. holds_key l i (GetSecretName i) jwk sc \<and> key_confirmed l c (st_ClientID (inst_Status i)) jwk t1))"

lemma secrets_confirmed_none: "list_all (\<lambda>e. \<not> is_secret_applied e) t \<Longrightarrow> secrets_confirmed l c t"
  by (auto simp: secrets_confirmed_def)

lemma only_one_such:
  assumes "list_all (\<lambda>e. \<not> P e) t1" and "list_all (\<lambda>e. \<not> P e) t2" and "P y" and "t1 @ x # t2 = u1 @ y # u2"
  shows "u1 = t1 \<and> y = x"
  using assms by (auto simp: append_eq_append_conv2 append_eq_Cons_conv Cons_eq_append_conv)

lemma secrets_confirmed_one:
  assumes "list_all (\<lambda>e. \<not> is_secret_applied e) t1" and "list_all (\<lambda>e. \<not> is_secret_applied e) t2"
    and "holds_key l i (GetSecretName i) jwk sc" and "key_confirmed l c (st_ClientID (inst_Status i)) jwk t1"
  shows "secrets_confirmed l c (t1 @ SecretApplied sc res # t2)"
  unfolding secrets_confirmed_def
proof (intro allI impI)
  fix u1 sc' res' u2 assume eq: "t1 @ SecretApplied sc res # t2 = u1 @ SecretApplied sc' res' # u2"
  from only_one_such [OF assms(1,2) _ eq] have "u1 = t1 \<and> SecretApplied sc' res' = SecretApplied sc res"
    by simp
  with assms(3,4) show "\<exists>i jwk. holds_key l i (GetSecretName i) jwk sc' \<and> key_confirmed l c (st_ClientID (inst_Status i)) jwk u1"
    by blast
qed


text \<open>Confirmed secrets as a relation of states: it composes along the steps of a reconcile.\<close>

definition confirmed :: "('w, 'c) lib \<Rightarrow> config \<Rightarrow> ('w, 'c) st \<Rightarrow> ('w, 'c) st \<Rightarrow> bool" where
  "confirmed l c s s' \<longleftrightarrow> (\<exists>t. trace s' = trace s @ t \<and> secrets_confirmed l c t)"

lemma secrets_confirmed_append:
  assumes "secrets_confirmed l c t" and "secrets_confirmed l c t'"
  shows "secrets_confirmed l c (t @ t')"
  unfolding secrets_confirmed_def
proof (intro allI impI)
  fix u1 sc res u2 assume eq: "t @ t' = u1 @ SecretApplied sc res # u2"
  then consider v where "t = u1 @ SecretApplied sc res # v" | v where "u1 = t @ v" "t' = v @ SecretApplied sc res # u2"
    by (auto simp: append_eq_append_conv2 append_eq_Cons_conv Cons_eq_append_conv)
  then show "\<exists>i jwk. holds_key l i (GetSecretName i) jwk sc \<and> key_confirmed l c (st_ClientID (inst_Status i)) jwk u1"
  proof cases
    case 1
    with assms(1) show ?thesis unfolding secrets_confirmed_def by blast
  next
    case 2
    then obtain i jwk where "holds_key l i (GetSecretName i) jwk sc" "key_confirmed l c (st_ClientID (inst_Status i)) jwk v"
      using assms(2) unfolding secrets_confirmed_def by blast
    with 2 key_confirmed_mono [of l c _ jwk v u1] show ?thesis by auto
  qed
qed

interpretation confirmed: state_preorder "confirmed l c" for l :: "('w, 'c) lib" and c
proof unfold_locales
  fix s s1 s2 :: "('w, 'c) st"
  show "confirmed l c s s"
    by (auto simp: confirmed_def secrets_confirmed_def)
  assume "confirmed l c s s1" and "confirmed l c s1 s2"
  then obtain t t' where "trace s1 = trace s @ t" "secrets_confirmed l c t" "trace s2 = trace s1 @ t'" "secrets_confirmed l c t'"
    unfolding confirmed_def by blast
  then show "confirmed l c s s2"
    unfolding confirmed_def by (intro exI [of _ "t @ t'"]) (simp add: secrets_confirmed_append)
qed

lemma confirmed_emits: "keeps (emits P) m \<Longrightarrow> (\<And>e. P e \<Longrightarrow> \<not> is_secret_applied e) \<Longrightarrow> keeps (confirmed l c) m"
  unfolding keeps_def emits_def confirmed_def
  by (metis secrets_confirmed_none list_all_iff)

text \<open>The key comes first, the secret with it after, and the deletions last.\<close>

lemma syncKey_Inr:
  assumes "retry_contract (net l)" and "(if b then rotateKey l c cid ms else reuseKey l c cid ms) s = (Inr jwk, s')"
  shows "\<exists>t. trace s' = trace s @ t \<and> list_all talks t \<and> key_confirmed l c cid jwk t" and "same_client s s'"
proof -
  let ?m = "if b then rotateKey l c cid ms else reuseKey l c cid ms"
  have "keeps (emits (keys_effect l c cid)) ?m"
    by (intro keeps_if emits_rotateKey emits_reuseKey assms(1))
  then have "keeps (emits talks) ?m" by (rule emits_mono) (rule keys_effect_talks)
  from keepsD [OF this assms(2)] obtain t where t: "trace s' = trace s @ t" "list_all talks t"
    by (auto simp: emits_def)
  have "\<exists>t. trace s' = trace s @ t \<and> key_confirmed l c cid jwk t"
    using assms(2) rotateKey_Inr [OF assms(1)] reuseKey_Inr [OF assms(1)] by (cases b) simp_all
  with t show "\<exists>t. trace s' = trace s @ t \<and> list_all talks t \<and> key_confirmed l c cid jwk t" by auto
  have "keeps same_client ?m" by (intro keeps_if same_client_keys assms(1))
  from keepsD [OF this assms(2)] show "same_client s s'" .
qed


lemma CreateOrUpdate_confirmed:
  assumes "trace s1 = trace s @ t" and "list_all talks t" and "key_confirmed l c cid jwk t"
    and "st_ClientID (inst_Status (inst s1)) = cid" and "CreateOrUpdate l c (GetSecretName (inst s1)) jwk s1 = (r, s2)"
  shows "confirmed l c s s2"
proof -
  obtain u where u: "trace s2 = trace s1 @ u"
      "u = [] \<or> (\<exists>sc res. u = [SecretApplied sc res] \<and> holds_key l (inst s1) (GetSecretName (inst s1)) jwk sc)"
    using CreateOrUpdate_run [OF assms(5)] by (cases r) auto
  have t: "list_all (\<lambda>e. \<not> is_secret_applied e) t"
    using assms(2) by (rule list.pred_mono_strong) (auto elim: is_http.elims is_event.elims)
  from u(2) show ?thesis
  proof
    assume "u = []"
    with u(1) assms(1) t show ?thesis by (auto simp: confirmed_def intro: secrets_confirmed_none)
  next
    assume "\<exists>sc res. u = [SecretApplied sc res] \<and> holds_key l (inst s1) (GetSecretName (inst s1)) jwk sc"
    then obtain sc res where "u = [SecretApplied sc res]" "holds_key l (inst s1) (GetSecretName (inst s1)) jwk sc" by blast
    with secrets_confirmed_one [OF t, of "[]" l "inst s1" jwk sc c res] u(1) assms(1,3,4) show ?thesis
      by (auto simp: confirmed_def)
  qed
qed

lemma confirmed_DeleteUnused: "keeps (confirmed l c) (DeleteUnused l name unused)"
  by (rule confirmed_emits [OF emits_DeleteUnused]) (auto simp: deletes_other_def)

lemma confirmed_keys:
  assumes "retry_contract (net l)"
  shows "keeps (confirmed l c) (rotateKey l c cid ms)" and "keeps (confirmed l c) (reuseKey l c cid ms)"
proof -
  have *: "\<not> is_secret_applied e" if "keys_effect l c cid e" for e
    using keys_effect_talks [OF that] by (cases e) simp_all
  show "keeps (confirmed l c) (rotateKey l c cid ms)" "keeps (confirmed l c) (reuseKey l c cid ms)"
    by (rule confirmed_emits [OF emits_rotateKey [OF assms]] confirmed_emits [OF emits_reuseKey [OF assms]], erule *)+
qed

lemma GetSecretName_cong: "inst_Spec i = inst_Spec i' \<Longrightarrow> GetSecretName i = GetSecretName i'"
  by (cases "inst_Spec i'") (simp_all add: GetSecretName_def)

lemma confirmed_bindE_after:
  assumes "confirmed l c s (snd (m s1))" and "\<And>x. keeps (confirmed l c) (k x)"
  shows "confirmed l c s (snd (bindE m k s1))"
proof (cases "m s1")
  case (Pair r s2)
  have "confirmed l c s2 (snd (k x s2))" for x using assms(2) by (simp add: keeps_def)
  with Pair assms(1) show ?thesis by (cases r) (auto simp: bindE_def intro: confirmed.trans)
qed

lemma syncSecret_confirmed:
  assumes "retry_contract (net l)" and "st_ClientID (inst_Status (inst s)) = cid"
  shows "confirmed l c s (snd (syncSecret l c cid s))"
proof -
  let ?key = "\<lambda>ms. if NeedsSecretRotation (inst s) then rotateKey l c cid ms else reuseKey l c cid ms"
  let ?put = "\<lambda>ms jwk. bindE (wrapE ''creating or updating secret'' (CreateOrUpdate l c (GetSecretName (inst s)) jwk))
      (\<lambda>_. DeleteUnused l (GetSecretName (inst s)) (sl_Unused ms))"
  have run: "syncSecret l c cid s = bindE (wrapE ''getting managed secrets'' (GetManaged l)) (\<lambda>ms. bindE (?key ms) (?put ms)) s"
    unfolding syncSecret_def Let_def by (simp only: bindE_the_inst)
  have key: "keeps (confirmed l c) (?key ms)" for ms
    by (intro keeps_if confirmed_keys assms(1))
  have put: "confirmed l c s1 (snd (bindE (?key ms) (?put ms) s1))" if "inst s1 = inst s" for ms s1
  proof (rule run_bindE [where R = "confirmed l c"])
    show "confirmed l c s1 (snd (?key ms s1))" using key [of ms] by (simp only: keeps_def)
    fix jwk s2 assume k: "?key ms s1 = (Inr jwk, s2)"
    obtain t where t: "trace s2 = trace s1 @ t" "list_all talks t" "key_confirmed l c cid jwk t"
      using syncKey_Inr(1) [OF assms(1) k] by blast
    have sc: "same_client s1 s2" by (rule syncKey_Inr(2) [OF assms(1) k])
    then have id: "st_ClientID (inst_Status (inst s2)) = cid" and nm: "GetSecretName (inst s) = GetSecretName (inst s2)"
      using that assms(2) by (auto simp: same_client_def same_object_def intro: GetSecretName_cong)
    have put: "confirmed l c s1 s3" if "CreateOrUpdate l c (GetSecretName (inst s)) jwk s2 = (r, s3)" for r s3
      by (rule CreateOrUpdate_confirmed [OF t id that [unfolded nm]])
    show "confirmed l c s1 (snd (?put ms jwk s2))"
    proof (rule confirmed_bindE_after)
      show "keeps (confirmed l c) (DeleteUnused l (GetSecretName (inst s)) (sl_Unused ms))" by (rule confirmed_DeleteUnused)
      show "confirmed l c s1 (snd (wrapE ''creating or updating secret'' (CreateOrUpdate l c (GetSecretName (inst s)) jwk) s2))"
        using put by (simp only: snd_wrapE) (metis prod.collapse)
    qed
  qed
  show ?thesis unfolding run
  proof (rule run_bindE [where R = "confirmed l c"])
    show "confirmed l c s (snd (wrapE ''getting managed secrets'' (GetManaged l) s))"
      using confirmed_emits [OF emits_GetManaged, of "\<lambda>_. False" l c l] by (simp add: keeps_def)
    fix ms s1 assume g: "wrapE ''getting managed secrets'' (GetManaged l) s = (Inr ms, s1)"
    then have gm: "GetManaged l s = (Inr ms, s1)" by (simp only: wrapE_Inr_iff)
    have "same_inst s s1" "emits (\<lambda>_. False) s s1"
      by (rule keepsD [OF same_inst_GetManaged gm], rule keepsD [OF emits_GetManaged gm])
    then have "inst s1 = inst s" "trace s1 = trace s" by (auto simp: same_inst_def emits_def list_all_iff)
    with put [of s1 ms] show "confirmed l c s (snd (bindE (?key ms) (?put ms) s1))" by (simp add: confirmed_def)
  qed
qed
lemma set_client_id_confirmed:
  fixes l :: "('a, 'b) lib"
  assumes "retry_contract (net l)"
  shows "keeps (confirmed l c) (bindE (set_client_id cid) (\<lambda>_. syncSecret l c cid))"
proof (rule keepsI)
  fix s :: "('a, 'b) st"
  let ?s = "s\<lparr>inst := (inst s)\<lparr>inst_Status := (inst_Status (inst s))\<lparr>st_ClientID := cid\<rparr>\<rparr>\<rparr>"
  have "bindE (set_client_id cid) (\<lambda>_. syncSecret l c cid) s = syncSecret l c cid ?s"
    by (simp add: set_client_id_def modify_status_def bindE_def)
  with syncSecret_confirmed [OF assms, of ?s cid c]
  show "confirmed l c s (snd (bindE (set_client_id cid) (\<lambda>_. syncSecret l c cid) s))"
    by (simp add: confirmed_def)
qed

lemma confirmed_writes:
  "keeps (confirmed l c) (startProcessing l)" "keeps (confirmed l c) (removeAnnotations l)"
  "keeps (confirmed l c) (completeStatus l st)"
proof -
  have w: "\<not> is_secret_applied e" if "is_write e \<or> is_event e" for e using that by (cases e) simp_all
  show "keeps (confirmed l c) (startProcessing l)" by (rule confirmed_emits [OF emits_startProcessing]) (simp add: w)
  show "keeps (confirmed l c) (removeAnnotations l)" by (rule confirmed_emits [OF emits_removeAnnotations]) (simp add: w)
  show "keeps (confirmed l c) (completeStatus l st)" by (rule confirmed_emits [OF emits_completeStatus]) (rule w)
qed

lemma confirmed_createOrUpdateClient:
  assumes "retry_contract (net l)"
  shows "keeps (confirmed l c) (createOrUpdateClient l c)"
proof (rule confirmed_emits [OF emits_createOrUpdateClient [OF assms]])
  show "\<not> is_secret_applied e" if "client_effect l c e" for e
    using client_effect_talks [OF that] by (cases e) simp_all
qed

lemma process_confirmed:
  assumes "retry_contract (net l)"
  shows "keeps (confirmed l c) (process l c)"
proof -
  have "process l c =
     bindE (startProcessing l) (\<lambda>_.
     bindE (createOrUpdateClient l c) (\<lambda>r.
     bindE (bindE (set_client_id (cr_ClientID r)) (\<lambda>_. syncSecret l c (cr_ClientID r))) (\<lambda>_.
     bindE the_inst (\<lambda>i. bindE (removeAnnotations l) (\<lambda>_. completeStatus l (inst_Status i))))))"
    by (simp only: process_def Let_def bindE_assoc)
  then show ?thesis
    by (auto intro!: confirmed.keeps_bindE confirmed_writes confirmed_createOrUpdateClient set_client_id_confirmed assms
        confirmed_emits [OF emits_the_inst, of "\<lambda>_. False"])
qed

text \<open>
  C1: the secret of an application never holds a key that DigDir does not know. Whatever fails on
  the way, every secret that processing writes carries the labels of its instance, a client ID and
  a key, and before it is written DigDir has accepted a key set with the public part of that key
  for that client, or has listed the key's ID among the keys of that client.
\<close>

theorem secret_key_confirmed:
  assumes "retry_contract (net l)" and "process l c s = (r, s')"
  shows "\<exists>t. trace s' = trace s @ t \<and> (\<forall>t1 sc res t2. t = t1 @ SecretApplied sc res # t2 \<longrightarrow>
     (\<exists>i jwk. holds_key l i (GetSecretName i) jwk sc \<and> key_confirmed l c (st_ClientID (inst_Status i)) jwk t1))"
  using keepsD [OF process_confirmed [OF assms(1)] assms(2)] by (simp add: confirmed_def secrets_confirmed_def)

text \<open>A run of \<open>process\<close> against the demonstration libraries, part by part.\<close>

definition demo_calm :: "condition list option \<Rightarrow> bool" where
  "demo_calm conditions \<longleftrightarrow> (\<forall>cs. conditions = Some cs \<longrightarrow>
     list_all (\<lambda>c. cond_Type c = ConditionTypeReady \<or> cond_Type c = ConditionTypeError) cs)"

lemma demo_calm_set [simp]:
  "demo_calm (st_Conditions st) \<Longrightarrow> demo_calm (st_Conditions (demo_set_condition (ReadyCondition a b m g) st))"
  "demo_calm (st_Conditions st) \<Longrightarrow> demo_calm (st_Conditions (demo_set_condition (ErrorCondition a b m g) st))"
  by (cases "st_Conditions st"; auto simp: demo_calm_def demo_set_condition_def ReadyCondition_def ErrorCondition_def list_all_iff)+

lemma demo_calm_status [simp]: "demo_calm (st_Conditions demo_status)"
  by (simp add: demo_calm_def demo_status_def)

definition demo_ok :: "(nat, (string \<times> bool) list) st \<Rightarrow> bool" where
  "demo_ok s \<longleftrightarrow> inst_Meta (inst s) = demo_meta \<and> inst_Spec (inst s) = inst_Spec demo_idporten \<and>
     demo_calm (st_Conditions (inst_Status (inst s)))"

definition demo_applied :: "(nat, (string \<times> bool) list) st \<Rightarrow> bool" where
  "demo_applied s \<longleftrightarrow> demo_ok s \<and> (\<exists>sc r. SecretApplied sc r \<in> set (trace s))"

abbreviation demo_all_ok :: "(nat, (string \<times> bool) list) lib" where
  "demo_all_ok \<equiv> demo_lib (\<lambda>_. ok_response) [] demo_idporten"

lemmas demo_kube_run = demo_run update_status_def update_object_def demo_kube_def demo_sys_def

lemmas demo_unfold = works_iff demo_kube_run demo_ok_def demo_applied_def demo_idporten_def inc_by_kind_def
  incWithNamespaceLabel_def add_counter_def

lemma demo_steps:
  "works demo_ok (startProcessing demo_all_ok)" "works demo_ok (set_client_id cid)" "works demo_ok (generate_jwk demo_all_ok)"
  "works demo_ok (reportEvent t e m)" "works demo_ok (tally IncClientsRotated)" "works demo_ok the_inst"
  "works demo_ok (GetKeys demo_all_ok demo_config cid)" "works demo_ok (call (sys_Now demo_sys))"
  by (simp_all add: demo_unfold startProcessing_def set_client_id_def generate_jwk_def GenerateJwk_def GenerateRSAKey_def
      IncClientsRotated_def)

lemma demo_registerJwk: "works demo_ok (registerJwk demo_all_ok demo_config jwk \<lparr>sl_Used = [], sl_Unused = []\<rparr> cid)"
  by (simp add: demo_unfold registerJwk_def MergeJwks_def)

lemma demo_createOrUpdateClient: "works demo_ok (createOrUpdateClient demo_all_ok demo_config)"
  by (simp add: demo_unfold createOrUpdateClient_def createClient_def registrationPayload_def IncClientsCreated_def)

lemma demo_rotateKey: "works demo_ok (rotateKey demo_all_ok demo_config cid \<lparr>sl_Used = [], sl_Unused = []\<rparr>)"
  unfolding rotateKey_def by (intro works_intros demo_steps demo_registerJwk)

lemma demo_reuseKey: "works demo_ok (reuseKey demo_all_ok demo_config cid \<lparr>sl_Used = [], sl_Unused = []\<rparr>)"
proof -
  have ens: "works demo_ok (ensureJwkValidExternalState demo_all_ok demo_config cid jwk \<lparr>sl_Used = [], sl_Unused = []\<rparr>)" for jwk
    unfolding ensureJwkValidExternalState_def
    by (intro works_bindE works_wrapE demo_steps)
      (auto split: prod.split intro!: works_intros demo_steps demo_registerJwk)
  have "GetPreviousJwkFromSecret (sys_UnmarshalJwk (sys demo_all_ok)) \<lparr>sl_Used = [], sl_Unused = []\<rparr> key = Inl ErrNoPreviousJwkFound" for key
    by (simp add: GetPreviousJwkFromSecret_def newestSecret_def getJWKFromSecret_def zeroSecret_def)
  then show ?thesis
    unfolding reuseKey_def
    by (auto simp: ErrNoPreviousJwkFound_def intro!: works_intros ens demo_steps)
qed

lemma demo_CreateOrUpdate: "triple demo_ok (CreateOrUpdate demo_all_ok demo_config name jwk) (\<lambda>_. demo_applied) (\<lambda>_ _. False)"
  by (auto simp: triple_def demo_unfold CreateOrUpdate_def apply_secret_def secretData_def IDPortenClientSecretData_def
      mutateSecret_def Let_def)

lemma demo_syncSecret: "triple demo_ok (syncSecret demo_all_ok demo_config cid) (\<lambda>_. demo_applied) (\<lambda>_ _. False)"
proof -
  let ?ms = "\<lparr>sl_Used = [], sl_Unused = []\<rparr>"
  have gm: "GetManaged demo_all_ok s = (Inr ?ms, s)" for s
    by (simp add: demo_unfold GetManaged_def)
  have run: "syncSecret demo_all_ok demo_config cid s =
      bindE (if NeedsSecretRotation (inst s) then rotateKey demo_all_ok demo_config cid ?ms else reuseKey demo_all_ok demo_config cid ?ms) (\<lambda>jwk.
        wrapE ''creating or updating secret'' (CreateOrUpdate demo_all_ok demo_config (GetSecretName (inst s)) jwk)) s" for s
    unfolding syncSecret_def Let_def DeleteUnused_def
    by (simp add: bindE_the_inst bindE_Inr [OF wrapE_Inr_iff [THEN iffD2, OF gm]])
      (simp add: bindE_def returnE_def split: prod.split sum.split)
  have wr: "triple demo_ok (wrapE msg (CreateOrUpdate demo_all_ok demo_config name jwk)) (\<lambda>_. demo_applied) (\<lambda>_ _. False)" for msg name jwk
    using demo_CreateOrUpdate [of name jwk] by (fastforce simp: triple_def wrapE_run split: prod.splits sum.splits)
  have key: "triple demo_ok (if b then rotateKey demo_all_ok demo_config cid ?ms else reuseKey demo_all_ok demo_config cid ?ms)
      (\<lambda>_. demo_ok) (\<lambda>_ _. False)" for b
    using demo_rotateKey demo_reuseKey by (simp add: works_def)
  have "triple demo_ok (bindE (if b then rotateKey demo_all_ok demo_config cid ?ms else reuseKey demo_all_ok demo_config cid ?ms) (\<lambda>jwk.
        wrapE ''creating or updating secret'' (CreateOrUpdate demo_all_ok demo_config name jwk))) (\<lambda>_. demo_applied) (\<lambda>_ _. False)" for b name
    by (rule triple_bindE [OF key wr])
  then show ?thesis by (simp only: triple_def run) simp
qed

lemma demo_finish:
  "works demo_applied (bindE the_inst (\<lambda>i. bindE (removeAnnotations demo_all_ok) (\<lambda>_. completeStatus demo_all_ok (inst_Status i))))"
  by (auto simp: demo_unfold removeAnnotations_def completeStatus_def demo_meta_def)

lemma demo_process: "triple demo_ok (process demo_all_ok demo_config) (\<lambda>_. demo_applied) (\<lambda>_ _. False)"
  unfolding process_def Let_def
  by (intro triple_bindE [OF demo_steps(1) [unfolded works_def]] triple_bindE [OF demo_createOrUpdateClient [unfolded works_def]]
      triple_bindE [OF demo_steps(2) [unfolded works_def]] triple_bindE [OF demo_syncSecret] demo_finish [unfolded works_def])
theorem secret_key_confirmed_witness:
  "\<exists>r s' t1 sc res t2 i jwk. process demo_all_ok demo_config (demo_state demo_idporten) = (r, s') \<and>
     trace s' = t1 @ SecretApplied sc res # t2 \<and> holds_key demo_all_ok i (GetSecretName i) jwk sc \<and>
     key_confirmed demo_all_ok demo_config (st_ClientID (inst_Status i)) jwk t1"
proof -
  obtain r s' where run: "process demo_all_ok demo_config (demo_state demo_idporten) = (r, s')"
    by (cases "process demo_all_ok demo_config (demo_state demo_idporten)")
  have ok: "demo_ok (demo_state demo_idporten)" by (simp add: demo_ok_def demo_state_def demo_idporten_def)
  have "\<exists>sc res. SecretApplied sc res \<in> set (trace s')"
    using triple_Inr [OF demo_process ok] triple_Inl [OF demo_process ok] run by (cases r) (auto simp: demo_applied_def)
  then obtain t1 sc res t2 where "trace s' = t1 @ SecretApplied sc res # t2" by (meson split_list)
  with secret_key_confirmed [OF _ run] have "\<exists>i jwk. holds_key demo_all_ok i (GetSecretName i) jwk sc \<and>
     key_confirmed demo_all_ok demo_config (st_ClientID (inst_Status i)) jwk t1"
    by (auto simp: demo_state_def)
  with run \<open>trace s' = t1 @ SecretApplied sc res # t2\<close> show ?thesis by blast
qed

end
