(* ===== verification/Frames.thy ===== *)
theory Frames
  imports Reconciler
begin

text \<open>
  What a whole reconcile keeps, whatever it meets on its way. A relation between states that the
  steps of a reconcile respect (calls to the outside that extend the log, a new version of the
  object, a new content of the scope cache, an increment of a counter) is kept by every operation and
  so by \<open>Reconcile\<close>. It is proved once, in a locale, and used for the log, the counters and the gauges.
\<close>

locale reconcile_relation = state_preorder R
  for R :: "('w, 'c) st \<Rightarrow> ('w, 'c) st \<Rightarrow> bool" +
  assumes step: "R s (s\<lparr>world := w, trace := trace s @ t, inst := i, scopeCache := ca\<rparr>)"
    and count: "R s (snd (add_counter n m ns s))"
begin

lemma world_step: "R s (s\<lparr>world := w\<rparr>)"
  using step [where s = s and w = w and t = "[]" and i = "inst s" and ca = "scopeCache s"] by simp

lemma inst_step: "R s (s\<lparr>inst := i\<rparr>)"
  using step [where s = s and w = "world s" and t = "[]" and i = i and ca = "scopeCache s"] by simp

lemma world_inst_step: "R s (s\<lparr>world := w, inst := i\<rparr>)"
  using step [where s = s and w = w and t = "[]" and i = i and ca = "scopeCache s"] by simp

lemma log_step: "R s (s\<lparr>trace := trace s @ t\<rparr>)"
  using step [where s = s and w = "world s" and t = t and i = "inst s" and ca = "scopeCache s"] by simp

lemma call_step: "R s (s\<lparr>world := w, trace := trace s @ t\<rparr>)"
  using step [where s = s and w = w and t = t and i = "inst s" and ca = "scopeCache s"] by simp

lemma write_step: "R s (s\<lparr>world := w, trace := trace s @ t, inst := i\<rparr>)"
  using step [where s = s and w = w and t = t and i = i and ca = "scopeCache s"] by simp

lemma cache_step: "R s (s\<lparr>world := w, scopeCache := ca\<rparr>)"
  using step [where s = s and w = w and t = "[]" and i = "inst s" and ca = ca] by simp

lemma keeps_counter: "keeps R (add_counter n m ns)"
  using count by (simp add: keeps_def)

lemmas keeps_inc = inc_frame [OF keeps_counter state_preorder_axioms]

lemma keeps_primitives:
  "keeps R (call f)" "keeps R (call_err g)" "keeps R (emit e)" "keeps R the_inst" "keeps R (http_do l ch req)"
  "keeps R (set_inst i)" "keeps R (modify_status h)" "keeps R (update_object l)" "keeps R (update_status l)"
  "keeps R (cache_get l k)" "keeps R (cache_set l k b x)" "keeps R (delete_secret l sc)"
  by (auto simp: keeps_def step_defs cache_get_def cache_set_def delete_secret_def bindE_def refl world_step log_step
      call_step inst_step write_step cache_step split: prod.split)

lemma keeps_set_condition: "keeps R (set_condition l cd)"
  unfolding set_condition_def by (intro keeps_intros keeps_primitives)

lemma keeps_reportEvent: "keeps R (reportEvent t e m)"
  unfolding reportEvent_def by (intro keeps_intros keeps_primitives)

lemma keeps_tally: "(\<And>i. keeps R (f i)) \<Longrightarrow> keeps R (tally f)"
  unfolding tally_def by (intro keeps_intros keeps_primitives)

lemma keeps_endpoint: "keeps R (endpoint l c path)"
  unfolding endpoint_def by (intro keeps_intros keeps_splits)

lemmas keeps_all = keeps_sum keeps_splits keeps_intros keeps_primitives keeps_set_condition keeps_reportEvent keeps_tally keeps_inc
  keeps_endpoint

end


section \<open>Operations\<close>

context reconcile_relation
begin

lemma keeps_request: "retry_contract (net l) \<Longrightarrow> keeps R (request l c m ep p decode)"
proof -
  have "keeps R (getAuthToken l c)"
    unfolding getAuthToken_def claims_def GenerateJwt_def by (intro keeps_all)
  then have "keeps R (attempt l c m ep p decode)"
    unfolding attempt_def by (intro keeps_all)
  then show "retry_contract (net l) \<Longrightarrow> keeps R (request l c m ep p decode)"
    unfolding request_def Backoff_Do_def
    by (intro keeps_bindE keeps_liftE retry_keeps [OF _ _ state_preorder_axioms world_step])
qed

lemma keeps_ops:
  assumes "retry_contract (net l)"
  shows "keeps R (Register l c payload)" "keeps R (GetRegistration l c cn)" "keeps R (Exists l c cn)"
    "keeps R (Update l c payload cid)" "keeps R (Delete l c cid)" "keeps R (GetKeys l c cid)"
    "keeps R (RegisterKeys l c cid keys)" "keeps R (GetAccessibleScopes l c)" "keeps R (GetOpenScopes l c)"
    "keeps R (GetScopes l c)" "keeps R (RegisterScope l c sreg)" "keeps R (UpdateScope l c sreg scp)"
    "keeps R (DeleteScope l c scp)" "keeps R (GetScopeACL l c scp)" "keeps R (AddToScopeACL l c scp org)"
    "keeps R (DeactivateConsumer l c scp org)"
  unfolding client_op_defs by (intro keeps_all keeps_request [OF assms])+

lemma keeps_scopes:
  assumes "retry_contract (net l)"
  shows "keeps R (CanAccessScope l c name)" "keeps R (Process l c exs)" "keeps R (Finalize l c exs)"
proof -
  note ops = keeps_ops [OF assms]
  have "keeps R (updateACL l c sc)" for sc
    unfolding updateACL_def updateConsumers_def updateConsumer_def setValidCondition_def setInvalidCondition_def
    by (intro keeps_all ops)
  then show "keeps R (Process l c exs)"
    unfolding Process_def filtered_def createScopes_def createScope_def updateScopes_def updateScope_def create_def update_def
      activate_def deactivate_def whenE_def
    by (intro keeps_all ops)
  show "keeps R (Finalize l c exs)"
    unfolding Finalize_def filtered_def finalizeScope_def deactivate_def by (intro keeps_all ops)
  show "keeps R (CanAccessScope l c name)"
    unfolding CanAccessScope_def by (intro keeps_all ops)
qed

end


section \<open>Reconciling\<close>

context reconcile_relation
begin

lemma keeps_secrets: "keeps R (GetManaged l)" "keeps R (CreateOrUpdate l c name jwk)" "keeps R (DeleteUnused l name unused)"
proof -
  show "keeps R (GetManaged l)" unfolding GetManaged_def by (intro keeps_all)
  show "keeps R (DeleteUnused l name unused)" unfolding DeleteUnused_def by (intro keeps_all)
  have "keeps R (apply_secret l i data target)" for i data target
    by (simp add: keeps_def apply_secret_def call_step split: prod.split)
  then show "keeps R (CreateOrUpdate l c name jwk)"
    unfolding CreateOrUpdate_def by (intro keeps_bindE keeps_wrapE keeps_primitives keeps_liftE)
qed

lemma keeps_createOrUpdateClient:
  assumes "retry_contract (net l)"
  shows "keeps R (createOrUpdateClient l c)"
proof -
  note ops = keeps_ops [OF assms] and scopes = keeps_scopes [OF assms]
  have "keeps R (filterConsumedScopes l c sp)" for sp
    unfolding filterConsumedScopes_def checkConsumedScope_def by (intro keeps_all scopes)
  then have "keeps R (registrationPayload l c)"
    unfolding registrationPayload_def
    by (intro keeps_bindE keeps_primitives keeps_Let) (auto split: clientSpec.split intro!: keeps_all scopes)
  then show ?thesis
    unfolding createOrUpdateClient_def updateClient_def createClient_def by (intro keeps_all ops)
qed

lemma keeps_keys:
  assumes "retry_contract (net l)"
  shows "keeps R (rotateKey l c cid ms)" "keeps R (reuseKey l c cid ms)"
proof -
  note ops = keeps_ops [OF assms]
  have gen: "keeps R (generate_jwk l)"
    unfolding generate_jwk_def GenerateJwk_def GenerateRSAKey_def by (intro keeps_all)
  have reg: "keeps R (registerJwk l c jwk ms cid)" for jwk
    unfolding registerJwk_def by (intro keeps_all ops)
  have ens: "keeps R (ensureJwkValidExternalState l c cid jwk ms)" for jwk
    unfolding ensureJwkValidExternalState_def by (intro keeps_all ops reg)
  show "keeps R (rotateKey l c cid ms)" unfolding rotateKey_def by (intro keeps_all gen reg)
  show "keeps R (reuseKey l c cid ms)" unfolding reuseKey_def by (intro keeps_all gen ens)
qed

lemma keeps_process:
  assumes "retry_contract (net l)"
  shows "keeps R (process l c)"
proof -
  note parts = keeps_secrets keeps_createOrUpdateClient [OF assms] keeps_keys [OF assms]
  have "keeps R (syncSecret l c cid)" for cid
    unfolding syncSecret_def by (intro keeps_all parts)
  then show ?thesis
    unfolding process_def startProcessing_def set_client_id_def removeAnnotations_def completeStatus_def
    by (intro keeps_all parts)
qed

lemma keeps_finalize:
  assumes "retry_contract (net l)"
  shows "keeps R (finalize l c)"
proof -
  have "keeps R (finalizeScopes l c)"
    unfolding finalizeScopes_def
    by (intro keeps_bindE keeps_primitives) (auto split: clientSpec.split intro!: keeps_all keeps_scopes assms)
  then show ?thesis
    unfolding finalize_def deleteClient_def removeFinalizers_def by (intro keeps_all keeps_ops [OF assms])
qed

lemma keeps_synchronize:
  assumes "retry_contract (net l)"
  shows "keeps R (synchronize l c)"
proof -
  have "keeps R (observeError l err)" for err
    unfolding observeError_def by (intro keeps_all)
  then show ?thesis
    unfolding synchronize_def processed_def by (intro keeps_all keeps_process [OF assms])
qed

lemma keeps_Reconcile:
  assumes "retry_contract (net l)"
  shows "keeps R (Reconcile l c kind req)"
  unfolding Reconcile_def prepare_def ensureFinalizer_def
  by (intro keeps_all keeps_finalize [OF assms] keeps_synchronize [OF assms])

end

section \<open>The log, the counters and the gauges\<close>

definition log_grows :: "('w, 'c) st \<Rightarrow> ('w, 'c) st \<Rightarrow> bool" where
  "log_grows s s' \<longleftrightarrow> (\<exists>t. trace s' = trace s @ t)"

definition counters_grow :: "('w, 'c) st \<Rightarrow> ('w, 'c) st \<Rightarrow> bool" where
  "counters_grow s s' \<longleftrightarrow> (\<forall>m ns k. counters s m ns = Some k \<longrightarrow> (\<exists>k' \<ge> k. counters s' m ns = Some k'))"

definition same_gauges :: "('w, 'c) st \<Rightarrow> ('w, 'c) st \<Rightarrow> bool" where
  "same_gauges s s' \<longleftrightarrow> gauges s' = gauges s \<and> nsItems s' = nsItems s"

interpretation log_grows: reconcile_relation log_grows
  by unfold_locales (auto simp: log_grows_def add_counter_def)

interpretation counters_grow: reconcile_relation counters_grow
proof unfold_locales
  fix s s1 s2 :: "('w, 'c) st"
  show "counters_grow s s" by (simp add: counters_grow_def)
  show "counters_grow s s2" if "counters_grow s s1" "counters_grow s1 s2"
    using that unfolding counters_grow_def by (meson le_trans)
  show "counters_grow s (s\<lparr>world := w, trace := trace s @ t, inst := i, scopeCache := ca\<rparr>)" for w t i ca
    by (simp add: counters_grow_def)
  show "counters_grow s (snd (add_counter n m ns s))" for n m ns
    by (auto simp: counters_grow_def add_counter_def)
qed

interpretation same_gauges: reconcile_relation same_gauges
  by unfold_locales (auto simp: same_gauges_def add_counter_def)

text \<open>
  A reconcile only adds to what was there: the log of calls before it stays as it was, no counter
  decreases or disappears, and the gauges, which the refresh loop owns, are not touched.
\<close>

lemma Reconcile_adds:
  assumes "retry_contract (net l)" and "Reconcile l c kind req s = (r, s')"
  shows "log_grows s s'" and "counters_grow s s'" and "same_gauges s s'"
  using keepsD [OF log_grows.keeps_Reconcile [OF assms(1)] assms(2)]
    keepsD [OF counters_grow.keeps_Reconcile [OF assms(1)] assms(2)]
    keepsD [OF same_gauges.keeps_Reconcile [OF assms(1)] assms(2)] by simp_all

end
