(* ===== verification/Lifecycle.thy ===== *)
theory Lifecycle
  imports Frames
begin

text \<open>
  The life of a resource as \<open>Reconcile\<close> drives it: the removal of its client and its finalizers, the
  reconcile of a resource that is up to date, the effect of a failure, and what a successful run
  leaves behind for the next one.
\<close>

section \<open>Finalizing\<close>

text \<open>The calls of finalizing before the finalizers are removed.\<close>

definition preserving_effect :: "('w, 'c) lib \<Rightarrow> config \<Rightarrow> clientInstance \<Rightarrow> effect \<Rightarrow> bool" where
  "preserving_effect l c i e \<longleftrightarrow> api_call l c MethodGet [''clients''] '''' e \<or>
     (\<exists>sp. inst_Spec i = MaskinportenClient sp \<and> finalize_effect l c (ms_ExposedScopes sp) e)"

definition finalizing_effect :: "('w, 'c) lib \<Rightarrow> config \<Rightarrow> clientInstance \<Rightarrow> effect \<Rightarrow> bool" where
  "finalizing_effect l c i e \<longleftrightarrow> preserving_effect l c i e \<or>
     \<not> shouldPreserve i \<and> (\<exists>cid. api_call l c MethodDelete [''clients'', cid] '''' e)"

text \<open>
  The client of an instance needs no further care: it is to be preserved, or no registration of the
  listing matches the instance, or the deletion of the first one that does was answered.
\<close>

definition client_gone :: "('w, 'c) lib \<Rightarrow> config \<Rightarrow> clientInstance \<Rightarrow> effect list \<Rightarrow> bool" where
  "client_gone l c i t \<longleftrightarrow> (\<exists>regs. \<exists>e \<in> set t.
     answered l c MethodGet [''clients''] '''' '''' (json_Clients (json l)) regs e \<and>
     (case List.find (\<lambda>r. clientMatches l r i (cfg_ClusterName c)) regs of
        None \<Rightarrow> True
      | Some r \<Rightarrow> shouldPreserve i \<or> (\<exists>e' \<in> set t.
          answered l c MethodDelete [''clients'', cr_ClientID r] '''' '''' no_target () e')))"

lemma deleteClient_run: "deleteClient l c existing s =
   (if \<not> existing \<or> shouldPreserve (inst s) then (Inr (), s)
    else wrapE ''deleting client'' (Delete l c (st_ClientID (inst_Status (inst s)))) s)"
  by (simp add: deleteClient_def bindE_the_inst returnE_def)

lemma Delete_Inr:
  assumes "retry_contract (net l)" and "Delete l c cid s = (Inr u, s')"
  shows "\<exists>t e. trace s' = trace s @ t @ [e] \<and> answered l c MethodDelete [''clients'', cid] '''' '''' no_target () e"
  using request_answered [OF assms(1), where q = "''''", unfolded append_Nil2, OF endpoint_then [OF assms(2) [unfolded Delete_def]]]
  by auto

lemma Exists_Inr:
  assumes "retry_contract (net l)" and "Exists l c cn s = (Inr b, s')"
  shows "\<exists>regs t e res. trace s' = trace s @ t @ [e] \<and>
    answered l c MethodGet [''clients''] '''' '''' (json_Clients (json l)) regs e \<and>
    res = List.find (\<lambda>r. clientMatches l r (inst s) cn) regs \<and> b = (res \<noteq> None) \<and>
    inst s' = (case res of None \<Rightarrow> inst s
      | Some r \<Rightarrow> (inst s)\<lparr>inst_Status := (inst_Status (inst s))\<lparr>st_ClientID := cr_ClientID r\<rparr>\<rparr>)"
proof -
  obtain res where g: "GetRegistration l c cn s = (Inr res, s')" and b: "b = (res \<noteq> None)"
    using assms(2) unfolding Exists_def by (auto elim!: bindE_InrE)
  from GetRegistration_Inr [OF assms(1) g] b show ?thesis by blast
qed

lemma shouldPreserve_status: "shouldPreserve (i\<lparr>inst_Status := st\<rparr>) = shouldPreserve i"
  by (simp add: shouldPreserve_def)

lemma deleteClient_gone:
  assumes "retry_contract (net l)" and "Exists l c (cfg_ClusterName c) s = (Inr b, s1)"
    and "deleteClient l c b s1 = (Inr (), s2)"
  shows "\<exists>t. trace s2 = trace s @ t \<and> client_gone l c (inst s) t"
proof -
  obtain regs t e res where t: "trace s1 = trace s @ t @ [e]"
    and a: "answered l c MethodGet [''clients''] '''' '''' (json_Clients (json l)) regs e"
    and res: "res = List.find (\<lambda>r. clientMatches l r (inst s) (cfg_ClusterName c)) regs" and b: "b = (res \<noteq> None)"
    and i: "inst s1 = (case res of None \<Rightarrow> inst s
      | Some r \<Rightarrow> (inst s)\<lparr>inst_Status := (inst_Status (inst s))\<lparr>st_ClientID := cr_ClientID r\<rparr>\<rparr>)"
    using Exists_Inr [OF assms(1,2)] by blast
  have p: "shouldPreserve (inst s1) = shouldPreserve (inst s)"
    unfolding i by (simp add: shouldPreserve_status split: option.split)
  show ?thesis
  proof (cases "res = None \<or> shouldPreserve (inst s)")
    case True
    then have "s2 = s1" using assms(3) b p by (simp add: deleteClient_run)
    with True t a res show ?thesis
      by (intro exI [of _ "t @ [e]"]) (auto simp: client_gone_def split: option.split)
  next
    case False
    then obtain r where r: "res = Some r" by auto
    have "Delete l c (cr_ClientID r) s1 = (Inr (), s2)"
      using assms(3) False b p r i by (simp add: deleteClient_run)
    from Delete_Inr [OF assms(1) this] obtain t' e' where "trace s2 = trace s1 @ t' @ [e']"
      "answered l c MethodDelete [''clients'', cr_ClientID r] '''' '''' no_target () e'" by blast
    moreover have "List.find (\<lambda>r. clientMatches l r (inst s) (cfg_ClusterName c)) regs = Some r" using res r by simp
    ultimately show ?thesis
      unfolding client_gone_def using t a
      by (intro exI [of _ "t @ [e] @ t' @ [e']"] conjI exI [of _ regs] bexI [of _ e]) auto
  qed
qed


text \<open>What \<open>finalize\<close> does before it removes the finalizers.\<close>

definition detach :: "('w, 'c) lib \<Rightarrow> config \<Rightarrow> (('w, 'c) st, unit) eff" where
  "detach l c =
     bindE (wrapE ''finalizer: checking client existence'' (Exists l c (cfg_ClusterName c))) (\<lambda>existing.
     bindE (deleteClient l c existing) (\<lambda>_. finalizeScopes l c))"

lemma finalize_run: "finalize l c s =
   (if \<not> kube_ContainsFinalizer (kube l) (inst s) FinalizerName \<and> \<not> kube_ContainsFinalizer (kube l) (inst s) OldFinalizerName
    then (Inr \<lparr>RequeueAfter = 0\<rparr>, s)
    else bindE (detach l c) (\<lambda>_. bindE (removeFinalizers l) (\<lambda>_. bindE (tally IncClientsDeleted) (\<lambda>_.
           returnE \<lparr>RequeueAfter = 0\<rparr>))) s)"
  unfolding finalize_def detach_def by (simp add: bindE_the_inst returnE_def bindE_assoc)

lemma emits_inst: "(\<And>i. keeps (emits (P i)) (m i)) \<Longrightarrow> emits (P (inst s)) s (snd (bindE the_inst m s))"
  unfolding bindE_the_inst by (simp add: keeps_def)

lemma finalizeScopes_emits:
  assumes "retry_contract (net l)"
  shows "emits (preserving_effect l c (inst s)) s (snd (finalizeScopes l c s))"
  unfolding finalizeScopes_def
proof (rule emits_inst)
  show "keeps (emits (preserving_effect l c i)) (case inst_Spec i of
       MaskinportenClient sp \<Rightarrow> wrapE ''finalizer: deleting Maskinporten scope'' (Finalize l c (ms_ExposedScopes sp))
     | IDPortenClient _ \<Rightarrow> returnE ())" for i
    by (cases "inst_Spec i")
      (auto simp: preserving_effect_def intro!: emits.keeps_intros emits_mono [OF Finalize_emits [OF assms]])
qed

lemma detach_emits:
  assumes "retry_contract (net l)"
  shows "emits (finalizing_effect l c (inst s)) s (snd (detach l c s))"
proof -
  let ?P = "finalizing_effect l c (inst s)"
  have get: "keeps (emits ?P) (Exists l c (cfg_ClusterName c))"
    by (rule emits_mono [OF emits_ops(3) [OF assms]]) (simp add: finalizing_effect_def preserving_effect_def)
  show ?thesis unfolding detach_def
  proof (rule run_bindE [where R = "emits ?P"])
    show "emits ?P s (snd (wrapE ''finalizer: checking client existence'' (Exists l c (cfg_ClusterName c)) s))"
      using get by (simp only: keeps_def snd_wrapE)
    fix b s1 assume "wrapE ''finalizer: checking client existence'' (Exists l c (cfg_ClusterName c)) s = (Inr b, s1)"
    then have ex: "Exists l c (cfg_ClusterName c) s = (Inr b, s1)" by (simp only: wrapE_Inr_iff)
    have 1: "emits ?P s s1" by (rule keepsD [OF get ex])
    have i: "inst_Meta (inst s1) = inst_Meta (inst s)" "inst_Spec (inst s1) = inst_Spec (inst s)"
      using Exists_Inr [OF assms ex] by (auto split: option.splits)
    have p: "shouldPreserve (inst s1) = shouldPreserve (inst s)" using i by (simp add: shouldPreserve_def)
    have 2: "emits ?P s1 (snd (deleteClient l c b s1))"
    proof (cases "\<not> b \<or> shouldPreserve (inst s)")
      case True
      then show ?thesis by (simp add: deleteClient_run p emits.refl)
    next
      case False
      then have "keeps (emits ?P) (Delete l c cid)" for cid
        by (intro emits_mono [OF emits_ops(5) [OF assms]]) (auto simp: finalizing_effect_def)
      with False show ?thesis by (simp add: deleteClient_run p keeps_def)
    qed
    have 3: "emits ?P s2 (snd (finalizeScopes l c s2))" if "inst_Spec (inst s2) = inst_Spec (inst s)" for s2
    proof -
      have "preserving_effect l c (inst s2) e \<Longrightarrow> ?P e" for e
        using that by (simp add: finalizing_effect_def preserving_effect_def)
      with finalizeScopes_emits [OF assms, of c s2] show ?thesis
        unfolding emits_def by (metis list.pred_mono_strong)
    qed
    have sp: "inst_Spec (inst s2) = inst_Spec (inst s)" if "deleteClient l c b s1 = (r, s2)" for r s2
      using that i keepsD [OF same_inst_ops(3) [OF assms]]
      by (auto simp: deleteClient_run wrapE_run same_inst_def split: if_splits prod.splits sum.splits)
    show "emits ?P s (snd (bindE (deleteClient l c b) (\<lambda>_. finalizeScopes l c) s1))"
    proof (cases "deleteClient l c b s1")
      case (Pair r s2)
      with 2 3 [OF sp [OF Pair]] have "emits ?P s1 (snd (bindE (deleteClient l c b) (\<lambda>_. finalizeScopes l c) s1))"
        by (cases r) (auto simp: bindE_def intro: emits.trans)
      with 1 show ?thesis by (rule emits.trans)
    qed
  qed
qed


text \<open>The scopes that an instance exposes need no further care; only a Maskinporten client has any.\<close>

definition scopes_gone :: "('w, 'c) lib \<Rightarrow> config \<Rightarrow> clientInstance \<Rightarrow> effect list \<Rightarrow> bool" where
  "scopes_gone l c i t \<longleftrightarrow> (case inst_Spec i of
     IDPortenClient _ \<Rightarrow> True | MaskinportenClient sp \<Rightarrow> scopes_finalized l c (ms_ExposedScopes sp) t)"

lemma scopes_finalized_mono:
  assumes "scopes_finalized l c exs t" and "set t \<subseteq> set t'"
  shows "scopes_finalized l c exs t'"
proof -
  obtain all e where e: "e \<in> set t'" "answered l c MethodGet [''scopes''] ''?inactive=true'' '''' (json_Scopes (json l)) all e"
    and fin: "\<forall>ex \<in> set exs. \<not> es_Enabled ex \<longrightarrow> (case List.find (\<lambda>r. sr_Subscope r = Subscope ex) (rev all) of
        None \<Rightarrow> True
      | Some reg \<Rightarrow> \<exists>e' \<in> set t. \<exists>x. answered l c MethodDelete [''scopes''] (scope_query (ToString (CurrentScopeInfo reg ex))) ''''
          (json_ScopePtr (json l)) (Some x) e')"
    using assms unfolding scopes_finalized_def by blast
  have "\<forall>ex \<in> set exs. \<not> es_Enabled ex \<longrightarrow> (case List.find (\<lambda>r. sr_Subscope r = Subscope ex) (rev all) of
        None \<Rightarrow> True
      | Some reg \<Rightarrow> \<exists>e' \<in> set t'. \<exists>x. answered l c MethodDelete [''scopes''] (scope_query (ToString (CurrentScopeInfo reg ex))) ''''
          (json_ScopePtr (json l)) (Some x) e')"
    using fin assms(2) by (fastforce split: option.splits)
  with e show ?thesis unfolding scopes_finalized_def by (intro exI [of _ all] exI [of _ e]) simp
qed

lemma finalizeScopes_gone:
  assumes "retry_contract (net l)" and "finalizeScopes l c s = (Inr (), s')"
  shows "\<exists>t. trace s' = trace s @ t \<and> scopes_gone l c (inst s) t"
proof (cases "inst_Spec (inst s)")
  case (IDPortenClient sp)
  with assms(2) have "s' = s" by (simp add: finalizeScopes_def bindE_the_inst returnE_def)
  with IDPortenClient show ?thesis by (simp add: scopes_gone_def)
next
  case (MaskinportenClient sp)
  with assms(2) have "Finalize l c (ms_ExposedScopes sp) s = (Inr (), s')"
    by (simp add: finalizeScopes_def bindE_the_inst wrapE_Inr_iff)
  from Finalize_Inr [OF assms(1) this] MaskinportenClient show ?thesis by (simp add: scopes_gone_def)
qed

lemma detach_gone:
  assumes "retry_contract (net l)" and "detach l c s = (Inr (), s')"
  shows "\<exists>t. trace s' = trace s @ t \<and> client_gone l c (inst s) t \<and> scopes_gone l c (inst s) t"
proof -
  obtain b s1 where e0: "wrapE ''finalizer: checking client existence'' (Exists l c (cfg_ClusterName c)) s = (Inr b, s1)"
    and k: "bindE (deleteClient l c b) (\<lambda>_. finalizeScopes l c) s1 = (Inr (), s')"
    using assms(2) unfolding detach_def by (rule bindE_InrE)
  from e0 have ex: "Exists l c (cfg_ClusterName c) s = (Inr b, s1)" by (simp only: wrapE_Inr_iff)
  from k obtain u s2 where d: "deleteClient l c b s1 = (Inr u, s2)" and f: "finalizeScopes l c s2 = (Inr (), s')"
    by (rule bindE_InrE)
  obtain t where t: "trace s2 = trace s @ t" "client_gone l c (inst s) t"
    using deleteClient_gone [OF assms(1) ex] d by auto
  have "inst_Spec (inst s1) = inst_Spec (inst s)" using Exists_Inr [OF assms(1) ex] by (auto split: option.splits)
  moreover have "inst_Spec (inst s2) = inst_Spec (inst s1)"
    using d keepsD [OF same_inst_ops(3) [OF assms(1)]]
    by (auto simp: deleteClient_run wrapE_run same_inst_def split: if_splits prod.splits sum.splits)
  moreover obtain t' where t': "trace s' = trace s2 @ t'" "scopes_gone l c (inst s2) t'"
    using finalizeScopes_gone [OF assms(1) f] by blast
  ultimately have "scopes_gone l c (inst s) (t @ t')"
    unfolding scopes_gone_def by (auto split: clientSpec.splits elim: scopes_finalized_mono)
  moreover have "client_gone l c (inst s) (t @ t')"
    using t(2) unfolding client_gone_def by (fastforce split: option.splits)
  ultimately show ?thesis using t(1) t'(1) by auto
qed
lemma same_object_detach:
  assumes "retry_contract (net l)"
  shows "keeps same_object (detach l c)"
proof -
  have ex: "keeps same_object (Exists l c cn)" for cn
    unfolding Exists_def GetRegistration_def
    by (intro same_object_intros endpoint_frame [OF same_object.state_preorder_axioms] same_object.keeps_request [OF assms])
  have sc: "keeps same_object (Finalize l c exs)" for exs
    unfolding Finalize_def filtered_def finalizeScope_def
    by (intro same_object_intros same_object_ops [OF assms] same_object_updateScope assms)
  have "keeps same_object (finalizeScopes l c)"
    unfolding finalizeScopes_def
    by (intro same_object.keeps_bindE same_object.keeps_steps) (auto split: clientSpec.split intro!: same_object_intros sc)
  then show ?thesis
    unfolding detach_def deleteClient_def by (intro same_object_intros same_object_ops [OF assms] ex)
qed

lemma removeFinalizers_run:
  "\<exists>e. removeFinalizers l s = (case e of None \<Rightarrow> Inr () | Some x \<Rightarrow> Inl (wrapped ''removing finalizer'' x), snd (removeFinalizers l s)) \<and>
     trace (snd (removeFinalizers l s)) = trace s @ [KubeUpdate (kube_RemoveFinalizer (kube l) OldFinalizerName
       (kube_RemoveFinalizer (kube l) FinalizerName (inst s))) e]"
proof -
  let ?i = "kube_RemoveFinalizer (kube l) OldFinalizerName (kube_RemoveFinalizer (kube l) FinalizerName (inst s))"
  obtain e i w where "kube_Update (kube l) ?i (world s) = ((e, i), w)" by (metis prod.collapse)
  then have "removeFinalizers l s = (case e of None \<Rightarrow> Inr () | Some x \<Rightarrow> Inl (wrapped ''removing finalizer'' x),
      s\<lparr>inst := i, world := w, trace := trace s @ [KubeUpdate ?i e]\<rparr>)"
    by (cases e) (simp_all add: removeFinalizers_def the_inst_def set_inst_def bindE_def wrapE_run update_object_def)
  then show ?thesis by (intro exI [of _ e]) simp
qed

lemma tally_kind:
  assumes "f = inc_by_kind a b"
  obtains s' where "tally f s = (Inr (), s')" and "trace s' = trace s" and "inst s' = inst s" and "world s' = world s"
  by (cases "inst_Spec (inst s)")
    (simp_all add: assms tally_def bindE_the_inst inc_by_kind_def incWithNamespaceLabel_def add_counter_def)

text \<open>
  C3: the finalizers of a resource are removed last and only when its client and its scopes need no
  further care. Every call of \<open>finalize\<close> before the write of the object lists the clients, deletes a
  client that is not to be preserved, or finalizes an exposed scope. When the object is written, DigDir
  has listed its clients, and the one that matches the resource, if any, is to be preserved or its
  deletion was answered; for a Maskinporten client DigDir has also listed its scopes, and the deletion
  of every registered scope that the specification exposes as disabled was answered. The write takes
  both finalizers off the object and leaves the rest of its metadata and its specification alone. The
  resource is done with exactly when that write succeeded.
\<close>

theorem finalizer_removed_last:
  assumes "retry_contract (net l)" and "finalize l c s = (r, s')"
    and "kube_ContainsFinalizer (kube l) (inst s) FinalizerName \<or> kube_ContainsFinalizer (kube l) (inst s) OldFinalizerName"
  shows "\<exists>t. list_all (finalizing_effect l c (inst s)) t \<and>
    ((\<exists>e. r = Inl e) \<and> trace s' = trace s @ t \<or>
     (\<exists>i e. trace s' = trace s @ t @ [KubeUpdate (kube_RemoveFinalizer (kube l) OldFinalizerName
          (kube_RemoveFinalizer (kube l) FinalizerName i)) e] \<and>
        inst_Meta i = inst_Meta (inst s) \<and> inst_Spec i = inst_Spec (inst s) \<and>
        client_gone l c (inst s) t \<and> scopes_gone l c (inst s) t \<and>
        r = (case e of None \<Rightarrow> Inr \<lparr>RequeueAfter = 0\<rparr> | Some x \<Rightarrow> Inl (wrapped ''removing finalizer'' x))))"
proof -
  let ?k = "\<lambda>_::unit. bindE (removeFinalizers l) (\<lambda>_. bindE (tally IncClientsDeleted) (\<lambda>_. returnE \<lparr>RequeueAfter = 0\<rparr>))"
  have run: "bindE (detach l c) ?k s = (r, s')" using assms(2,3) by (auto simp: finalize_run)
  obtain r1 s1 where d: "detach l c s = (r1, s1)" by (cases "detach l c s")
  from detach_emits [OF assms(1), of c s] d obtain t where t: "trace s1 = trace s @ t" "list_all (finalizing_effect l c (inst s)) t"
    by (auto simp: emits_def)
  show ?thesis
  proof (cases r1)
    case (Inl e)
    with run d t show ?thesis by (auto simp: bindE_Inl)
  next
    case (Inr u)
    with d have gone: "client_gone l c (inst s) t \<and> scopes_gone l c (inst s) t"
      using detach_gone [OF assms(1), of c s s1] t(1) by auto
    obtain e s2 where rm: "removeFinalizers l s1 = (case e of None \<Rightarrow> Inr () | Some x \<Rightarrow> Inl (wrapped ''removing finalizer'' x), s2)"
      and tr: "trace s2 = trace s1 @ [KubeUpdate (kube_RemoveFinalizer (kube l) OldFinalizerName
        (kube_RemoveFinalizer (kube l) FinalizerName (inst s1))) e]"
      using removeFinalizers_run [of l s1] by metis
    have same: "inst_Meta (inst s1) = inst_Meta (inst s)" "inst_Spec (inst s1) = inst_Spec (inst s)"
      using keepsD [OF same_object_detach [OF assms(1)] d] by (simp_all add: same_object_def)
    obtain s3 where ta: "tally IncClientsDeleted s2 = (Inr (), s3)" "trace s3 = trace s2" by (rule tally_kind [OF IncClientsDeleted_def])
    from run d Inr have "?k () s1 = (r, s')" by (simp add: bindE_Inr)
    then have "trace s' = trace s2 \<and>
        r = (case e of None \<Rightarrow> Inr \<lparr>RequeueAfter = 0\<rparr> | Some x \<Rightarrow> Inl (wrapped ''removing finalizer'' x))"
      using rm ta by (cases e) (auto simp: bindE_def)
    with t tr gone same show ?thesis by (intro exI [of _ t]) auto
  qed
qed


definition demo_finalized :: clientInstance where
  "demo_finalized = demo_idporten\<lparr>inst_Meta := demo_meta\<lparr>om_Finalizers := [FinalizerName]\<rparr>\<rparr>"

text \<open>A Maskinporten client that exposes a disabled scope, and the registration of the client.\<close>

definition demo_retired :: clientInstance where
  "demo_retired = demo_maskinporten\<lparr>inst_Meta := demo_meta\<lparr>om_Finalizers := [FinalizerName]\<rparr>,
     inst_Spec := MaskinportenClient \<lparr>ms_ClientName = '''', ms_SecretName = ''sec'', ms_ConsumedScopes = [''a''],
       ms_ExposedScopes = [demo_exposed\<lparr>es_Enabled := False\<rparr>]\<rparr>\<rparr>"

definition demo_known :: clientRegistration where
  "demo_known = demo_registration\<lparr>cr_IntegrationType := ''maskinporten''\<rparr>"

abbreviation demo_retired_lib :: "(nat, (string \<times> bool) list) lib" where
  "demo_retired_lib \<equiv> demo_lib (\<lambda>_. ok_response) [demo_known] demo_retired"

definition demo_spec :: "(nat, (string \<times> bool) list) st \<Rightarrow> bool" where
  "demo_spec s \<longleftrightarrow> inst_Spec (inst s) = inst_Spec demo_retired"

lemma demo_finalizeScopes: "works demo_spec (finalizeScopes demo_retired_lib demo_config)"
proof -
  have gen: "ToUpdate (Generate [demo_scope] [demo_exposed\<lparr>es_Enabled := False\<rparr>]) =
      [CurrentScopeInfo demo_scope (demo_exposed\<lparr>es_Enabled := False\<rparr>)]" by code_simp
  have name: "ToString (CurrentScopeInfo demo_scope (demo_exposed\<lparr>es_Enabled := False\<rparr>)) = ''nav:p:s''"
    by (simp add: ToString_def demo_scope_def)
  show ?thesis
    by (simp add: works_iff demo_spec_def demo_retired_def finalizeScopes_def Finalize_def filtered_def finalizeScope_def
        CurrentScopeInfo_sel deactivate_def demo_kube_run gen name inc_defs inc_maskinporten_def incWithNamespaceLabel_def add_counter_def)
qed

lemma demo_finalize: "works demo_spec (finalize demo_retired_lib demo_config)"
proof -
  have ex: "works demo_spec (Exists demo_retired_lib demo_config cn)" "works demo_spec (Delete demo_retired_lib demo_config cid)"
    "works demo_spec the_inst" "works demo_spec (tally IncClientsDeleted)" "works demo_spec (removeFinalizers demo_retired_lib)" for cn cid
    by (auto simp: works_iff demo_spec_def demo_kube_run no_target_def demo_retired_def IncClientsDeleted_def inc_by_kind_def
        incWithNamespaceLabel_def add_counter_def removeFinalizers_def Exists_def split: option.split)
  have del: "works demo_spec (deleteClient demo_retired_lib demo_config b)" for b
    unfolding deleteClient_def by (rule works_bindE [OF ex(3)]) (auto intro!: works_intros ex)
  have "works demo_spec (bindE (wrapE ''finalizer: checking client existence'' (Exists demo_retired_lib demo_config (cfg_ClusterName demo_config))) (\<lambda>existing.
       bindE (deleteClient demo_retired_lib demo_config existing) (\<lambda>_.
       bindE (finalizeScopes demo_retired_lib demo_config) (\<lambda>_.
       bindE (removeFinalizers demo_retired_lib) (\<lambda>_.
       bindE (tally IncClientsDeleted) (\<lambda>_.
       returnE \<lparr>RequeueAfter = 0\<rparr>))))))"
    by (intro works_intros ex del demo_finalizeScopes)
  then show ?thesis
    unfolding finalize_def by (intro works_bindE [OF ex(3)]) (auto intro: works_return)
qed

theorem finalizer_removed_last_witness:
  "\<exists>s' t i. finalize demo_retired_lib demo_config (demo_state demo_retired) =
     (Inr \<lparr>RequeueAfter = 0\<rparr>, s') \<and> trace s' = t @ [KubeUpdate i None] \<and> om_Finalizers (inst_Meta i) = [] \<and>
     client_gone demo_retired_lib demo_config demo_retired t \<and>
     scopes_finalized demo_retired_lib demo_config [demo_exposed\<lparr>es_Enabled := False\<rparr>] t"
proof -
  let ?s = "demo_state demo_retired"
  obtain r s' where run: "finalize demo_retired_lib demo_config ?s = (r, s')" by (cases "finalize demo_retired_lib demo_config ?s")
  have i: "inst ?s = demo_retired" "trace ?s = []" by (simp_all add: demo_state_def)
  have fin: "kube_ContainsFinalizer (kube demo_retired_lib) (inst ?s) FinalizerName"
    by (simp add: demo_state_def demo_kube_def demo_retired_def)
  have "demo_spec ?s" by (simp add: demo_spec_def demo_state_def)
  then obtain x where r: "r = Inr x" using demo_finalize run unfolding works_iff by (metis prod.inject)
  have sg: "scopes_gone demo_retired_lib demo_config demo_retired t =
      scopes_finalized demo_retired_lib demo_config [demo_exposed\<lparr>es_Enabled := False\<rparr>] t" for t
    by (simp add: scopes_gone_def demo_retired_def)
  from finalizer_removed_last [OF _ run disjI1 [OF fin]] i r sg obtain t i e where
    "trace s' = t @ [KubeUpdate (kube_RemoveFinalizer (demo_kube demo_retired) OldFinalizerName
       (kube_RemoveFinalizer (demo_kube demo_retired) FinalizerName i)) e]" "inst_Meta i = inst_Meta demo_retired"
    "client_gone demo_retired_lib demo_config demo_retired t"
    "scopes_finalized demo_retired_lib demo_config [demo_exposed\<lparr>es_Enabled := False\<rparr>] t"
    "r = (case e of None \<Rightarrow> Inr \<lparr>RequeueAfter = 0\<rparr> | Some x \<Rightarrow> Inl (wrapped ''removing finalizer'' x))" by auto
  moreover from this r have "e = None" by (cases e) simp_all
  ultimately show ?thesis using run by (auto simp: demo_kube_def demo_retired_def)
qed


section \<open>When there is nothing to do\<close>

lemma bindE_call: "bindE (call f) k s = (case f (world s) of (x, w) \<Rightarrow> k x (s\<lparr>world := w\<rparr>))"
  by (simp add: call_def bindE_def split: prod.split)

lemma prepare_run: "prepare l kind req s = (case kube_Get (kube l) kind req (world s) of
    (Inl e, w) \<Rightarrow> (Inl e, s\<lparr>world := w\<rparr>) | (Inr i, w) \<Rightarrow> (Inr (), s\<lparr>world := w, inst := i\<rparr>))"
  by (simp add: prepare_def call_err_def set_inst_def bindE_def split: prod.split sum.split)

lemma ensureFinalizer_present:
  "kube_ContainsFinalizer (kube l) (inst s) FinalizerName \<Longrightarrow> ensureFinalizer l s = (Inr (), s)"
  by (simp add: ensureFinalizer_def bindE_the_inst returnE_def)

lemma synchronize_run: "synchronize l c s = (case sys_Now (sys l) (world s) of (now, w) \<Rightarrow>
    if IsUpToDate now (inst s) \<and> \<not> HasRetryableStatusCondition l (st_Conditions (inst_Status (inst s)))
    then (Inr \<lparr>RequeueAfter = 8 * Hour\<rparr>, s\<lparr>world := w\<rparr>)
    else catchE (process l c)
         (\<lambda>err. bindE (wrapE ''observing error'' (observeError l err)) (\<lambda>_. returnE \<lparr>RequeueAfter = Second\<rparr>))
         (\<lambda>_. processed l) (s\<lparr>world := w\<rparr>))"
  unfolding synchronize_def bindE_call bindE_the_inst by (auto simp: returnE_def split: prod.split)

text \<open>
  C18: a resource that is up to date and has no condition that asks for another attempt is left
  alone: no call leaves the process, nothing but the clock is read after the object, no counter
  changes, and the resource is looked at again after eight hours.
\<close>

theorem up_to_date_untouched:
  assumes "kube_Get (kube l) kind req (world s) = (Inr i, w)" and "\<not> markedForDeletion i"
    and "kube_ContainsFinalizer (kube l) i FinalizerName" and "sys_Now (sys l) w = (now, w')"
    and "IsUpToDate now i" and "\<not> HasRetryableStatusCondition l (st_Conditions (inst_Status i))"
  shows "Reconcile l c kind req s = (Inr \<lparr>RequeueAfter = 8 * Hour\<rparr>, s\<lparr>world := w', inst := i\<rparr>)"
  using assms by (simp add: Reconcile_def catchE_def prepare_run bindE_the_inst bindE_Inr [OF ensureFinalizer_present] synchronize_run)

definition demo_synced :: clientInstance where
  "demo_synced = demo_finalized\<lparr>inst_Status := demo_status\<lparr>st_ObservedGeneration := Some 1\<rparr>\<rparr>"

theorem up_to_date_untouched_witness:
  "Reconcile (demo_lib (\<lambda>_. ok_response) [] demo_synced) demo_config KindIDPorten \<lparr>nn_Namespace = ''ns'', nn_Name = ''app''\<rparr>
     (demo_state demo_idporten) = (Inr \<lparr>RequeueAfter = 8 * Hour\<rparr>, (demo_state demo_idporten)\<lparr>world := 1, inst := demo_synced\<rparr>)"
  by (rule up_to_date_untouched [where w = 0 and now = 0])
    (simp_all add: demo_state_def demo_kube_def demo_sys_def demo_synced_def demo_finalized_def demo_meta_def demo_idporten_def
      markedForDeletion_def IsUpToDate_def hasAnnotation_def isStale_def demo_status_def HasRetryableStatusCondition_def)

text \<open>
  There is nothing to do for an instance at a time: its generation is the one it was last synchronised
  at, no annotation asks for a resync or a rotation, the last synchronisation is at most seven days
  (in nanoseconds) back, and neither an error nor a scope without access is recorded.
\<close>

definition nothing_to_do :: "('w, 'c) lib \<Rightarrow> int \<Rightarrow> clientInstance \<Rightarrow> bool" where
  "nothing_to_do l now i \<longleftrightarrow>
     st_ObservedGeneration (inst_Status i) = Some (om_Generation (inst_Meta i)) \<and> om_Generation (inst_Meta i) \<noteq> 0 \<and>
     map_of (om_Annotations (inst_Meta i)) AnnotationResynchronize \<noteq> Some ''true'' \<and>
     map_of (om_Annotations (inst_Meta i)) AnnotationRotate \<noteq> Some ''true'' \<and>
     (case st_SynchronizationTime (inst_Status i) of None \<Rightarrow> True | Some t \<Rightarrow> now - t \<le> 604800 * 1000000000) \<and>
     (case st_Conditions (inst_Status i) of None \<Rightarrow> True | Some cs \<Rightarrow>
        \<not> kube_IsConditionTrue (kube l) cs ConditionTypeError \<and>
        \<not> kube_IsConditionTrue (kube l) cs ConditionTypeInvalidConsumedScopes)"

lemma nothing_to_do_iff:
  "IsUpToDate now i \<and> \<not> HasRetryableStatusCondition l (st_Conditions (inst_Status i)) \<longleftrightarrow> nothing_to_do l now i"
  unfolding nothing_to_do_def up_to_date_iff HasRetryableStatusCondition_iff by (cases "st_Conditions (inst_Status i)") auto

lemma startProcessing_log:
  "\<exists>st e. trace (snd (startProcessing l s)) = trace s @ [KubeStatusUpdate ((inst s)\<lparr>inst_Status := st\<rparr>) e]"
proof -
  let ?c = "ReadyCondition ConditionFalse ConditionReasonProcessing ''Started processing resource'' (om_Generation (inst_Meta (inst s)))"
  obtain st w where sc: "kube_SetCondition (kube l) ?c (inst_Status (inst s)) (world s) = (st, w)"
    by (cases "kube_SetCondition (kube l) ?c (inst_Status (inst s)) (world s)")
  let ?s = "s\<lparr>world := w, inst := (inst s)\<lparr>inst_Status := st\<rparr>\<rparr>"
  have "snd (startProcessing l s) = snd (update_status l ?s)"
    using sc by (simp add: startProcessing_def bindE_the_inst set_condition_def bindE_call modify_status_def bindE_Inr)
  moreover obtain e i w' where "kube_StatusUpdate (kube l) (inst ?s) (world ?s) = ((e, i), w')" by (metis prod.collapse)
  ultimately show ?thesis by (intro exI [of _ st] exI [of _ e]) (simp add: update_status_def)
qed

text \<open>The first call of \<open>process\<close> writes the status, and nothing takes an entry of the log back.\<close>

lemma process_starts:
  assumes "retry_contract (net l)" and "process l c s = (r, s')"
  shows "\<exists>st e t. trace s' = trace s @ KubeStatusUpdate ((inst s)\<lparr>inst_Status := st\<rparr>) e # t"
proof -
  obtain r1 s1 where st: "startProcessing l s = (r1, s1)" by (cases "startProcessing l s")
  have "log_grows s1 s'"
  proof (cases r1)
    case (Inl e)
    with assms(2) st show ?thesis by (simp add: process_def bindE_Inl log_grows.refl)
  next
    case (Inr u)
    note parts = log_grows.keeps_secrets log_grows.keeps_createOrUpdateClient [OF assms(1)] log_grows.keeps_keys [OF assms(1)]
    have "keeps log_grows (syncSecret l c cid)" for cid
      unfolding syncSecret_def by (intro log_grows.keeps_all parts)
    then have "keeps log_grows (bindE (createOrUpdateClient l c) (\<lambda>registration.
       bindE (set_client_id (cr_ClientID registration)) (\<lambda>_.
       bindE (syncSecret l c (cr_ClientID registration)) (\<lambda>_.
       bindE the_inst (\<lambda>i. let status = inst_Status i in
       bindE (removeAnnotations l) (\<lambda>_. completeStatus l status))))))"
      unfolding set_client_id_def removeAnnotations_def completeStatus_def by (intro log_grows.keeps_all parts)
    with assms(2) st Inr show ?thesis unfolding process_def by (simp add: bindE_Inr keepsD)
  qed
  with startProcessing_log [of l s] st show ?thesis by (auto simp: log_grows_def)
qed

text \<open>
  C34: a reconcile skips a resource exactly when there is nothing to do for it. Of a resource that is
  not being deleted and has its finalizer, either the generation last synchronised is the current one,
  no annotation asks for work, the last synchronisation is at most seven days old and no condition asks
  for another attempt; then no call leaves the process and the resource is looked at again after eight
  hours. Or one of these fails, and then processing starts, with a write of the status as the first
  call.
\<close>

theorem reconcile_skipped_iff:
  assumes "retry_contract (net l)" and "kube_Get (kube l) kind req (world s) = (Inr i, w)"
    and "\<not> markedForDeletion i" and "kube_ContainsFinalizer (kube l) i FinalizerName"
    and "sys_Now (sys l) w = (now, w')" and "Reconcile l c kind req s = (r, s')"
  shows "if nothing_to_do l now i then trace s' = trace s \<and> r = Inr \<lparr>RequeueAfter = 8 * Hour\<rparr>
    else \<exists>st e t. trace s' = trace s @ KubeStatusUpdate (i\<lparr>inst_Status := st\<rparr>) e # t"
proof -
  let ?s = "s\<lparr>world := w, inst := i\<rparr>"
  let ?h = "\<lambda>err. bindE (wrapE ''observing error'' (observeError l err)) (\<lambda>_. returnE \<lparr>RequeueAfter = Second\<rparr>)"
  have "synchronize l c ?s = (r, s')"
    using assms(2-4,6) by (simp add: Reconcile_def catchE_def prepare_run bindE_the_inst bindE_Inr [OF ensureFinalizer_present])
  then have run: "(if nothing_to_do l now i then (Inr \<lparr>RequeueAfter = 8 * Hour\<rparr>, ?s\<lparr>world := w'\<rparr>)
      else catchE (process l c) ?h (\<lambda>_. processed l) (?s\<lparr>world := w'\<rparr>)) = (r, s')"
    using assms(5) by (simp add: synchronize_run nothing_to_do_iff)
  show ?thesis
  proof (cases "nothing_to_do l now i")
    case True
    with run show ?thesis by auto
  next
    case False
    obtain r1 s1 where p: "process l c (?s\<lparr>world := w'\<rparr>) = (r1, s1)" by (cases "process l c (?s\<lparr>world := w'\<rparr>)")
    have "keeps log_grows (?h err)" for err
      unfolding observeError_def by (intro log_grows.keeps_all)
    moreover have "keeps log_grows (processed l)" unfolding processed_def by (intro log_grows.keeps_all)
    ultimately have "log_grows s1 s'"
      using run p False by (auto simp: catchE_def log_grows.refl split: sum.splits if_splits intro: keepsD)
    with process_starts [OF assms(1) p] False show ?thesis by (auto simp: log_grows_def)
  qed
qed

text \<open>A synchronised resource whose rotation is asked for is not skipped, and the one without is.\<close>

definition demo_rotating :: clientInstance where
  "demo_rotating = demo_synced\<lparr>inst_Meta := (inst_Meta demo_synced)\<lparr>om_Annotations := [(AnnotationRotate, ''true'')]\<rparr>\<rparr>"

theorem reconcile_skipped_iff_witness:
  "\<exists>r s' r1 s1. Reconcile (demo_lib (\<lambda>_. ok_response) [] demo_synced) demo_config KindIDPorten \<lparr>nn_Namespace = ''ns'', nn_Name = ''app''\<rparr>
      (demo_state demo_idporten) = (r, s') \<and> r = Inr \<lparr>RequeueAfter = 8 * Hour\<rparr> \<and> trace s' = [] \<and>
    Reconcile (demo_lib (\<lambda>_. ok_response) [] demo_rotating) demo_config KindIDPorten \<lparr>nn_Namespace = ''ns'', nn_Name = ''app''\<rparr>
      (demo_state demo_idporten) = (r1, s1) \<and> (\<exists>st e t. trace s1 = KubeStatusUpdate (demo_rotating\<lparr>inst_Status := st\<rparr>) e # t)"
proof -
  let ?req = "\<lparr>nn_Namespace = ''ns'', nn_Name = ''app''\<rparr>"
  let ?l = "demo_lib (\<lambda>_. ok_response) []"
  have s: "trace (demo_state demo_idporten) = []" by (simp add: demo_state_def)
  have get: "kube_Get (kube (?l i)) KindIDPorten ?req (world (demo_state demo_idporten)) = (Inr i, 0)"
    "sys_Now (sys (?l i)) 0 = (0, 1)" for i
    by (simp_all add: demo_kube_def demo_state_def demo_sys_def)
  have i: "\<not> markedForDeletion demo_synced" "kube_ContainsFinalizer (kube (?l demo_synced)) demo_synced FinalizerName"
    "\<not> markedForDeletion demo_rotating" "kube_ContainsFinalizer (kube (?l demo_rotating)) demo_rotating FinalizerName"
    by (simp_all add: markedForDeletion_def demo_rotating_def demo_synced_def demo_finalized_def demo_meta_def demo_idporten_def demo_kube_def)
  have n: "nothing_to_do (?l demo_synced) 0 demo_synced" "\<not> nothing_to_do (?l demo_rotating) 0 demo_rotating"
    by (simp_all add: nothing_to_do_def demo_rotating_def demo_synced_def demo_finalized_def demo_meta_def demo_idporten_def demo_status_def)
  obtain r s' where a: "Reconcile (?l demo_synced) demo_config KindIDPorten ?req (demo_state demo_idporten) = (r, s')"
    by (cases "Reconcile (?l demo_synced) demo_config KindIDPorten ?req (demo_state demo_idporten)")
  obtain r1 s1 where b: "Reconcile (?l demo_rotating) demo_config KindIDPorten ?req (demo_state demo_idporten) = (r1, s1)"
    by (cases "Reconcile (?l demo_rotating) demo_config KindIDPorten ?req (demo_state demo_idporten)")
  have "trace s' = []" "r = Inr \<lparr>RequeueAfter = 8 * Hour\<rparr>"
    using reconcile_skipped_iff [OF _ get(1) i(1,2) get(2) a] n(1) s by simp_all
  moreover have "\<exists>st e t. trace s1 = KubeStatusUpdate (demo_rotating\<lparr>inst_Status := st\<rparr>) e # t"
    using reconcile_skipped_iff [OF _ get(1) i(3,4) get(2) b] n(2) s by simp
  ultimately show ?thesis using a b by blast
qed

text \<open>
  C19: a resource that no longer exists is forgotten: when the read reports an error that says so,
  \<open>Reconcile\<close> succeeds, asks for no further look and does nothing; any other error of the read is
  returned, and nothing is done either.
\<close>

theorem missing_resource_ignored:
  assumes "kube_Get (kube l) kind req (world s) = (Inl e, w)" and "\<not> is_panic e"
  shows "Reconcile l c kind req s =
    (case kube_IgnoreNotFound (kube l) e of None \<Rightarrow> Inr \<lparr>RequeueAfter = 0\<rparr> | Some e' \<Rightarrow> Inl e', s\<lparr>world := w\<rparr>)"
  using assms by (simp add: Reconcile_def catchE_def prepare_run returnE_def failE_def split: option.split)

theorem missing_resource_ignored_witness:
  "Reconcile ((demo_lib (\<lambda>_. ok_response) [] demo_idporten)\<lparr>kube := (demo_kube demo_idporten)\<lparr>kube_Get :=
       (\<lambda>k n w. (Inl (ApiNotFound ''x''), Suc w))\<rparr>\<rparr>) demo_config KindIDPorten \<lparr>nn_Namespace = ''ns'', nn_Name = ''app''\<rparr>
     (demo_state demo_idporten) = (Inr \<lparr>RequeueAfter = 0\<rparr>, (demo_state demo_idporten)\<lparr>world := 1\<rparr>)"
  by (subst missing_resource_ignored [where e = "ApiNotFound ''x''" and w = 1])
    (simp_all add: demo_state_def demo_kube_def)


section \<open>Failures\<close>

text \<open>The message a user gets to see of an error: what DigDir said, or the whole chain.\<close>

definition shown_message :: "gerror \<Rightarrow> string" where
  "shown_message e = (case as_digdir_error e of Some (_, _, _, m) \<Rightarrow> m | None \<Rightarrow> error_text e)"

text \<open>The object that reports an error: the state of the synchronisation and the error condition.\<close>

definition failed_object :: "('w, 'c) lib \<Rightarrow> string \<Rightarrow> ('w, 'c) st \<Rightarrow> clientInstance" where
  "failed_object l m s = (inst s)\<lparr>inst_Status := fst (kube_SetCondition (kube l)
     (ErrorCondition ConditionTrue ConditionReasonFailed m (om_Generation (inst_Meta (inst s))))
     ((inst_Status (inst s))\<lparr>st_SynchronizationState := EventFailedSynchronization\<rparr>) (world s))\<rparr>"


text \<open>The counter of the kind of an instance.\<close>

abbreviation by_kind :: "clientInstance \<Rightarrow> counter \<Rightarrow> counter \<Rightarrow> counter" where
  "by_kind i a b \<equiv> (case inst_Spec i of IDPortenClient _ \<Rightarrow> a | MaskinportenClient _ \<Rightarrow> b)"

lemma bumped_cong: "counters s' = counters s \<Longrightarrow> bumped s' = bumped s"
  by (simp add: bumped_def fun_eq_iff)

lemma observeError_run:
  "\<exists>e. fst (observeError l err s) = write_result e \<and>
     counters (snd (observeError l err s)) = bumped s
       (by_kind (inst s) IDPortenClientsFailedProcessingCount MaskinportenClientsFailedProcessingCount) (om_Namespace (inst_Meta (inst s))) \<and>
     trace (snd (observeError l err s)) =
     trace s @ [EventRecorded EventTypeWarning EventFailedSynchronization (shown_message err),
                KubeStatusUpdate (failed_object l (shown_message err) s) e]"
proof -
  let ?m = "shown_message err"
  let ?c = "ErrorCondition ConditionTrue ConditionReasonFailed ?m (om_Generation (inst_Meta (inst s)))"
  let ?s1 = "s\<lparr>inst := (inst s)\<lparr>inst_Status := (inst_Status (inst s))\<lparr>st_SynchronizationState := EventFailedSynchronization\<rparr>\<rparr>,
     trace := trace s @ [EventRecorded EventTypeWarning EventFailedSynchronization ?m]\<rparr>"
  obtain st w where sc: "kube_SetCondition (kube l) ?c (inst_Status (inst ?s1)) (world s) = (st, w)"
    by (cases "kube_SetCondition (kube l) ?c (inst_Status (inst ?s1)) (world s)")
  let ?s2 = "s\<lparr>trace := trace s @ [EventRecorded EventTypeWarning EventFailedSynchronization ?m],
     world := w, inst := (inst s)\<lparr>inst_Status := st\<rparr>\<rparr>"
  let ?b = "bumped s (by_kind (inst s) IDPortenClientsFailedProcessingCount MaskinportenClientsFailedProcessingCount)
     (om_Namespace (inst_Meta (inst s)))"
  obtain s3 where s3: "tally IncClientsFailedProcessing ?s2 = (Inr (), s3)" "trace s3 = trace ?s2" "inst s3 = inst ?s2"
    "counters s3 = ?b"
    by (simp add: IncClientsFailedProcessing_def tally_by_kind bumped_cong [of ?s2 s])
  obtain e i w' where u: "kube_StatusUpdate (kube l) (inst s3) (world s3) = ((e, i), w')" by (metis prod.collapse)
  have "reportEvent EventTypeWarning EventFailedSynchronization ?m s = (Inr (), ?s1)"
    by (simp add: reportEvent_def modify_status_def emit_def bindE_def)
  moreover have "set_condition l ?c ?s1 = (Inr (), ?s2)"
    using sc by (simp add: set_condition_def bindE_the_inst bindE_call modify_status_def)
  ultimately have "observeError l err s = update_status l s3"
    unfolding observeError_def shown_message_def [symmetric] Let_def
    using s3(1) by (simp add: bindE_Inr bindE_the_inst)
  moreover have "inst s3 = failed_object l ?m s" using s3(3) sc by (simp add: failed_object_def)
  ultimately show ?thesis using u s3(2,4) by (intro exI [of _ e]) (simp add: update_status_def)
qed

text \<open>
  C5: a failure of \<open>process\<close> is reported and tried again: whatever the error, a warning event with
  its message is recorded, the counter of failures for the kind and the namespace of the resource is
  incremented, and no other counter, then the status with the state and the error condition set is
  written; the resource is looked at again after one second. Only an error of that write is returned.
\<close>

theorem failure_observed:
  assumes "sys_Now (sys l) (world s) = (now, w)"
    and "\<not> IsUpToDate now (inst s) \<or> HasRetryableStatusCondition l (st_Conditions (inst_Status (inst s)))"
    and "process l c (s\<lparr>world := w\<rparr>) = (Inl err, s1)" and "\<not> is_panic err"
    and "synchronize l c s = (r, s')"
  shows "\<exists>e. trace s' = trace s1 @ [EventRecorded EventTypeWarning EventFailedSynchronization (shown_message err),
      KubeStatusUpdate (failed_object l (shown_message err) s1) e] \<and>
    counters s' = bumped s1 (by_kind (inst s1) IDPortenClientsFailedProcessingCount MaskinportenClientsFailedProcessingCount)
      (om_Namespace (inst_Meta (inst s1))) \<and>
    r = (case e of None \<Rightarrow> Inr \<lparr>RequeueAfter = Second\<rparr> | Some x \<Rightarrow> Inl (wrapped ''observing error'' x))"
proof -
  obtain e where e: "fst (observeError l err s1) = write_result e"
    "counters (snd (observeError l err s1)) = bumped s1 (by_kind (inst s1) IDPortenClientsFailedProcessingCount
      MaskinportenClientsFailedProcessingCount) (om_Namespace (inst_Meta (inst s1)))"
    "trace (snd (observeError l err s1)) = trace s1 @ [EventRecorded EventTypeWarning EventFailedSynchronization (shown_message err),
      KubeStatusUpdate (failed_object l (shown_message err) s1) e]"
    using observeError_run by blast
  have "bindE (wrapE ''observing error'' (observeError l err)) (\<lambda>_. returnE \<lparr>RequeueAfter = Second\<rparr>) s1 = (r, s')"
    using assms by (auto simp: synchronize_run catchE_def)
  with e show ?thesis
    by (intro exI [of _ e]) (cases e; cases "observeError l err s1"; auto simp: bindE_def wrapE_run)
qed


lemma demo_token_denied:
  "\<exists>s'. getAuthToken (demo_lib (\<lambda>_. bad_response) regs i) demo_config s =
     (Inl (Err ''invalid status 400 Bad Request: unknown orgno''), s')"
  by (simp add: getAuthToken_def claims_def GenerateJwt_def authRequest_def bindE_def wrapE_run call_def
      call_err_def http_do_def demo_net_def demo_sys_def demo_codec_def bad_response_def demo_config_def
      demo_metadata_def returnE_def liftE_def failE_def)

lemma demo_request_denied:
  "\<exists>s'. request (demo_lib (\<lambda>_. bad_response) regs i) demo_config m ep p decode s =
     (Inl (Wrap ''get auth token'' (Err ''invalid status 400 Bad Request: unknown orgno'')), s')"
proof -
  let ?l = "demo_lib (\<lambda>_. bad_response) regs i"
  obtain s' where "attempt ?l demo_config m ep p decode s =
      (Inl (Wrap ''get auth token'' (Err ''invalid status 400 Bad Request: unknown orgno'')), s')"
    using demo_token_denied [of regs i s] by (auto simp: attempt_def bindE_def wrapE_run wrapped_def)
  then have "retry_loop (Suc n) (attempt ?l demo_config m ep p decode) s =
      (Inl (Wrap ''get auth token'' (Err ''invalid status 400 Bad Request: unknown orgno'')), s')" for n
    by simp
  from this [of 4] show ?thesis
    by (simp add: request_def Backoff_Do_def demo_net_def WithMaxAttempts_def retryMaxAttempts_def bindE_def)
qed

lemma demo_process_denied:
  "\<exists>s'. process (demo_lib (\<lambda>_. bad_response) [] demo_idporten) demo_config s =
     (Inl (Wrap ''getting client registration'' (Wrap ''get auth token''
        (Err ''invalid status 400 Bad Request: unknown orgno''))), s')"
proof -
  let ?l = "demo_lib (\<lambda>_. bad_response) [] demo_idporten"
  obtain s1 where "startProcessing ?l s = (Inr (), s1)"
    by (simp add: startProcessing_def demo_run update_status_def demo_kube_def)
  moreover obtain s2 where "GetRegistration ?l demo_config (cfg_ClusterName demo_config) s1 =
     (Inl (Wrap ''get auth token'' (Err ''invalid status 400 Bad Request: unknown orgno'')), s2)"
  proof -
    obtain ep where ep: "endpoint ?l demo_config [''clients''] s1 = (Inr ep, s1)"
      by (simp add: endpoint_def ApiV1URL_def demo_net_def demo_url_def has_suffix_def bindE_def liftE_def returnE_def)
    obtain s2 where rq: "request ?l demo_config MethodGet ep '''' (json_Clients (json ?l)) s1 =
       (Inl (Wrap ''get auth token'' (Err ''invalid status 400 Bad Request: unknown orgno'')), s2)"
      using demo_request_denied by blast
    show ?thesis
      by (rule that) (simp only: GetRegistration_def bindE_Inr [of "endpoint ?l demo_config [''clients'']", OF ep]
          bindE_Inl [of "request ?l demo_config MethodGet ep '''' (json_Clients (json ?l))", OF rq])
  qed
  ultimately show ?thesis
    by (simp add: process_def createOrUpdateClient_def bindE_def wrapE_run wrapped_def)
qed

theorem failure_observed_witness:
  "\<exists>s' t i. synchronize (demo_lib (\<lambda>_. bad_response) [] demo_idporten) demo_config (demo_state demo_idporten) =
      (Inr \<lparr>RequeueAfter = Second\<rparr>, s') \<and>
    trace s' = t @ [EventRecorded EventTypeWarning EventFailedSynchronization
      ''getting client registration: get auth token: invalid status 400 Bad Request: unknown orgno'',
      KubeStatusUpdate i None]"
proof -
  let ?l = "demo_lib (\<lambda>_. bad_response) [] demo_idporten"
  let ?s = "demo_state demo_idporten"
  let ?e = "Wrap ''getting client registration'' (Wrap ''get auth token'' (Err ''invalid status 400 Bad Request: unknown orgno''))"
  obtain r s' where run: "synchronize ?l demo_config ?s = (r, s')" by (cases "synchronize ?l demo_config ?s")
  obtain s1 where p: "process ?l demo_config (?s\<lparr>world := 1\<rparr>) = (Inl ?e, s1)" using demo_process_denied by blast
  have now: "sys_Now (sys ?l) (world ?s) = (0, 1)" by (simp add: demo_state_def demo_sys_def)
  have up: "\<not> IsUpToDate 0 (inst ?s) \<or> HasRetryableStatusCondition ?l (st_Conditions (inst_Status (inst ?s)))"
    by (simp add: demo_state_def demo_idporten_def demo_status_def IsUpToDate_def)
  have m: "shown_message ?e = ''getting client registration: get auth token: invalid status 400 Bad Request: unknown orgno''"
    by (simp add: shown_message_def)
  have "fst (observeError ?l ?e s1) = Inr ()"
    by (simp add: observeError_def demo_run demo_kube_def update_status_def IncClientsFailedProcessing_def inc_by_kind_def
        incWithNamespaceLabel_def add_counter_def split: clientSpec.split)
  then have r: "r = Inr \<lparr>RequeueAfter = Second\<rparr>"
    using run now up p by (cases "observeError ?l ?e s1") (auto simp: synchronize_run catchE_def bindE_def wrapE_run)
  from failure_observed [OF now up p _ run] m obtain e i where tr:
    "trace s' = trace s1 @ [EventRecorded EventTypeWarning EventFailedSynchronization
      ''getting client registration: get auth token: invalid status 400 Bad Request: unknown orgno'', KubeStatusUpdate i e]"
    "r = (case e of None \<Rightarrow> Inr \<lparr>RequeueAfter = Second\<rparr> | Some x \<Rightarrow> Inl (wrapped ''observing error'' x))"
    by auto
  with r have "e = None" by (cases e) simp_all
  with tr(1) run r show ?thesis by blast
qed


section \<open>What a successful run leaves behind\<close>

text \<open>
  The documented behaviour of the status helpers of liberator and apimachinery: setting a condition
  changes the conditions only, replaces the condition of its type and keeps the others; the
  synchronised state is a name and the time.
\<close>

definition status_contract :: "'w kubeLib \<Rightarrow> bool" where
  "status_contract k \<longleftrightarrow>
     (\<forall>cd st w. \<exists>cs. fst (kube_SetCondition k cd st w) = st\<lparr>st_Conditions := Some cs\<rparr> \<and>
        (\<forall>ty. kube_IsConditionTrue k cs ty \<longleftrightarrow>
           (if ty = cond_Type cd then cond_Status cd = ConditionTrue
            else \<exists>old. st_Conditions st = Some old \<and> kube_IsConditionTrue k old ty))) \<and>
     (\<forall>st w. \<exists>state t. fst (kube_SetStateSynchronized k st w) =
        st\<lparr>st_SynchronizationState := state, st_SynchronizationTime := Some t\<rparr>)"

text \<open>
  The documented behaviour of a successful write: the object is replaced by the stored one, whose
  annotations and specification are the ones written; a write of the status stores the status and
  changes neither the annotations nor the generation. A write of an object that has changed in the
  meantime fails.
\<close>

definition write_contract :: "'w kubeLib \<Rightarrow> bool" where
  "write_contract k \<longleftrightarrow>
     (\<forall>i w i' w'. kube_Update k i w = ((None, i'), w') \<longrightarrow>
        om_Annotations (inst_Meta i') = om_Annotations (inst_Meta i) \<and> inst_Spec i' = inst_Spec i) \<and>
     (\<forall>i w i' w'. kube_StatusUpdate k i w = ((None, i'), w') \<longrightarrow>
        om_Annotations (inst_Meta i') = om_Annotations (inst_Meta i) \<and>
        om_Generation (inst_Meta i') = om_Generation (inst_Meta i) \<and>
        inst_Spec i' = inst_Spec i \<and> inst_Status i' = inst_Status i)"

definition annotations_processed :: "clientInstance \<Rightarrow> bool" where
  "annotations_processed i \<longleftrightarrow> map_of (om_Annotations (inst_Meta i)) AnnotationResynchronize = None \<and>
     map_of (om_Annotations (inst_Meta i)) AnnotationRotate = None"

lemma removeAnnotations_Inr:
  assumes "write_contract (kube l)" and "removeAnnotations l s = (Inr (), s')"
  shows "annotations_processed (inst s')" and "inst_Spec (inst s') = inst_Spec (inst s)"
proof -
  let ?a = "om_Annotations (inst_Meta (inst s))"
  let ?f = "filter (\<lambda>(k, _). k \<noteq> AnnotationResynchronize \<and> k \<noteq> AnnotationRotate) ?a"
  have f: "map_of ?f AnnotationResynchronize = None" "map_of ?f AnnotationRotate = None"
    by (auto simp: map_of_eq_None_iff)
  have "annotations_processed (inst s') \<and> inst_Spec (inst s') = inst_Spec (inst s)"
  proof (cases "map_of ?a AnnotationResynchronize \<noteq> None \<or> map_of ?a AnnotationRotate \<noteq> None")
    case True
    let ?i = "(inst s)\<lparr>inst_Meta := (inst_Meta (inst s))\<lparr>om_Annotations := ?f\<rparr>\<rparr>"
    have "update_object l (s\<lparr>inst := ?i\<rparr>) = (Inr (), s')"
      using assms(2) True unfolding removeAnnotations_def Let_def bindE_the_inst
      by (simp add: set_inst_def bindE_def split: prod.splits)
    then obtain w where "kube_Update (kube l) ?i (world s) = ((None, inst s'), w)"
      by (auto simp: update_object_def split: prod.splits)
    with assms(1) f show ?thesis unfolding write_contract_def annotations_processed_def by fastforce
  next
    case False
    with assms(2) have "s' = s" unfolding removeAnnotations_def Let_def bindE_the_inst by simp
    with False show ?thesis by (simp add: annotations_processed_def)
  qed
  then show "annotations_processed (inst s')" and "inst_Spec (inst s') = inst_Spec (inst s)" by simp_all
qed

text \<open>The status that \<open>process\<close> writes at its end, of an object and a status before it.\<close>

definition synced_status :: "('w, 'c) lib \<Rightarrow> clientInstance \<Rightarrow> digdiratorStatus \<Rightarrow> digdiratorStatus \<Rightarrow> bool" where
  "synced_status l i st0 st \<longleftrightarrow>
     st_ClientID st = st_ClientID st0 \<and> st_KeyIDs st = st_KeyIDs st0 \<and>
     st_ObservedGeneration st = Some (om_Generation (inst_Meta i)) \<and>
     kube_Hash (kube l) i = Inr (st_SynchronizationHash st) \<and>
     st_SynchronizationSecretName st = GetSecretName i \<and>
     (\<exists>t. st_SynchronizationTime st = Some t) \<and>
     IsStatusConditionTrue l (st_Conditions st) ConditionTypeReady \<and>
     \<not> IsStatusConditionTrue l (st_Conditions st) ConditionTypeError \<and>
     (\<forall>ty. ty \<noteq> ConditionTypeReady \<longrightarrow> ty \<noteq> ConditionTypeError \<longrightarrow>
        IsStatusConditionTrue l (st_Conditions st) ty = IsStatusConditionTrue l (st_Conditions st0) ty)"


lemma SetCondition_effect:
  assumes "status_contract (kube l)" and "kube_SetCondition (kube l) cd st w = (st', w')"
  shows "\<exists>cs. st' = st\<lparr>st_Conditions := Some cs\<rparr>"
    and "IsStatusConditionTrue l (st_Conditions st') ty =
      (if ty = cond_Type cd then cond_Status cd = ConditionTrue else IsStatusConditionTrue l (st_Conditions st) ty)"
proof -
  obtain cs where cs: "st' = st\<lparr>st_Conditions := Some cs\<rparr>"
      "\<forall>ty. kube_IsConditionTrue (kube l) cs ty \<longleftrightarrow>
         (if ty = cond_Type cd then cond_Status cd = ConditionTrue
          else \<exists>old. st_Conditions st = Some old \<and> kube_IsConditionTrue (kube l) old ty)"
    using assms unfolding status_contract_def by (metis fst_conv)
  then show "\<exists>cs. st' = st\<lparr>st_Conditions := Some cs\<rparr>" by blast
  show "IsStatusConditionTrue l (st_Conditions st') ty =
      (if ty = cond_Type cd then cond_Status cd = ConditionTrue else IsStatusConditionTrue l (st_Conditions st) ty)"
    using cs by (auto simp: IsStatusConditionTrue_def split: option.split)
qed

text \<open>The status before it is written, as \<open>completeStatus\<close> computes it.\<close>

lemma completed_status:
  assumes "status_contract (kube l)" and "kube_Hash (kube l) i = Inr hash"
    and 2: "kube_SetStateSynchronized (kube l) (st0\<lparr>st_CorrelationID := rid, st_ObservedGeneration := Some (om_Generation (inst_Meta i)),
        st_SynchronizationHash := hash, st_SynchronizationSecretName := GetSecretName i\<rparr>) w1 = (st2, w2)"
    and 3: "kube_SetCondition (kube l) (ReadyCondition ConditionTrue ConditionReasonSynchronized m (om_Generation (inst_Meta i))) st2 w2 = (st3, w3)"
    and 4: "kube_SetCondition (kube l) (ErrorCondition ConditionFalse ConditionReasonSynchronized m' (om_Generation (inst_Meta i))) st3 w3 = (st4, w4)"
  shows "synced_status l i st0 st4"
proof -
  obtain state t where st2: "st2 = st0\<lparr>st_CorrelationID := rid, st_ObservedGeneration := Some (om_Generation (inst_Meta i)),
        st_SynchronizationHash := hash, st_SynchronizationSecretName := GetSecretName i,
        st_SynchronizationState := state, st_SynchronizationTime := Some t\<rparr>"
    using assms(1) 2 unfolding status_contract_def by (metis fst_conv)
  note c3 = SetCondition_effect [OF assms(1) 3] and c4 = SetCondition_effect [OF assms(1) 4]
  obtain cs cs' where st4: "st3 = st2\<lparr>st_Conditions := Some cs\<rparr>" "st4 = st3\<lparr>st_Conditions := Some cs'\<rparr>"
    using c3(1) c4(1) by blast
  have types: "ConditionTypeReady \<noteq> ConditionTypeError" "ConditionFalse \<noteq> ConditionTrue"
    by (simp_all add: ConditionTypeReady_def ConditionTypeError_def ConditionFalse_def ConditionTrue_def)
  have c: "st_Conditions st2 = st_Conditions st0" by (simp add: st2)
  have "IsStatusConditionTrue l (st_Conditions st4) ty =
      (ty \<noteq> ConditionTypeError \<and> (ty = ConditionTypeReady \<or> IsStatusConditionTrue l (st_Conditions st0) ty))" for ty
    unfolding c4(2) c3(2) c using types by (simp add: ReadyCondition_def ErrorCondition_def)
  then show ?thesis using assms(2) types unfolding synced_status_def by (simp add: st4 st2)
qed

lemma completeStatus_Inr:
  assumes "status_contract (kube l)" and "completeStatus l st0 s = (Inr (), s')"
  shows "\<exists>st w w'. synced_status l (inst s) st0 st \<and>
    trace s' = trace s @ [EventRecorded EventTypeNormal EventSynchronized ''Resource is up-to-date'',
      KubeStatusUpdate ((inst s)\<lparr>inst_Status := st\<rparr>) None] \<and>
    kube_StatusUpdate (kube l) ((inst s)\<lparr>inst_Status := st\<rparr>) w = ((None, inst s'), w')"
proof -
  let ?gen = "om_Generation (inst_Meta (inst s))"
  obtain hash where h: "kube_Hash (kube l) (inst s) = Inr hash"
    using assms(2) unfolding completeStatus_def bindE_the_inst by (auto elim!: bindE_InrE)
  let ?st1 = "st0\<lparr>st_CorrelationID := kube_ReconcileID (kube l) (world s), st_ObservedGeneration := Some ?gen,
    st_SynchronizationHash := hash, st_SynchronizationSecretName := GetSecretName (inst s)\<rparr>"
  let ?rc = "ReadyCondition ConditionTrue ConditionReasonSynchronized ''Resource is up-to-date with DigDir'' ?gen"
  let ?ec = "ErrorCondition ConditionFalse ConditionReasonSynchronized ''Processing completed without errors'' ?gen"
  obtain st2 w2 where 2: "kube_SetStateSynchronized (kube l) ?st1 (world s) = (st2, w2)"
    by (cases "kube_SetStateSynchronized (kube l) ?st1 (world s)")
  obtain st3 w3 where 3: "kube_SetCondition (kube l) ?rc st2 w2 = (st3, w3)" by (cases "kube_SetCondition (kube l) ?rc st2 w2")
  obtain st4 w4 where 4: "kube_SetCondition (kube l) ?ec st3 w3 = (st4, w4)" by (cases "kube_SetCondition (kube l) ?ec st3 w3")
  let ?t = "trace s @ [EventRecorded EventTypeNormal EventSynchronized ''Resource is up-to-date'']"
  have "update_status l (s\<lparr>world := w4, trace := ?t, inst := (inst s)\<lparr>inst_Status := st4\<rparr>\<rparr>) = (Inr (), s')"
    using assms(2) unfolding completeStatus_def Let_def bindE_the_inst
    by (simp add: h liftE_def bindE_def call_def 2 3 4 reportEvent_def modify_status_def emit_def wrapE_Inr_iff)
  then obtain w' where "kube_StatusUpdate (kube l) ((inst s)\<lparr>inst_Status := st4\<rparr>) w4 = ((None, inst s'), w')"
    "trace s' = ?t @ [KubeStatusUpdate ((inst s)\<lparr>inst_Status := st4\<rparr>) None]"
    by (auto simp: update_status_def split: prod.splits)
  with completed_status [OF assms(1) h 2 3 4] show ?thesis
    by (intro exI [of _ st4] exI [of _ w4] exI [of _ w']) simp
qed


lemma same_client_syncSecret:
  assumes "retry_contract (net l)"
  shows "keeps same_client (syncSecret l c cid)"
  unfolding syncSecret_def
  by (intro keeps_splits same_client.keeps_intros same_client.keeps_steps same_inst_client [OF same_inst_GetManaged]
      same_client_keys [OF assms] same_inst_client [OF same_inst_secrets(1)] same_inst_client [OF same_inst_secrets(2)])

lemma process_Inr:
  assumes "process l c s = (Inr (), s')"
  obtains reg s1 s2 s3 s4 where "startProcessing l s = (Inr (), s1)" and "createOrUpdateClient l c s1 = (Inr reg, s2)"
    and "syncSecret l c (cr_ClientID reg) (s2\<lparr>inst := (inst s2)\<lparr>inst_Status := (inst_Status (inst s2))\<lparr>st_ClientID := cr_ClientID reg\<rparr>\<rparr>\<rparr>) = (Inr (), s3)"
    and "removeAnnotations l s3 = (Inr (), s4)" and "completeStatus l (inst_Status (inst s3)) s4 = (Inr (), s')"
proof -
  let ?tail = "\<lambda>_::unit. bindE the_inst (\<lambda>i. bindE (removeAnnotations l) (\<lambda>_. completeStatus l (inst_Status i)))"
  let ?mid = "\<lambda>reg. bindE (set_client_id (cr_ClientID reg)) (\<lambda>_. bindE (syncSecret l c (cr_ClientID reg)) ?tail)"
  obtain u0 s1 where "startProcessing l s = (Inr u0, s1)" and 1: "bindE (createOrUpdateClient l c) ?mid s1 = (Inr (), s')"
    using assms unfolding process_def Let_def by (rule bindE_InrE)
  from 1 obtain reg s2 where 2: "createOrUpdateClient l c s1 = (Inr reg, s2)" and "?mid reg s2 = (Inr (), s')"
    by (rule bindE_InrE)
  then have "bindE (syncSecret l c (cr_ClientID reg)) ?tail
      (s2\<lparr>inst := (inst s2)\<lparr>inst_Status := (inst_Status (inst s2))\<lparr>st_ClientID := cr_ClientID reg\<rparr>\<rparr>\<rparr>) = (Inr (), s')"
    by (simp add: set_client_id_def modify_status_def bindE_Inr)
  then obtain u s3 where 3: "syncSecret l c (cr_ClientID reg)
      (s2\<lparr>inst := (inst s2)\<lparr>inst_Status := (inst_Status (inst s2))\<lparr>st_ClientID := cr_ClientID reg\<rparr>\<rparr>\<rparr>) = (Inr u, s3)"
    and "?tail u s3 = (Inr (), s')" by (rule bindE_InrE)
  then have "bindE (removeAnnotations l) (\<lambda>_. completeStatus l (inst_Status (inst s3))) s3 = (Inr (), s')"
    by (simp only: bindE_the_inst)
  then obtain v s4 where "removeAnnotations l s3 = (Inr v, s4)" "completeStatus l (inst_Status (inst s3)) s4 = (Inr (), s')"
    by (rule bindE_InrE)
  with \<open>startProcessing l s = (Inr u0, s1)\<close> 2 3 that show ?thesis by simp
qed

text \<open>The object that a successful run leaves: the annotations are gone and the status is complete.\<close>

lemma process_settled:
  assumes "retry_contract (net l)" and "status_contract (kube l)" and "write_contract (kube l)"
    and "process l c s = (Inr (), s')"
  obtains reg s1 s2 i st0 t where "startProcessing l s = (Inr (), s1)" and "createOrUpdateClient l c s1 = (Inr reg, s2)"
    and "trace s' = t @ [KubeStatusUpdate (i\<lparr>inst_Status := inst_Status (inst s')\<rparr>) None]"
    and "annotations_processed (inst s')" and "synced_status l i st0 (inst_Status (inst s'))"
    and "st_ClientID st0 = cr_ClientID reg" and "GetSecretName (inst s') = GetSecretName i"
    and "om_Generation (inst_Meta (inst s')) = om_Generation (inst_Meta i)"
proof -
  obtain reg s1 s2 s3 s4 where cr: "startProcessing l s = (Inr (), s1)" "createOrUpdateClient l c s1 = (Inr reg, s2)"
    and sy: "syncSecret l c (cr_ClientID reg) (s2\<lparr>inst := (inst s2)\<lparr>inst_Status := (inst_Status (inst s2))\<lparr>st_ClientID := cr_ClientID reg\<rparr>\<rparr>\<rparr>) = (Inr (), s3)"
    and rm: "removeAnnotations l s3 = (Inr (), s4)" and cs: "completeStatus l (inst_Status (inst s3)) s4 = (Inr (), s')"
    using assms(4) by (rule process_Inr)
  have cid: "st_ClientID (inst_Status (inst s3)) = cr_ClientID reg"
    using keepsD [OF same_client_syncSecret [OF assms(1)] sy] by (simp add: same_client_def)
  obtain st w w' where st: "synced_status l (inst s4) (inst_Status (inst s3)) st"
    and tr: "trace s' = trace s4 @ [EventRecorded EventTypeNormal EventSynchronized ''Resource is up-to-date'',
      KubeStatusUpdate ((inst s4)\<lparr>inst_Status := st\<rparr>) None]"
    and up: "kube_StatusUpdate (kube l) ((inst s4)\<lparr>inst_Status := st\<rparr>) w = ((None, inst s'), w')"
    using completeStatus_Inr [OF assms(2) cs] by blast
  have i: "om_Annotations (inst_Meta (inst s')) = om_Annotations (inst_Meta (inst s4))"
    "om_Generation (inst_Meta (inst s')) = om_Generation (inst_Meta (inst s4))"
    "inst_Spec (inst s') = inst_Spec (inst s4)" "inst_Status (inst s') = st"
    using assms(3) up unfolding write_contract_def by fastforce+
  have ann: "annotations_processed (inst s')"
    using removeAnnotations_Inr(1) [OF assms(3) rm] i(1) by (simp add: annotations_processed_def)
  show thesis
    by (rule that [OF cr, of "trace s4 @ [EventRecorded EventTypeNormal EventSynchronized ''Resource is up-to-date'']" "inst s4"
          "inst_Status (inst s3)"]) (use tr i st ann cid GetSecretName_cong [OF i(3)] in simp_all)
qed

lemma settled_up_to_date:
  assumes "annotations_processed i'" and "synced_status l i st0 (inst_Status i')"
    and "om_Generation (inst_Meta i') = om_Generation (inst_Meta i)" and "om_Generation (inst_Meta i') \<noteq> 0"
  shows "IsUpToDate now i' \<longleftrightarrow> \<not> isStale now (inst_Status i')"
  using assms by (simp add: IsUpToDate_def synced_status_def annotations_processed_def hasAnnotation_def)

lemma settled_retryable:
  assumes "synced_status l i st0 st"
  shows "HasRetryableStatusCondition l (st_Conditions st) \<longleftrightarrow>
    IsStatusConditionTrue l (st_Conditions st) ConditionTypeInvalidConsumedScopes"
  using assms by (auto simp: HasRetryableStatusCondition_iff synced_status_def IsStatusConditionTrue_def split: option.splits)

text \<open>
  C2: a successful run of \<open>process\<close> reaches a state in which there is nothing left to do. The last
  call wrote the status without an error; in the object it left, the generation is observed, the
  resync and rotate annotations are gone, the resource is ready and has no error condition, its
  secret needs no rotation, its client ID is the one of the registration found or created, and it
  is up to date as long as the time of synchronisation is not stale. The only reason left to try
  again early are consumed scopes that the organisation has no access to.
\<close>

theorem process_converges:
  assumes "retry_contract (net l)" and "status_contract (kube l)" and "write_contract (kube l)"
    and "process l c s = (Inr (), s')" and "om_Generation (inst_Meta (inst s')) \<noteq> 0"
  shows "\<exists>i t. trace s' = t @ [KubeStatusUpdate i None] \<and> inst_Status i = inst_Status (inst s') \<and>
    (\<exists>s1 s2 reg. startProcessing l s = (Inr (), s1) \<and> createOrUpdateClient l c s1 = (Inr reg, s2) \<and>
       st_ClientID (inst_Status (inst s')) = cr_ClientID reg) \<and>
    annotations_processed (inst s') \<and> \<not> NeedsSecretRotation (inst s') \<and>
    IsStatusConditionTrue l (st_Conditions (inst_Status (inst s'))) ConditionTypeReady \<and>
    (HasRetryableStatusCondition l (st_Conditions (inst_Status (inst s'))) \<longleftrightarrow>
       IsStatusConditionTrue l (st_Conditions (inst_Status (inst s'))) ConditionTypeInvalidConsumedScopes) \<and>
    (\<forall>now. IsUpToDate now (inst s') \<longleftrightarrow> \<not> isStale now (inst_Status (inst s')))"
proof -
  obtain reg s1 s2 i st0 t where cr: "startProcessing l s = (Inr (), s1)" "createOrUpdateClient l c s1 = (Inr reg, s2)"
    and tr: "trace s' = t @ [KubeStatusUpdate (i\<lparr>inst_Status := inst_Status (inst s')\<rparr>) None]"
    and ann: "annotations_processed (inst s')" and st: "synced_status l i st0 (inst_Status (inst s'))"
    and i: "st_ClientID st0 = cr_ClientID reg" "GetSecretName (inst s') = GetSecretName i"
      "om_Generation (inst_Meta (inst s')) = om_Generation (inst_Meta i)"
    using assms(1-4) by (rule process_settled)
  have "\<not> NeedsSecretRotation (inst s')"
    using ann st i(2) by (simp add: NeedsSecretRotation_def synced_status_def annotations_processed_def hasAnnotation_def)
  with tr ann cr i(1) settled_up_to_date [OF ann st i(3) assms(5)] settled_retryable [OF st] st show ?thesis
    unfolding synced_status_def
    by (intro exI [of _ "i\<lparr>inst_Status := inst_Status (inst s')\<rparr>"] exI [of _ t]) auto
qed


lemma demo_status_contract [simp]: "status_contract (demo_kube i)"
proof -
  have "\<exists>cs. demo_set_condition cd st = st\<lparr>st_Conditions := Some cs\<rparr> \<and>
      (\<forall>ty. list_ex (\<lambda>c. cond_Type c = ty \<and> cond_Status c = ''True'') cs \<longleftrightarrow>
         (if ty = cond_Type cd then cond_Status cd = ConditionTrue
          else \<exists>old. st_Conditions st = Some old \<and> list_ex (\<lambda>c. cond_Type c = ty \<and> cond_Status c = ''True'') old))" for cd st
    by (intro exI [of _ "filter (\<lambda>x. cond_Type x \<noteq> cond_Type cd) (case st_Conditions st of None \<Rightarrow> [] | Some cs \<Rightarrow> cs) @ [cd]"])
      (cases "st_Conditions st"; auto simp: demo_set_condition_def list_ex_iff ConditionTrue_def)
  then show ?thesis
    unfolding status_contract_def demo_kube_def kubeLib.simps fst_conv by (intro conjI allI) (assumption | blast)+
qed

lemma demo_write_contract [simp]: "write_contract (demo_kube i)"
  by (simp add: write_contract_def demo_kube_def)

theorem process_converges_witness:
  "\<exists>s'. process demo_all_ok demo_config (demo_state demo_idporten) = (Inr (), s') \<and>
     \<not> NeedsSecretRotation (inst s') \<and> (\<forall>now. IsUpToDate now (inst s') \<longleftrightarrow> \<not> isStale now (inst_Status (inst s')))"
proof -
  obtain r s' where run: "process demo_all_ok demo_config (demo_state demo_idporten) = (r, s')"
    by (cases "process demo_all_ok demo_config (demo_state demo_idporten)")
  have ok: "demo_ok (demo_state demo_idporten)" by (simp add: demo_ok_def demo_state_def demo_idporten_def)
  have r: "r = Inr ()" "demo_applied s'"
    using triple_Inr [OF demo_process ok] triple_Inl [OF demo_process ok] run by (cases r; auto)+
  then have "om_Generation (inst_Meta (inst s')) \<noteq> 0" by (simp add: demo_applied_def demo_ok_def demo_meta_def)
  from process_converges [OF _ _ _ run [unfolded r(1)] this] run r show ?thesis by auto
qed


section \<open>The outcome of a successful run\<close>

lemma processed_run: "processed l s =
   (let conditions = st_Conditions (inst_Status (inst s)); ns = om_Namespace (inst_Meta (inst s)) in
    if IsStatusConditionTrue l conditions ConditionTypeInvalidConsumedScopes
    then (Inr \<lparr>RequeueAfter = 1 * Hour\<rparr>, s\<lparr>counters := bumped s
      (by_kind (inst s) IDPortenClientsFailedInvalidConfigCount MaskinportenClientsFailedInvalidConfigCount) ns\<rparr>)
    else if IsStatusConditionTrue l conditions ConditionTypeInvalidExposedScopesConsumers then (Inr \<lparr>RequeueAfter = 0\<rparr>, s)
    else (Inr \<lparr>RequeueAfter = Second\<rparr>, s\<lparr>counters := bumped s
      (by_kind (inst s) IDPortenClientsProcessedCount MaskinportenClientsProcessedCount) ns\<rparr>))"
  unfolding processed_def bindE_the_inst Let_def IncClientsFailedInvalidConfig_def IncClientsProcessed_def
  by (simp add: bindE_Inr [OF tally_by_kind] returnE_def)

text \<open>
  C17: what follows a successful run of \<open>process\<close> is decided by the conditions it left, and a run that
  left no invalid consumed scope is followed by a reconcile that does nothing. With consumed scopes
  that the organisation has no access to, the resource counts as misconfigured and is looked at again
  after an hour; with consumers of an exposed scope that DigDir refused, nothing is counted and nothing
  scheduled; otherwise it counts as processed and is looked at again after a second. No other counter
  and nothing else of the state changes. When the next reconcile reads the object as the run left it,
  with a generation and before the synchronisation is stale, it makes no call and asks for another look
  after eight hours, unless consumed scopes were invalid.
\<close>

theorem success_outcome:
  assumes "retry_contract (net l)" and "status_contract (kube l)" and "write_contract (kube l)"
    and "sys_Now (sys l) (world s) = (now, w)" and "\<not> nothing_to_do l now (inst s)"
    and "process l c (s\<lparr>world := w\<rparr>) = (Inr (), s1)"
  shows "let conditions = st_Conditions (inst_Status (inst s1)); ns = om_Namespace (inst_Meta (inst s1));
      invalid = IsStatusConditionTrue l conditions ConditionTypeInvalidConsumedScopes;
      refused = IsStatusConditionTrue l conditions ConditionTypeInvalidExposedScopesConsumers in
    synchronize l c s =
      (if invalid then (Inr \<lparr>RequeueAfter = 1 * Hour\<rparr>, s1\<lparr>counters := bumped s1
         (by_kind (inst s1) IDPortenClientsFailedInvalidConfigCount MaskinportenClientsFailedInvalidConfigCount) ns\<rparr>)
       else if refused then (Inr \<lparr>RequeueAfter = 0\<rparr>, s1)
       else (Inr \<lparr>RequeueAfter = Second\<rparr>, s1\<lparr>counters := bumped s1
         (by_kind (inst s1) IDPortenClientsProcessedCount MaskinportenClientsProcessedCount) ns\<rparr>)) \<and>
    (\<forall>s2 now2 w2. inst s2 = inst s1 \<longrightarrow> om_Generation (inst_Meta (inst s2)) \<noteq> 0 \<longrightarrow> sys_Now (sys l) (world s2) = (now2, w2) \<longrightarrow>
       \<not> isStale now2 (inst_Status (inst s2)) \<longrightarrow> \<not> invalid \<longrightarrow>
       synchronize l c s2 = (Inr \<lparr>RequeueAfter = 8 * Hour\<rparr>, s2\<lparr>world := w2\<rparr>))"
proof -
  let ?invalid = "IsStatusConditionTrue l (st_Conditions (inst_Status (inst s1))) ConditionTypeInvalidConsumedScopes"
  have "synchronize l c s = processed l s1"
    using assms(4-6) by (simp add: synchronize_run nothing_to_do_iff catchE_def)
  moreover have "synchronize l c s2 = (Inr \<lparr>RequeueAfter = 8 * Hour\<rparr>, s2\<lparr>world := w2\<rparr>)"
    if "inst s2 = inst s1" "om_Generation (inst_Meta (inst s2)) \<noteq> 0" "sys_Now (sys l) (world s2) = (now2, w2)"
      "\<not> isStale now2 (inst_Status (inst s2))" "\<not> ?invalid" for s2 now2 w2
  proof -
    obtain i st0 where ann: "annotations_processed (inst s1)" and st: "synced_status l i st0 (inst_Status (inst s1))"
      and gen: "om_Generation (inst_Meta (inst s1)) = om_Generation (inst_Meta i)"
      using process_settled [OF assms(1-3,6)] by metis
    with that settled_up_to_date [OF ann st gen] settled_retryable [OF st] show ?thesis by (simp add: synchronize_run)
  qed
  ultimately show ?thesis unfolding Let_def processed_run by blast
qed

lemma demo_calm_conditions:
  assumes "demo_calm cs"
  shows "\<not> IsStatusConditionTrue (demo_lib r regs i) cs ConditionTypeInvalidConsumedScopes"
    and "\<not> IsStatusConditionTrue (demo_lib r regs i) cs ConditionTypeInvalidExposedScopesConsumers"
proof -
  have "False" if "cs = Some xs" "c \<in> set xs" "cond_Type c = ty" "ty \<noteq> ConditionTypeReady" "ty \<noteq> ConditionTypeError" for xs c ty
    using assms that by (auto simp: demo_calm_def list_all_iff)
  then have "\<not> IsStatusConditionTrue (demo_lib r regs i) cs ty" if "ty \<noteq> ConditionTypeReady" "ty \<noteq> ConditionTypeError" for ty
    using that by (auto simp: IsStatusConditionTrue_def demo_kube_def list_ex_iff split: option.split)
  then show "\<not> IsStatusConditionTrue (demo_lib r regs i) cs ConditionTypeInvalidConsumedScopes"
    and "\<not> IsStatusConditionTrue (demo_lib r regs i) cs ConditionTypeInvalidExposedScopesConsumers"
    by (simp_all add: condition_type_defs)
qed

lemma demo_process_time:
  assumes "process demo_all_ok demo_config s = (Inr (), s')"
  shows "\<exists>n. st_SynchronizationTime (inst_Status (inst s')) = Some (int n)"
  using assms by (rule process_Inr) (auto simp: completeStatus_def demo_kube_run demo_set_condition_def)

theorem success_outcome_witness:
  "\<exists>s1. process demo_all_ok demo_config ((demo_state demo_idporten)\<lparr>world := 1\<rparr>) = (Inr (), s1) \<and>
     synchronize demo_all_ok demo_config (demo_state demo_idporten) =
       (Inr \<lparr>RequeueAfter = Second\<rparr>, s1\<lparr>counters := bumped s1 IDPortenClientsProcessedCount ''ns''\<rparr>) \<and>
     synchronize demo_all_ok demo_config (s1\<lparr>world := 0\<rparr>) = (Inr \<lparr>RequeueAfter = 8 * Hour\<rparr>, s1\<lparr>world := 1\<rparr>)"
proof -
  let ?s = "demo_state demo_idporten"
  obtain r s1 where run: "process demo_all_ok demo_config (?s\<lparr>world := 1\<rparr>) = (r, s1)"
    by (cases "process demo_all_ok demo_config (?s\<lparr>world := 1\<rparr>)")
  have ok: "demo_ok (?s\<lparr>world := 1\<rparr>)" by (simp add: demo_ok_def demo_state_def demo_idporten_def)
  have r: "r = Inr ()" "demo_applied s1"
    using triple_Inr [OF demo_process ok] triple_Inl [OF demo_process ok] run by (cases r; auto)+
  then have i: "demo_calm (st_Conditions (inst_Status (inst s1)))" "inst_Meta (inst s1) = demo_meta"
    "inst_Spec (inst s1) = inst_Spec demo_idporten"
    by (simp_all add: demo_applied_def demo_ok_def)
  have kind: "by_kind (inst s1) a b = a" for a b by (simp add: i(3) demo_idporten_def)
  have ns: "om_Namespace (inst_Meta (inst s1)) = ''ns''" "om_Generation (inst_Meta (inst s1)) \<noteq> 0"
    by (simp_all add: i(2) demo_meta_def)
  have now: "sys_Now (sys demo_all_ok) (world ?s) = (0, 1)" "sys_Now (sys demo_all_ok) (world (s1\<lparr>world := 0\<rparr>)) = (0, 1)"
    by (simp_all add: demo_state_def demo_sys_def)
  have work: "\<not> nothing_to_do demo_all_ok 0 (inst ?s)"
    by (simp add: demo_state_def demo_idporten_def demo_status_def nothing_to_do_def)
  have fresh: "\<not> isStale 0 (inst_Status (inst (s1\<lparr>world := 0\<rparr>)))"
    using demo_process_time [OF run [unfolded r(1)]] by (auto simp: isStale_iff StaleSyncThresholdDuration_def duration_defs)
  note out = success_outcome [OF _ _ _ now(1) work run [unfolded r(1)], simplified Let_def]
  have "synchronize demo_all_ok demo_config ?s =
       (Inr \<lparr>RequeueAfter = Second\<rparr>, s1\<lparr>counters := bumped s1 IDPortenClientsProcessedCount ''ns''\<rparr>)"
    using out demo_calm_conditions [OF i(1)] kind ns(1) by simp
  moreover have "synchronize demo_all_ok demo_config (s1\<lparr>world := 0\<rparr>) = (Inr \<lparr>RequeueAfter = 8 * Hour\<rparr>, s1\<lparr>world := 1\<rparr>)"
    using out demo_calm_conditions(1) [OF i(1)] ns(2) now(2) fresh by simp
  ultimately show ?thesis using run r(1) by blast
qed


section \<open>The finalizer comes first\<close>

lemma ensureFinalizer_absent:
  assumes "\<not> kube_ContainsFinalizer (kube l) (inst s) FinalizerName"
  shows "\<exists>e s'. ensureFinalizer l s = (case e of None \<Rightarrow> Inr () | Some x \<Rightarrow> Inl (wrapped ''registering finalizer'' x), s') \<and>
    trace s' = trace s @ [KubeUpdate (kube_AddFinalizer (kube l) FinalizerName (inst s)) e]"
proof -
  let ?i = "kube_AddFinalizer (kube l) FinalizerName (inst s)"
  obtain e i w where "kube_Update (kube l) ?i (world s) = ((e, i), w)" by (metis prod.collapse)
  then have "ensureFinalizer l s = (case e of None \<Rightarrow> Inr () | Some x \<Rightarrow> Inl (wrapped ''registering finalizer'' x),
      s\<lparr>inst := i, world := w, trace := trace s @ [KubeUpdate ?i e]\<rparr>)"
    using assms by (cases e) (simp_all add: ensureFinalizer_def the_inst_def set_inst_def bindE_def wrapE_run update_object_def)
  then show ?thesis by auto
qed


text \<open>
  C4: the finalizer is registered before anything else is done for a resource: when it is missing,
  the first call that leaves the process writes the object with the finalizer, and every further
  call follows a successful write. So whatever exists in DigDir for a resource is cleaned up when
  the resource is deleted.
\<close>

theorem finalizer_registered_first:
  assumes "retry_contract (net l)" and "kube_Get (kube l) kind req (world s) = (Inr i, w)"
    and "\<not> markedForDeletion i" and "\<not> kube_ContainsFinalizer (kube l) i FinalizerName"
    and "Reconcile l c kind req s = (r, s')"
  shows "\<exists>e t. trace s' = trace s @ KubeUpdate (kube_AddFinalizer (kube l) FinalizerName i) e # t \<and>
    (e \<noteq> None \<longrightarrow> t = [] \<and> (\<exists>x. r = Inl x))"
proof -
  let ?s = "s\<lparr>world := w, inst := i\<rparr>"
  have run: "bindE (ensureFinalizer l) (\<lambda>_. synchronize l c) ?s = (r, s')"
    using assms(2,3,5) by (simp add: Reconcile_def catchE_def prepare_run bindE_the_inst)
  obtain e s1 where f: "ensureFinalizer l ?s = (case e of None \<Rightarrow> Inr () | Some x \<Rightarrow> Inl (wrapped ''registering finalizer'' x), s1)"
    and t: "trace s1 = trace s @ [KubeUpdate (kube_AddFinalizer (kube l) FinalizerName i) e]"
    using ensureFinalizer_absent [of l ?s] assms(4) by auto
  show ?thesis
  proof (cases e)
    case None
    with run f have "synchronize l c s1 = (r, s')" by (simp add: bindE_Inr)
    from keepsD [OF log_grows.keeps_synchronize [OF assms(1)] this] obtain t' where "trace s' = trace s1 @ t'"
      by (auto simp: log_grows_def)
    with t None show ?thesis by (intro exI [of _ e] exI [of _ t']) simp
  next
    case (Some x)
    with run f have "s' = s1" "r = Inl (wrapped ''registering finalizer'' x)" by (simp_all add: bindE_Inl)
    with t Some show ?thesis by (intro exI [of _ e] exI [of _ "[]"]) simp
  qed
qed

theorem finalizer_registered_first_witness:
  "\<exists>s' t e. snd (Reconcile demo_all_ok demo_config KindIDPorten \<lparr>nn_Namespace = ''ns'', nn_Name = ''app''\<rparr> (demo_state demo_idporten)) = s' \<and>
     trace s' = KubeUpdate (demo_idporten\<lparr>inst_Meta := demo_meta\<lparr>om_Finalizers := [FinalizerName]\<rparr>\<rparr>) e # t"
proof -
  let ?req = "\<lparr>nn_Namespace = ''ns'', nn_Name = ''app''\<rparr>"
  obtain r s' where run: "Reconcile demo_all_ok demo_config KindIDPorten ?req (demo_state demo_idporten) = (r, s')"
    by (cases "Reconcile demo_all_ok demo_config KindIDPorten ?req (demo_state demo_idporten)")
  have get: "kube_Get (kube demo_all_ok) KindIDPorten ?req (world (demo_state demo_idporten)) = (Inr demo_idporten, 0)"
    by (simp add: demo_kube_def demo_state_def)
  have "\<not> markedForDeletion demo_idporten" "\<not> kube_ContainsFinalizer (kube demo_all_ok) demo_idporten FinalizerName"
    by (simp_all add: markedForDeletion_def demo_idporten_def demo_meta_def demo_kube_def)
  from finalizer_registered_first [OF _ get this run] run show ?thesis
    by (auto simp: demo_state_def demo_kube_def demo_idporten_def demo_meta_def)
qed


section \<open>The key across reconciles\<close>

lemma newestSecret_strict:
  assumes "stored \<in> set ss" and "zeroTime < sec_CreationTimestamp stored"
    and "\<And>sc. sc \<in> set ss \<Longrightarrow> sc \<noteq> stored \<Longrightarrow> sec_CreationTimestamp sc < sec_CreationTimestamp stored"
  shows "newestSecret ss = stored"
proof (rule ccontr)
  assume "newestSecret ss \<noteq> stored"
  then have "sec_CreationTimestamp (newestSecret ss) < sec_CreationTimestamp stored"
    using newestSecret_mem [of ss] assms(2,3) by (auto simp: zeroSecret_def)
  with newestSecret_max [OF assms(1)] show False by simp
qed

text \<open>
  C8: the key that a reconcile stores is the key that the next one finds. A successful
  \<open>CreateOrUpdate\<close> applied one secret. When a managed secret, in use or not, holds the data of that
  secret and was created after all the other managed ones, and the JSON form of the key reads back as
  the key, \<open>GetPreviousJwkFromSecret\<close> selects that secret and returns the key, so credentials change
  only when they are rotated.
\<close>

theorem stored_key_read_back:
  assumes "CreateOrUpdate l c name jwk s = (Inr (), s')"
    and "\<And>j. sys_MarshalJwk (sys l) jwk = Inr j \<Longrightarrow> sys_UnmarshalJwk (sys l) j = Inr jwk"
  shows "\<exists>sc res. trace s' = trace s @ [SecretApplied sc (Inr res)] \<and>
    (\<forall>ms stored. stored \<in> set (sl_Used ms @ sl_Unused ms) \<longrightarrow> sec_Data stored = sec_Data sc \<longrightarrow>
       zeroTime < sec_CreationTimestamp stored \<longrightarrow>
       (\<forall>other \<in> set (sl_Used ms @ sl_Unused ms). other \<noteq> stored \<longrightarrow>
          sec_CreationTimestamp other < sec_CreationTimestamp stored) \<longrightarrow>
       GetPreviousJwkFromSecret (sys_UnmarshalJwk (sys l)) ms (GetSecretJwkKey (inst s)) = Inr jwk)"
proof -
  obtain sc res where sc: "trace s' = trace s @ [SecretApplied sc (Inr res)]" "holds_key l (inst s) name jwk sc"
    using CreateOrUpdate_run [OF assms(1)] by auto
  from sc(2) obtain j where j: "sys_MarshalJwk (sys l) jwk = Inr j" "map_of (sec_Data sc) (GetSecretJwkKey (inst s)) = Some j"
    unfolding holds_key_def by blast
  have "GetPreviousJwkFromSecret (sys_UnmarshalJwk (sys l)) ms (GetSecretJwkKey (inst s)) = Inr jwk"
    if "newestSecret (sl_Used ms @ sl_Unused ms) = stored" "sec_Data stored = sec_Data sc" for ms stored
    using that j assms(2) by (simp add: GetPreviousJwkFromSecret_def getJWKFromSecret_def)
  with sc(1) newestSecret_strict show ?thesis by blast
qed

text \<open>The secret of the key, in use, beside an older one that is not.\<close>

definition demo_managed :: "(string \<times> string) list \<Rightarrow> secretLists" where
  "demo_managed d = \<lparr>sl_Used = [zeroSecret\<lparr>sec_Name := ''new'', sec_CreationTimestamp := zeroTime + 2, sec_Data := d\<rparr>],
     sl_Unused = [zeroSecret\<lparr>sec_Name := ''old'', sec_CreationTimestamp := zeroTime + 1\<rparr>]\<rparr>"

theorem stored_key_read_back_witness:
  "\<exists>s' sc res. CreateOrUpdate demo_all_ok demo_config ''sec'' \<lparr>jwk_Key = RSAPrivate 7, jwk_KeyID = ''jwk'', jwk_Use = KeyUseSignature,
       jwk_Algorithm = KeyAlgorithm\<rparr> (demo_state demo_idporten) = (Inr (), s') \<and>
     trace s' = [SecretApplied sc (Inr res)] \<and>
     GetPreviousJwkFromSecret sample_unmarshal (demo_managed (sec_Data sc)) IDPortenJwkKey =
       Inr \<lparr>jwk_Key = RSAPrivate 7, jwk_KeyID = ''jwk'', jwk_Use = KeyUseSignature, jwk_Algorithm = KeyAlgorithm\<rparr>"
proof -
  let ?jwk = "\<lparr>jwk_Key = RSAPrivate 7, jwk_KeyID = ''jwk'', jwk_Use = KeyUseSignature, jwk_Algorithm = KeyAlgorithm\<rparr>"
  let ?s = "demo_state demo_idporten"
  have "demo_ok ?s" by (simp add: demo_ok_def demo_state_def demo_idporten_def)
  note fails = triple_Inl [OF demo_CreateOrUpdate [of "''sec''" ?jwk] this]
  obtain r s' where "CreateOrUpdate demo_all_ok demo_config ''sec'' ?jwk ?s = (r, s')"
    by (cases "CreateOrUpdate demo_all_ok demo_config ''sec'' ?jwk ?s")
  with fails have run: "CreateOrUpdate demo_all_ok demo_config ''sec'' ?jwk ?s = (Inr (), s')"
    by (cases r) simp_all
  have codec: "sys_UnmarshalJwk (sys demo_all_ok) j = Inr ?jwk" if "sys_MarshalJwk (sys demo_all_ok) ?jwk = Inr j" for j
    using that by (auto simp: demo_sys_def sample_unmarshal_def)
  have s: "trace ?s = []" "GetSecretJwkKey (inst ?s) = IDPortenJwkKey" "sys_UnmarshalJwk (sys demo_all_ok) = sample_unmarshal"
    by (simp_all add: demo_state_def demo_idporten_def GetSecretJwkKey_def demo_sys_def)
  obtain sc res where tr: "trace s' = [SecretApplied sc (Inr res)]"
    and found: "\<And>ms stored. stored \<in> set (sl_Used ms @ sl_Unused ms) \<Longrightarrow> sec_Data stored = sec_Data sc \<Longrightarrow>
       zeroTime < sec_CreationTimestamp stored \<Longrightarrow>
       (\<forall>other \<in> set (sl_Used ms @ sl_Unused ms). other \<noteq> stored \<longrightarrow>
          sec_CreationTimestamp other < sec_CreationTimestamp stored) \<Longrightarrow>
       GetPreviousJwkFromSecret sample_unmarshal ms IDPortenJwkKey = Inr ?jwk"
    using stored_key_read_back [OF run codec] unfolding s append_Nil by blast
  have "GetPreviousJwkFromSecret sample_unmarshal (demo_managed (sec_Data sc)) IDPortenJwkKey = Inr ?jwk"
    by (rule found [of "hd (sl_Used (demo_managed (sec_Data sc)))"]) (simp_all add: demo_managed_def)
  with run tr show ?thesis by blast
qed

end
