(* ===== verification/Registration.thy ===== *)
theory Registration
  imports Lifecycle "HOL-Library.Sublist" "HOL-Library.Multiset"
begin

text \<open>
  The registration of a client, as \<open>createOrUpdateClient\<close> and \<open>filterConsumedScopes\<close> of
  \<open>controllers/common/reconciler.go\<close> leave it: which scopes the client asks for, and which call of
  DigDir's API created or updated it.
\<close>

section \<open>Consumed scopes\<close>

text \<open>Both listings of scopes were answered, and together they grant access to the scope.\<close>

definition scope_seen :: "('w, 'c) lib \<Rightarrow> config \<Rightarrow> effect list \<Rightarrow> string \<Rightarrow> bool" where
  "scope_seen l c t name \<longleftrightarrow> (\<exists>accs regs t1 e1 t2 e2 t3. t = t1 @ [e1] @ t2 @ [e2] @ t3 \<and>
     answered l c MethodGet [''scopes'', ''access'', ''all''] '''' '''' (json_Access (json l)) accs e1 \<and>
     answered l c MethodGet [''scopes'', ''all''] ''?accessible_for_all=true'' '''' (json_Scopes (json l)) regs e2 \<and>
     listed accs regs name = Some True)"

lemma scope_seenI:
  assumes "t = t1 @ [e1] @ t2 @ [e2] @ t3"
    and "answered l c MethodGet [''scopes'', ''access'', ''all''] '''' '''' (json_Access (json l)) accs e1"
    and "answered l c MethodGet [''scopes'', ''all''] ''?accessible_for_all=true'' '''' (json_Scopes (json l)) regs e2"
    and "listed accs regs name = Some True"
  shows "scope_seen l c t name"
  unfolding scope_seen_def using assms
  by (intro exI [of _ accs] exI [of _ regs] exI [of _ t1] exI [of _ e1] exI [of _ t2] exI [of _ e2] exI [of _ t3] conjI)

lemma scope_seen_append: "scope_seen l c t name \<Longrightarrow> scope_seen l c (t' @ t @ t'') name"
proof -
  assume "scope_seen l c t name"
  then obtain accs regs t1 e1 t2 e2 t3 where s: "t = t1 @ [e1] @ t2 @ [e2] @ t3"
     "answered l c MethodGet [''scopes'', ''access'', ''all''] '''' '''' (json_Access (json l)) accs e1"
     "answered l c MethodGet [''scopes'', ''all''] ''?accessible_for_all=true'' '''' (json_Scopes (json l)) regs e2"
     "listed accs regs name = Some True" unfolding scope_seen_def by (elim exE conjE)
  have "t' @ t @ t'' = (t' @ t1) @ [e1] @ t2 @ [e2] @ (t3 @ t'')" using s(1) by simp
  then show ?thesis using s(2-4) by (rule scope_seenI)
qed

lemma CanAccessScope_seen:
  assumes "retry_contract (net l)" and "cache_contract (net l) entries"
    and "CanAccessScope l c name s = (Inr b, s')"
  shows "\<exists>t. trace s' = trace s @ t \<and>
    (b \<longrightarrow> entries (scopeCache s) name = Some True \<or> scope_seen l c t name) \<and>
    (\<forall>k. entries (scopeCache s') k = Some True \<longrightarrow> entries (scopeCache s) k = Some True \<or> scope_seen l c t k)"
  using CanAccessScope_Inr [OF assms]
proof (elim disjE exE conjE, goal_cases)
  case 1
  then show ?case by (intro exI [of _ "[]"]) auto
next
  case (2 accs regs t1 e1 t2 e2)
  have "scope_seen l c (t1 @ [e1] @ t2 @ [e2]) k" if "listed accs regs k = Some True" for k
    using 2(2,3) that by (intro scope_seenI [where ?t3.0 = "[]"]) simp_all
  with 2 show ?case by (intro exI [of _ "t1 @ [e1] @ t2 @ [e2]"]) blast
qed

lemma checkConsumedScopes_Inr:
  assumes "retry_contract (net l)" and "cache_contract (net l) entries"
    and "foldE (checkConsumedScope l c) acc xs s = (Inr res, s')"
  shows "\<exists>t v w. trace s' = trace s @ t \<and> res = (fst acc @ v, snd acc @ w) \<and> subseq v xs \<and> mset v + mset w = mset xs \<and>
    (\<forall>x \<in> set v. entries (scopeCache s) x = Some True \<or> scope_seen l c t x)"
  using assms(3)
proof (induction xs arbitrary: acc s)
  case Nil
  then show ?case by (intro exI [of _ "[]"]) (simp add: returnE_def)
next
  case (Cons y xs)
  then obtain acc1 s1 where y: "checkConsumedScope l c acc y s = (Inr acc1, s1)"
    and r: "foldE (checkConsumedScope l c) acc1 xs s1 = (Inr res, s')" by (auto elim!: bindE_InrE)
  from y obtain b where b: "CanAccessScope l c y s = (Inr b, s1)"
    and acc1: "acc1 = (if b then (fst acc @ [y], snd acc) else (fst acc, snd acc @ [y]))"
    unfolding checkConsumedScope_def by (auto simp: returnE_def elim!: bindE_InrE)
  obtain t0 where t0: "trace s1 = trace s @ t0" "b \<longrightarrow> entries (scopeCache s) y = Some True \<or> scope_seen l c t0 y"
    "\<forall>k. entries (scopeCache s1) k = Some True \<longrightarrow> entries (scopeCache s) k = Some True \<or> scope_seen l c t0 k"
    using CanAccessScope_seen [OF assms(1,2) b] by blast
  obtain t v w where t: "trace s' = trace s1 @ t" "res = (fst acc1 @ v, snd acc1 @ w)" "subseq v xs" "mset v + mset w = mset xs"
    "\<forall>x \<in> set v. entries (scopeCache s1) x = Some True \<or> scope_seen l c t x"
    using Cons.IH [OF r] by blast
  have seen: "scope_seen l c (t0 @ t) k" if "scope_seen l c t0 k \<or> scope_seen l c t k" for k
    using that scope_seen_append [of l c t0 k "[]" t] scope_seen_append [of l c t k t0 "[]"] by auto
  show ?case
    using t t0 seen acc1
    by (intro exI [of _ "t0 @ t"] exI [of _ "if b then y # v else v"] exI [of _ "if b then w else y # w"])
      (cases b; auto)
qed

text \<open>
  C7: a client asks only for scopes that its organisation has been shown to have access to. The
  scopes that \<open>filterConsumedScopes\<close> passes on are some of the desired ones (the default scope when the
  resource names none), in their order; for each the cache said so before, or both listings of scopes
  were answered in this call and grant it. The scopes left out are exactly the others, and the
  condition for invalid consumed scopes holds afterwards exactly when there is one.
\<close>

theorem filter_consumed_scopes_sound:
  assumes "retry_contract (net l)" and "cache_contract (net l) entries" and "status_contract (kube l)"
    and "filterConsumedScopes l c sp s = (Inr valid, s')"
    and "desired = (if ms_ConsumedScopes sp = [] then [mp_DefaultClientScope (cfg_Maskinporten c)] else ms_ConsumedScopes sp)"
  shows "\<exists>t invalid. trace s' = trace s @ t \<and> subseq valid desired \<and> mset valid + mset invalid = mset desired \<and>
    (\<forall>x \<in> set valid. entries (scopeCache s) x = Some True \<or> scope_seen l c t x) \<and>
    (IsStatusConditionTrue l (st_Conditions (inst_Status (inst s'))) ConditionTypeInvalidConsumedScopes \<longleftrightarrow> invalid \<noteq> [])"
proof -
  let ?k = "\<lambda>(v, w). bindE the_inst (\<lambda>i.
      bindE (if length w > 0
             then set_condition l (InvalidConsumedScopesCondition ConditionTrue ConditionReasonFailed
                    (''Organization has no access to scopes: ['' @ join '', '' w @ '']'') (om_Generation (inst_Meta i)))
             else set_condition l (InvalidConsumedScopesCondition ConditionFalse ConditionReasonValidated
                    ''Organization has access to all consumed scopes'' (om_Generation (inst_Meta i)))) (\<lambda>_. returnE v))"
  have "bindE (foldE (checkConsumedScope l c) ([], []) desired) ?k s = (Inr valid, s')"
    using assms(4) unfolding filterConsumedScopes_def Let_def assms(5) length_0_conv .
  then obtain p s1 where p: "foldE (checkConsumedScope l c) ([], []) desired s = (Inr p, s1)" "?k p s1 = (Inr valid, s')"
    by (rule bindE_InrE)
  obtain v w where vw: "p = (v, w)" by (cases p)
  note f = p(1) [unfolded vw] and k = p(2) [unfolded vw]
  let ?cd = "if w \<noteq> [] then InvalidConsumedScopesCondition ConditionTrue ConditionReasonFailed
        (''Organization has no access to scopes: ['' @ join '', '' w @ '']'') (om_Generation (inst_Meta (inst s1)))
      else InvalidConsumedScopesCondition ConditionFalse ConditionReasonValidated
        ''Organization has access to all consumed scopes'' (om_Generation (inst_Meta (inst s1)))"
  have set0: "bindE (set_condition l ?cd) (\<lambda>_. returnE v) s1 = (Inr valid, s')"
    using k by (cases "w = []") (simp_all add: bindE_the_inst)
  have cd1: "cond_Type ?cd = ConditionTypeInvalidConsumedScopes" by (simp add: InvalidConsumedScopesCondition_def)
  have cd2: "cond_Status ?cd = ConditionTrue \<longleftrightarrow> w \<noteq> []"
    by (simp add: InvalidConsumedScopesCondition_def ConditionTrue_def ConditionFalse_def)
  obtain cd where cd: "cond_Type cd = ConditionTypeInvalidConsumedScopes" "cond_Status cd = ConditionTrue \<longleftrightarrow> w \<noteq> []"
    and set: "bindE (set_condition l cd) (\<lambda>_. returnE v) s1 = (Inr valid, s')"
    by (rule that [OF cd1 cd2 set0])
  obtain st wo where st: "kube_SetCondition (kube l) cd (inst_Status (inst s1)) (world s1) = (st, wo)"
    by (cases "kube_SetCondition (kube l) cd (inst_Status (inst s1)) (world s1)")
  with set have s': "valid = v" "inst_Status (inst s') = st" "trace s' = trace s1"
    by (auto simp: set_condition_def bindE_def step_defs returnE_def)
  show ?thesis
    using checkConsumedScopes_Inr [OF assms(1,2) f] s' cd SetCondition_effect(2) [OF assms(3) st, of ConditionTypeInvalidConsumedScopes]
    by auto
qed


definition demo_cache :: "(nat, (string \<times> bool) list) st \<Rightarrow> bool" where
  "demo_cache s \<longleftrightarrow> (\<forall>k b. map_of (scopeCache s) k = Some b \<longrightarrow> b = (k = ''a''))"

lemma demo_can_access:
  "demo_cache s \<Longrightarrow> \<exists>s'. CanAccessScope (demo_lib (\<lambda>_. ok_response) regs i) demo_config name s = (Inr (name = ''a''), s') \<and> demo_cache s'"
  by (cases "map_of (scopeCache s) name")
    (simp_all add: demo_cache_def CanAccessScope_def GetAccessibleScopes_def GetOpenScopes_def endpoint_def ApiV1URL_def
      demo_net_def demo_url_def has_suffix_def demo_request_all_ok demo_codec_def bindE_def returnE_def liftE_def
      wrapE_run cache_get_def cache_set_def call_def demo_sys_def demo_scope_def zeroScopeRegistration_def
      IsAccessible_def ScopeAccessApproved_def, blast)

lemma demo_filter_scopes:
  "\<exists>s'. filterConsumedScopes (demo_lib (\<lambda>_. ok_response) regs i) demo_config
     \<lparr>ms_ClientName = '''', ms_SecretName = ''sec'', ms_ConsumedScopes = [''a'', ''b''], ms_ExposedScopes = []\<rparr> (demo_state j) = (Inr [''a''], s')"
proof -
  let ?l = "demo_lib (\<lambda>_. ok_response) regs i"
  have "demo_cache (demo_state j)" by (simp add: demo_cache_def demo_state_def)
  then obtain s1 where 1: "CanAccessScope ?l demo_config ''a'' (demo_state j) = (Inr True, s1)" "demo_cache s1"
    using demo_can_access [of _ regs i "''a''"] by fastforce
  then obtain s2 where 2: "CanAccessScope ?l demo_config ''b'' s1 = (Inr False, s2)"
    using demo_can_access [of s1 regs i "''b''"] by fastforce
  show ?thesis
    by (simp add: filterConsumedScopes_def checkConsumedScope_def bindE_def 1 2 set_condition_def demo_kube_def step_defs)
qed

theorem filter_consumed_scopes_sound_witness:
  "\<exists>s' t. filterConsumedScopes (demo_lib (\<lambda>_. ok_response) [] demo_maskinporten) demo_config
       \<lparr>ms_ClientName = '''', ms_SecretName = ''sec'', ms_ConsumedScopes = [''a'', ''b''], ms_ExposedScopes = []\<rparr>
       (demo_state demo_maskinporten) = (Inr [''a''], s') \<and>
     trace s' = t \<and> scope_seen (demo_lib (\<lambda>_. ok_response) [] demo_maskinporten) demo_config t ''a'' \<and>
     IsStatusConditionTrue (demo_lib (\<lambda>_. ok_response) [] demo_maskinporten) (st_Conditions (inst_Status (inst s')))
       ConditionTypeInvalidConsumedScopes"
proof -
  let ?l = "demo_lib (\<lambda>_. ok_response) [] demo_maskinporten"
  let ?s = "demo_state demo_maskinporten"
  let ?sp = "\<lparr>ms_ClientName = '''', ms_SecretName = ''sec'', ms_ConsumedScopes = [''a'', ''b''], ms_ExposedScopes = []\<rparr>"
  have cc: "cache_contract (net ?l) map_of" by (simp add: cache_contract_def demo_net_def fun_eq_iff)
  obtain s' where run: "filterConsumedScopes ?l demo_config ?sp ?s = (Inr [''a''], s')" using demo_filter_scopes by blast
  have s: "scopeCache ?s = []" "trace ?s = []" by (simp_all add: demo_state_def)
  from filter_consumed_scopes_sound [OF _ cc _ run refl] s obtain t invalid where
    "trace s' = t" "mset [''a''] + mset invalid = mset [''a'', ''b'']" "scope_seen ?l demo_config t ''a''"
    "IsStatusConditionTrue ?l (st_Conditions (inst_Status (inst s'))) ConditionTypeInvalidConsumedScopes \<longleftrightarrow> invalid \<noteq> []"
    by auto
  with run show ?thesis by auto
qed

section \<open>The registration\<close>

lemma Register_Inr:
  assumes "retry_contract (net l)" and "Register l c payload s = (Inr x, s')"
  shows "\<exists>body t e. json_MarshalClient (json l) payload = Inr body \<and> trace s' = trace s @ t @ [e] \<and>
    answered l c MethodPost [''clients''] '''' body (json_Client (json l)) x e"
proof -
  obtain body s1 where "json_MarshalClient (json l) payload = Inr body"
    and r: "request l c MethodPost (api_url l c [''clients''] @ '''') body (json_Client (json l)) s = (Inr x, s')"
    using endpoint_then [OF assms(2) [unfolded Register_def]] by (auto elim!: bindE_InrE)
  with request_answered [OF assms(1) r] show ?thesis by blast
qed

lemma Update_Inr:
  assumes "retry_contract (net l)" and "Update l c payload cid s = (Inr x, s')"
  shows "\<exists>body t e. json_MarshalClient (json l) payload = Inr body \<and> trace s' = trace s @ t @ [e] \<and>
    answered l c MethodPut [''clients'', cid] '''' body (json_Client (json l)) x e"
proof -
  obtain body s1 where "json_MarshalClient (json l) payload = Inr body"
    and r: "request l c MethodPut (api_url l c [''clients'', cid] @ '''') body (json_Client (json l)) s = (Inr x, s')"
    using endpoint_then [OF assms(2) [unfolded Update_def]] by (auto elim!: bindE_InrE)
  with request_answered [OF assms(1) r] show ?thesis by blast
qed

lemma registrationPayload_Inr:
  assumes "retry_contract (net l)" and "registrationPayload l c s = (Inr payload, s')"
  shows "\<exists>t scopes. trace s' = trace s @ t \<and>
    payload = (ToClientRegistration (kube_URN (kube l)) (inst s) c)\<lparr>cr_Scopes := scopes\<rparr>"
proof -
  obtain t where "trace s' = trace s @ t"
    using keepsD [OF emits_registrationPayload [OF assms(1)] assms(2)] by (auto simp: emits_def)
  moreover have "\<exists>scopes. payload = (ToClientRegistration (kube_URN (kube l)) (inst s) c)\<lparr>cr_Scopes := scopes\<rparr>"
    using assms(2) unfolding registrationPayload_def bindE_the_inst Let_def
    by (cases "inst_Spec (inst s)") (auto simp: returnE_def elim!: bindE_InrE intro: exI [of _ "cr_Scopes payload"])
  ultimately show ?thesis by blast
qed

lemma report_and_tally:
  assumes "f = inc_by_kind a b"
    and "bindE (reportEvent ty ev m) (\<lambda>_. bindE (tally f) (\<lambda>_. returnE x)) s = (Inr y, s')"
  shows "y = x \<and> trace s' = trace s @ [EventRecorded ty ev m]"
proof -
  obtain s1 where r: "reportEvent ty ev m s = (Inr (), s1)" "trace s1 = trace s @ [EventRecorded ty ev m]"
    by (simp add: reportEvent_def bindE_def step_defs)
  obtain s2 where "tally f s1 = (Inr (), s2)" "trace s2 = trace s1" by (rule tally_kind [OF assms(1)])
  with assms(2) r show ?thesis by (simp add: bindE_Inr returnE_def)
qed


text \<open>The write at the end: an update of the registration found, or a new one.\<close>

lemma write_found:
  assumes "retry_contract (net l)"
    and "bindE (wrapE ''updating client'' (updateClient l c payload (cr_ClientID r))) (\<lambda>_.
           bindE (reportEvent EventTypeNormal EventUpdatedInDigDir ''Client is updated'') (\<lambda>_.
           bindE (tally IncClientsUpdated) (\<lambda>_. returnE r))) s = (Inr reg, s')"
  shows "\<exists>body t e x. reg = r \<and> json_MarshalClient (json l) payload = Inr body \<and>
    trace s' = trace s @ t @ [e, EventRecorded EventTypeNormal EventUpdatedInDigDir ''Client is updated''] \<and>
    answered l c MethodPut [''clients'', cr_ClientID r] '''' body (json_Client (json l)) x e"
proof -
  obtain x s1 where u: "wrapE ''updating client'' (updateClient l c payload (cr_ClientID r)) s = (Inr x, s1)"
    and k: "bindE (reportEvent EventTypeNormal EventUpdatedInDigDir ''Client is updated'') (\<lambda>_.
           bindE (tally IncClientsUpdated) (\<lambda>_. returnE r)) s1 = (Inr reg, s')"
    using assms(2) by (rule bindE_InrE)
  from u have "Update l c payload (cr_ClientID r) s = (Inr x, s1)" by (simp only: wrapE_Inr_iff updateClient_def)
  from Update_Inr [OF assms(1) this] report_and_tally [OF IncClientsUpdated_def k] show ?thesis
    by (elim exE conjE) (intro exI conjI, assumption+, simp, assumption)
qed

lemma write_new:
  assumes "retry_contract (net l)"
    and "bindE (wrapE ''creating client'' (createClient l c payload)) (\<lambda>r.
         bindE (reportEvent EventTypeNormal EventCreatedInDigDir ''Client is registered'') (\<lambda>_.
         bindE (tally IncClientsCreated) (\<lambda>_. returnE r))) s = (Inr reg, s')"
  shows "\<exists>body t e. json_MarshalClient (json l) payload = Inr body \<and>
    trace s' = trace s @ t @ [e, EventRecorded EventTypeNormal EventCreatedInDigDir ''Client is registered''] \<and>
    answered l c MethodPost [''clients''] '''' body (json_Client (json l)) reg e"
proof -
  obtain x s1 where u: "wrapE ''creating client'' (createClient l c payload) s = (Inr x, s1)"
    and k: "bindE (reportEvent EventTypeNormal EventCreatedInDigDir ''Client is registered'') (\<lambda>_.
           bindE (tally IncClientsCreated) (\<lambda>_. returnE x)) s1 = (Inr reg, s')"
    using assms(2) by (rule bindE_InrE)
  from u have "Register l c payload s = (Inr x, s1)" by (simp only: wrapE_Inr_iff createClient_def)
  from Register_Inr [OF assms(1) this] report_and_tally [OF IncClientsCreated_def k] show ?thesis
    by (elim exE conjE) (intro exI conjI, assumption+, simp, simp)
qed

definition writeRegistration ::
  "('w, 'c) lib \<Rightarrow> config \<Rightarrow> clientRegistration \<Rightarrow> clientRegistration option \<Rightarrow> (('w, 'c) st, clientRegistration) eff" where
  "writeRegistration l c payload registration = (case registration of
       Some r \<Rightarrow>
         if cr_IntegrationType r \<noteq> cr_IntegrationType payload
         then failE (Err (''cannot update immutable integration type (existing: '' @ cr_IntegrationType r @
                '', desired: '' @ cr_IntegrationType payload @ '')''))
         else
           bindE (wrapE ''updating client'' (updateClient l c payload (cr_ClientID r))) (\<lambda>_.
           bindE (reportEvent EventTypeNormal EventUpdatedInDigDir ''Client is updated'') (\<lambda>_.
           bindE (tally IncClientsUpdated) (\<lambda>_. returnE r)))
     | None \<Rightarrow>
         bindE (wrapE ''creating client'' (createClient l c payload)) (\<lambda>r.
         bindE (reportEvent EventTypeNormal EventCreatedInDigDir ''Client is registered'') (\<lambda>_.
         bindE (tally IncClientsCreated) (\<lambda>_. returnE r))))"

lemma createOrUpdateClient_write:
  "createOrUpdateClient l c =
     bindE (wrapE ''getting client registration'' (GetRegistration l c (cfg_ClusterName c))) (\<lambda>registration.
     bindE (registrationPayload l c) (\<lambda>payload. writeRegistration l c payload registration))"
  unfolding createOrUpdateClient_def writeRegistration_def ..

text \<open>
  The call that settled the registration and the event that reports it: an update of the registration
  that was found, which must have the integration type of the payload, or a new registration.
\<close>

definition registered ::
  "('w, 'c) lib \<Rightarrow> config \<Rightarrow> clientRegistration option \<Rightarrow> clientRegistration \<Rightarrow> string \<Rightarrow> clientRegistration \<Rightarrow>
   effect \<Rightarrow> effect \<Rightarrow> bool" where
  "registered l c found payload body reg e ev \<longleftrightarrow> (case found of
     Some r \<Rightarrow> reg = r \<and> cr_IntegrationType payload = cr_IntegrationType r \<and>
       (\<exists>x. answered l c MethodPut [''clients'', cr_ClientID r] '''' body (json_Client (json l)) x e) \<and>
       ev = EventRecorded EventTypeNormal EventUpdatedInDigDir ''Client is updated''
   | None \<Rightarrow> answered l c MethodPost [''clients''] '''' body (json_Client (json l)) reg e \<and>
       ev = EventRecorded EventTypeNormal EventCreatedInDigDir ''Client is registered'')"

lemma writeRegistration_Inr:
  assumes "retry_contract (net l)" and "writeRegistration l c payload found s = (Inr reg, s')"
  shows "\<exists>body t e ev. json_MarshalClient (json l) payload = Inr body \<and> trace s' = trace s @ t @ [e, ev] \<and>
    registered l c found payload body reg e ev"
proof (cases found)
  case None
  from write_new [OF assms(1) assms(2) [unfolded None writeRegistration_def option.case]] show ?thesis
    unfolding registered_def None option.case by (elim exE conjE) (intro exI conjI, assumption+, rule refl)
next
  case (Some r)
  then have ty: "cr_IntegrationType payload = cr_IntegrationType r"
    using assms(2) by (cases "cr_IntegrationType r = cr_IntegrationType payload") (simp_all add: writeRegistration_def failE_def)
  from write_found [OF assms(1) assms(2) [unfolded Some writeRegistration_def option.case ty simp_thms if_False]] show ?thesis
    unfolding registered_def Some option.case using ty by (elim exE conjE) (intro exI conjI, assumption+, rule refl)
qed

text \<open>
  C6: a successful \<open>createOrUpdateClient\<close> leaves one registration, the one of the resource. It listed
  the clients first and wrote last: the first listed client that matches is kept as it is known and
  was updated under its ID with a payload of the same integration type; without a match a client was
  created and the answer is its registration. The payload is the one of the resource's specification,
  apart from the scopes, and one event tells which of the two happened.
\<close>

theorem create_or_update_client_outcome:
  assumes "retry_contract (net l)" and "createOrUpdateClient l c s = (Inr reg, s')"
  shows "\<exists>regs payload scopes body t1 e1 t2 e2 ev.
    trace s' = trace s @ t1 @ [e1] @ t2 @ [e2, ev] \<and>
    answered l c MethodGet [''clients''] '''' '''' (json_Clients (json l)) regs e1 \<and>
    payload = (ToClientRegistration (kube_URN (kube l)) (inst s) c)\<lparr>cr_Scopes := scopes\<rparr> \<and>
    json_MarshalClient (json l) payload = Inr body \<and>
    registered l c (List.find (\<lambda>r. clientMatches l r (inst s) (cfg_ClusterName c)) regs) payload body reg e2 ev"
proof -
  obtain found s1 where g0: "wrapE ''getting client registration'' (GetRegistration l c (cfg_ClusterName c)) s = (Inr found, s1)"
    and k0: "bindE (registrationPayload l c) (\<lambda>payload. writeRegistration l c payload found) s1 = (Inr reg, s')"
    using assms(2) unfolding createOrUpdateClient_write by (rule bindE_InrE)
  from g0 have "GetRegistration l c (cfg_ClusterName c) s = (Inr found, s1)" by (simp only: wrapE_Inr_iff)
  from GetRegistration_Inr [OF assms(1) this] obtain regs t1 e1 where g: "trace s1 = trace s @ t1 @ [e1]"
    "answered l c MethodGet [''clients''] '''' '''' (json_Clients (json l)) regs e1"
    "found = List.find (\<lambda>r. clientMatches l r (inst s) (cfg_ClusterName c)) regs"
    "inst_Meta (inst s1) = inst_Meta (inst s)" "inst_Spec (inst s1) = inst_Spec (inst s)"
    by (auto split: option.splits)
  have same: "ToClientRegistration urn (inst s1) c = ToClientRegistration urn (inst s) c" for urn
    unfolding ToClientRegistration_def g(4,5) ..
  obtain payload s2 where p: "registrationPayload l c s1 = (Inr payload, s2)"
    and k: "writeRegistration l c payload found s2 = (Inr reg, s')"
    using k0 by (rule bindE_InrE)
  obtain t2 scopes where t2: "trace s2 = trace s1 @ t2"
    "payload = (ToClientRegistration (kube_URN (kube l)) (inst s) c)\<lparr>cr_Scopes := scopes\<rparr>"
    using registrationPayload_Inr [OF assms(1) p] by (auto simp: same)
  obtain body t e ev where w: "json_MarshalClient (json l) payload = Inr body" "trace s' = trace s2 @ t @ [e, ev]"
    "registered l c found payload body reg e ev"
    using writeRegistration_Inr [OF assms(1) k] by (elim exE conjE) (rule that)
  have "trace s' = trace s @ t1 @ [e1] @ (t2 @ t) @ [e, ev]"
    using w(2) t2(1) g(1) by (simp only: append_assoc)
  then show ?thesis
    using g(2) t2(2) w(1) w(3) [unfolded g(3)] by (intro exI conjI)
qed


theorem create_or_update_client_outcome_witness:
  "\<exists>s' payload body t e. createOrUpdateClient demo_all_ok demo_config (demo_state demo_idporten) = (Inr demo_registration, s') \<and>
     trace s' = t @ [e, EventRecorded EventTypeNormal EventCreatedInDigDir ''Client is registered''] \<and>
     cr_ClientURI payload = ''https://n'' \<and> json_MarshalClient (json demo_all_ok) payload = Inr body \<and>
     answered demo_all_ok demo_config MethodPost [''clients''] '''' body (json_Client (json demo_all_ok)) demo_registration e"
proof -
  let ?s = "demo_state demo_idporten"
  have "demo_ok ?s" by (simp add: demo_ok_def demo_state_def demo_idporten_def)
  then obtain reg s' where run: "createOrUpdateClient demo_all_ok demo_config ?s = (Inr reg, s')"
    using demo_createOrUpdateClient unfolding works_iff by blast
  have rc: "retry_contract (net demo_all_ok)" by simp
  from create_or_update_client_outcome [OF rc run] obtain regs payload scopes body t1 e1 t2 e2 ev where
    o: "trace s' = trace ?s @ t1 @ [e1] @ t2 @ [e2, ev]"
    "answered demo_all_ok demo_config MethodGet [''clients''] '''' '''' (json_Clients (json demo_all_ok)) regs e1"
    "payload = (ToClientRegistration (kube_URN (kube demo_all_ok)) (inst ?s) demo_config)\<lparr>cr_Scopes := scopes\<rparr>"
    "json_MarshalClient (json demo_all_ok) payload = Inr body"
    "registered demo_all_ok demo_config (List.find (\<lambda>r. clientMatches demo_all_ok r (inst ?s) (cfg_ClusterName demo_config)) regs)
       payload body reg e2 ev"
    by (elim exE conjE) (rule that)
  have "regs = []" using o(2) by (auto simp: answered_def demo_codec_def)
  with o(5) have r: "answered demo_all_ok demo_config MethodPost [''clients''] '''' body (json_Client (json demo_all_ok)) reg e2"
    "ev = EventRecorded EventTypeNormal EventCreatedInDigDir ''Client is registered''"
    by (simp_all add: registered_def)
  have "reg = demo_registration" using r(1) by (auto simp: answered_def demo_codec_def)
  moreover have "cr_ClientURI payload = ''https://n''"
    using o(3) by (simp add: demo_state_def demo_idporten_def ToClientRegistration_def toIDPortenClientRegistration_def
        SetIDportenClientDefaultValues_def demo_config_def Let_def)
  moreover have "trace s' = (t1 @ [e1] @ t2) @ [e2, ev]" using o(1) by (simp add: demo_state_def)
  ultimately show ?thesis using run r o(4) by blast
qed

end
