(* ===== verification/Startup.thy ===== *)
theory Startup
  imports Metrics
begin

text \<open>
  \<open>cmd/digdirator\<close> and the registration of the two controllers: what the process does from its start
  to the run of the manager. The calls of the libraries (viper, the metadata fetchers, the key
  management client, controller-runtime, the log handler) are a record of functions; the calls that
  matter to the outside are logged.
\<close>

section \<open>State and libraries\<close>

datatype predicateName = GenerationChangedPredicate | AnnotationChangedPredicate | LabelChangedPredicate

text \<open>\<open>ctrl.Options\<close>, as far as the program sets them.\<close>

record managerOptions =
  mo_BindAddress :: string
  mo_LeaderElection :: bool
  mo_LeaderElectionID :: string
  mo_LeaderElectionNamespace :: string

datatype bootEffect =
    MetricsRegistered "metric list"
  | LoggerSet int
  | ConfigPrinted "string list"
  | MetadataFetched string "gerror + metadata"
  | SourcesFetched string "gerror + string"
  | ManagerCreated managerOptions
  | SignerCreated "gerror + (string \<times> headerValue) list"
  | ControllerCompleted resourceKind "predicateName list"
  | RefreshStarted
  | ManagerStarted "gerror option"

record 'w boot =
  bt_world :: 'w
  bt_log :: "bootEffect list"

record ('w, 'x) bootLib =
  bl_ReadInConfig :: "viperError option"
  bl_BindPFlags :: "gerror + unit"
  bl_Unmarshal :: "gerror + config"
  bl_AllKeys :: "string list"
  bl_GetString :: "string \<Rightarrow> string"
  bl_URL :: urlLib
  bl_NewMetadataOAuth :: "string \<Rightarrow> 'w \<Rightarrow> (gerror + metadata) \<times> 'w"
  bl_NewMetadataOpenID :: "string \<Rightarrow> 'w \<Rightarrow> (gerror + metadata) \<times> 'w"
  bl_NewRequest :: "string \<Rightarrow> gerror + string"
  bl_Do :: "string \<Rightarrow> 'w \<Rightarrow> (gerror + string) \<times> 'w"
  bl_DecodeSources :: "string \<Rightarrow> gerror + delegationSource list"
  bl_NewManager :: "managerOptions \<Rightarrow> 'w \<Rightarrow> (gerror + unit) \<times> 'w"
  bl_PemDecode :: "string \<Rightarrow> (pemBlock \<times> string) option"
  bl_ParseCertificate :: "string \<Rightarrow> gerror + 'x"
  bl_Raw :: "'x \<Rightarrow> string"
  bl_WithHeader :: "string \<Rightarrow> headerValue \<Rightarrow> (string \<times> headerValue) list \<Rightarrow> (string \<times> headerValue) list"
  bl_NewKmsClient :: "'w \<Rightarrow> (gerror + unit) \<times> 'w"
  bl_Complete :: "resourceKind \<Rightarrow> predicateName list \<Rightarrow> 'w \<Rightarrow> (gerror + unit) \<times> 'w"
  bl_Start :: "'w \<Rightarrow> gerror option \<times> 'w"

definition outside :: "('w \<Rightarrow> (gerror + 'a) \<times> 'w) \<Rightarrow> ('w boot, 'a) eff" where
  "outside f = (\<lambda>s. case f (bt_world s) of (r, w) \<Rightarrow> (r, s\<lparr>bt_world := w\<rparr>))"

text \<open>A call whose answer, an error included, goes to the log.\<close>

definition asked :: "(gerror + 'a \<Rightarrow> bootEffect) \<Rightarrow> ('w \<Rightarrow> (gerror + 'a) \<times> 'w) \<Rightarrow> ('w boot, 'a) eff" where
  "asked entry f = (\<lambda>s. case f (bt_world s) of (r, w) \<Rightarrow> (r, s\<lparr>bt_world := w, bt_log := bt_log s @ [entry r]\<rparr>))"

definition logs :: "bootEffect \<Rightarrow> ('w boot, unit) eff" where
  "logs e = modifyE (\<lambda>s. s\<lparr>bt_log := bt_log s @ [e]\<rparr>)"

section \<open>The log level\<close>

text \<open>
  \<open>slog.Level.UnmarshalText\<close>: an ASCII name in any case, with an offset such as \<open>+2\<close> or \<open>-1\<close> behind it;
  \<open>strconv.Atoi\<close> reads the offset into an \<open>int\<close>.
\<close>

definition to_upper :: "string \<Rightarrow> string" where
  "to_upper s = map (\<lambda>c. if CHR ''a'' \<le> c \<and> c \<le> CHR ''z'' then char_of ((of_char c :: nat) - 32) else c) s"

definition digits :: "string \<Rightarrow> int option" where
  "digits s = (if s \<noteq> [] \<and> list_all (\<lambda>c. CHR ''0'' \<le> c \<and> c \<le> CHR ''9'') s
     then Some (foldl (\<lambda>n c. n * 10 + int (of_char c) - 48) 0 s) else None)"

fun signed_digits :: "string \<Rightarrow> int option" where
  "signed_digits [] = None"
| "signed_digits (c # s) = (if c = CHR ''+'' then digits s else if c = CHR ''-'' then map_option uminus (digits s)
     else digits (c # s))"

definition Atoi :: "string \<Rightarrow> gerror + int" where
  "Atoi s = (case signed_digits s of
     None \<Rightarrow> Inl (Err (''strconv.Atoi: parsing '' @ quote s @ '': invalid syntax''))
   | Some n \<Rightarrow> if - (2 ^ 63) \<le> n \<and> n < 2 ^ 63 then Inr n
              else Inl (Err (''strconv.Atoi: parsing '' @ quote s @ '': value out of range'')))"

definition level_of_name :: "string \<Rightarrow> int option" where
  "level_of_name n =
     (if n = ''DEBUG'' then Some (- 4) else if n = ''INFO'' then Some 0 else if n = ''WARN'' then Some 4
      else if n = ''ERROR'' then Some 8 else None)"

definition UnmarshalLevel :: "string \<Rightarrow> gerror + int" where
  "UnmarshalLevel s =
     (let name = takeWhile (\<lambda>c. c \<noteq> CHR ''+'' \<and> c \<noteq> CHR ''-'') s;
          rest = dropWhile (\<lambda>c. c \<noteq> CHR ''+'' \<and> c \<noteq> CHR ''-'') s;
          msg = ''slog: level string '' @ quote s in
      case (if rest = [] then Inr 0 else Atoi rest) of
        Inl e \<Rightarrow> Inl (Wrap msg e)
      | Inr offset \<Rightarrow> (case level_of_name (to_upper name) of
          None \<Rightarrow> Inl (Wrap msg (Err ''unknown name''))
        | Some lvl \<Rightarrow> Inr (signed_take_bit 63 (lvl + offset))))"
definition setupLogger :: "string \<Rightarrow> ('w boot, unit) eff" where
  "setupLogger logLevel =
     bindE (wrapE ''parsing log level'' (liftE (UnmarshalLevel logLevel))) (\<lambda>level. logs (LoggerSet level))"

section \<open>Setting up\<close>

definition required_keys :: "string list" where
  "required_keys =
     [ClusterName, DigDirAdminBaseURL, DigDirAdminClientID, DigDirAdminCertChain, DigDirAdminKmsKeyPath,
      DigDirAdminScopes, DigDirIDPortenWellKnownURL, DigDirMaskinportenWellKnownURL]"

definition setup_config :: "('w, 'x) bootLib \<Rightarrow> ('w boot, config) eff" where
  "setup_config b =
     bindE (liftE (New (bl_ReadInConfig b) (bl_BindPFlags b) (bl_Unmarshal b))) (\<lambda>cfg.
     bindE (setupLogger (cfg_LogLevel cfg)) (\<lambda>_.
     bindE (logs (ConfigPrinted (Print (bl_AllKeys b) (bl_GetString b) [DigDirAdminCertChain]))) (\<lambda>_.
     bindE (liftE (fst (Validate (bl_URL b) cfg (bl_AllKeys b) (bl_GetString b) required_keys))) (\<lambda>_.
     WithProviderMetadata (\<lambda>u. asked (MetadataFetched u) (bl_NewMetadataOAuth b u))
       (\<lambda>u. asked (MetadataFetched u) (bl_NewMetadataOpenID b u))
       (delegationSources (bl_URL b) (bl_NewRequest b) (\<lambda>req. asked (SourcesFetched req) (bl_Do b req)) (bl_DecodeSources b)) cfg))))"

definition SetupWithManager :: "('w, 'x) bootLib \<Rightarrow> resourceKind \<Rightarrow> ('w boot, unit) eff" where
  "SetupWithManager b kind =
     (let filters = [GenerationChangedPredicate, AnnotationChangedPredicate, LabelChangedPredicate] in
      bindE (outside (bl_Complete b kind filters)) (\<lambda>_. logs (ControllerCompleted kind filters)))"

text \<open>
  \<open>signer.NewKmsSigner\<close>: the chain is converted first, and the client is created when that went well.
  A chain whose conversion never ended would stop the process here, which the model gives as a panic.
  The log tells whether the signer was created.
\<close>

definition kmsSigner :: "('w, 'x) bootLib \<Rightarrow> config \<Rightarrow> ('w boot, (string \<times> headerValue) list) eff" where
  "kmsSigner b cfg =
     (let signer = (\<lambda>client. NewKmsSigner (bl_PemDecode b) (bl_ParseCertificate b) (bl_Raw b) (bl_WithHeader b) client
                               (ad_CertChain (cfg_Admin cfg)));
          result = (\<lambda>r. case r of None \<Rightarrow> Inl (Panicked ''no return'') | Some x \<Rightarrow> x) in
      asked SignerCreated (\<lambda>w. case result (signer (Inr ())) of
          Inl e \<Rightarrow> (Inl e, w)
        | Inr _ \<Rightarrow> (case bl_NewKmsClient b w of (client, w') \<Rightarrow> (result (signer client), w'))))"

definition run_manager :: "('w, 'x) bootLib \<Rightarrow> ('w boot, unit) eff" where
  "run_manager b = (\<lambda>s. case bl_Start b (bt_world s) of (e, w) \<Rightarrow>
     (case e of None \<Rightarrow> Inr () | Some x \<Rightarrow> Inl (wrapped ''running manager'' x),
      s\<lparr>bt_world := w, bt_log := bt_log s @ [ManagerStarted e]\<rparr>))"

definition manager_options :: "config \<Rightarrow> managerOptions" where
  "manager_options cfg =
     \<lparr>mo_BindAddress = cfg_MetricsAddr cfg, mo_LeaderElection = le_Enabled (cfg_LeaderElection cfg),
      mo_LeaderElectionID = ''digdirator.nais.io'', mo_LeaderElectionNamespace = le_Namespace (cfg_LeaderElection cfg)\<rparr>"

definition run_process :: "('w, 'x) bootLib \<Rightarrow> ('w boot, unit) eff" where
  "run_process b =
     bindE (setup_config b) (\<lambda>cfg.
     bindE (wrapE ''starting manager'' (outside (bl_NewManager b (manager_options cfg)))) (\<lambda>_.
     bindE (logs (ManagerCreated (manager_options cfg))) (\<lambda>_.
     bindE (wrapE ''setting up kms signer'' (kmsSigner b cfg)) (\<lambda>_.
     bindE (if ft_IDPorten (cfg_Features cfg)
            then wrapE ''creating idportenclient controller'' (SetupWithManager b KindIDPorten) else returnE ()) (\<lambda>_.
     bindE (if ft_Maskinporten (cfg_Features cfg)
            then wrapE ''creating maskinportenclient controller'' (SetupWithManager b KindMaskinporten) else returnE ()) (\<lambda>_.
     bindE (logs RefreshStarted) (\<lambda>_.
     run_manager b)))))))"

text \<open>
  \<open>init\<close>: \<open>MustRegister\<close> panics when a name is registered twice. \<open>main\<close> gives the exit code of the process.
\<close>

definition init_process :: "('w boot, unit) eff" where
  "init_process =
     (if distinct (map metric_name AllMetrics) then logs (MetricsRegistered AllMetrics)
      else failE (Panicked ''duplicate metrics collector registration attempted''))"

definition main_process :: "('w, 'x) bootLib \<Rightarrow> ('w boot, int) eff" where
  "main_process b = bindE init_process (\<lambda>_. catchE (run_process b) (\<lambda>err. returnE 1) (\<lambda>_. returnE 0))"


section \<open>Properties\<close>

definition boots :: "(bootEffect \<Rightarrow> bool) \<Rightarrow> 'w boot \<Rightarrow> 'w boot \<Rightarrow> bool" where
  "boots P s s' \<longleftrightarrow> (\<exists>t. bt_log s' = bt_log s @ t \<and> list_all P t)"

interpretation boots: state_preorder "boots P" for P
proof unfold_locales
  fix s s1 s2 :: "'w boot"
  show "boots P s s" by (simp add: boots_def)
  assume "boots P s s1" and "boots P s1 s2"
  then obtain t t' where "bt_log s1 = bt_log s @ t" "bt_log s2 = bt_log s1 @ t'" "list_all P t" "list_all P t'"
    unfolding boots_def by blast
  then show "boots P s s2" unfolding boots_def by (intro exI [of _ "t @ t'"]) simp
qed

lemma boots_outside: "keeps (boots P) (outside f)"
  by (simp add: keeps_def outside_def boots_def split: prod.split)

lemma boots_logs: "P e \<Longrightarrow> keeps (boots P) (logs e)"
  by (simp add: keeps_def logs_def boots_def)

lemma boots_asked: "(\<And>r. P (entry r)) \<Longrightarrow> keeps (boots P) (asked entry f)"
  by (simp add: keeps_def asked_def boots_def split: prod.split)

lemma asked_log: "asked entry f s = (r, s') \<Longrightarrow> bt_log s' = bt_log s @ [entry r]"
  by (auto simp: asked_def split: prod.splits)

lemma kmsSigner_Inr:
  assumes "kmsSigner b cfg s = (Inr h, s')"
  shows "bt_log s' = bt_log s @ [SignerCreated (Inr h)]"
    and "NewKmsSigner (bl_PemDecode b) (bl_ParseCertificate b) (bl_Raw b) (bl_WithHeader b) (Inr ()) (ad_CertChain (cfg_Admin cfg)) =
      Some (Inr h)"
proof -
  show "bt_log s' = bt_log s @ [SignerCreated (Inr h)]"
    using asked_log [OF assms [unfolded kmsSigner_def Let_def]] .
  have inr: "NewKmsSigner d p w o' client ch = Some (Inr h) \<Longrightarrow> NewKmsSigner d p w o' (Inr ()) ch = Some (Inr h)" for d p w o' client ch
    by (auto simp: NewKmsSigner_def Let_def split: option.splits sum.splits if_splits)
  show "NewKmsSigner (bl_PemDecode b) (bl_ParseCertificate b) (bl_Raw b) (bl_WithHeader b) (Inr ()) (ad_CertChain (cfg_Admin cfg)) =
      Some (Inr h)"
    using assms unfolding kmsSigner_def Let_def asked_def by (auto split: prod.splits sum.splits option.splits dest: inr)
qed
lemma outside_log: "outside f s = (r, s') \<Longrightarrow> bt_log s' = bt_log s"
  by (auto simp: outside_def split: prod.splits)

text \<open>The configuration with its metadata: the log, the features and the validation behind it.\<close>

lemma WithProviderMetadata_keeps:
  assumes "WithProviderMetadata a o' d c s = (Inr c', s')"
  shows "cfg_Features c' = cfg_Features c" "cfg_Admin c' = cfg_Admin c" "cfg_MetricsAddr c' = cfg_MetricsAddr c"
    "cfg_LeaderElection c' = cfg_LeaderElection c"
    "mp_WellKnownURL (cfg_Maskinporten c') = mp_WellKnownURL (cfg_Maskinporten c)"
    "idp_WellKnownURL (cfg_IDPorten c') = idp_WellKnownURL (cfg_IDPorten c)"
    "c'\<lparr>cfg_Maskinporten := cfg_Maskinporten c, cfg_IDPorten := cfg_IDPorten c\<rparr> = c"
  using assms unfolding WithProviderMetadata_def Let_def by (auto elim!: bindE_InrE split: if_splits)

lemma boots_WithProviderMetadata:
  assumes "\<And>u r. P (MetadataFetched u r)" and "\<And>u r. P (SourcesFetched u r)"
  shows "keeps (boots P) (WithProviderMetadata (\<lambda>u. asked (MetadataFetched u) (f u)) (\<lambda>u. asked (MetadataFetched u) (g u))
     (delegationSources ur nr (\<lambda>req. asked (SourcesFetched req) (h req)) dec) c)"
  unfolding WithProviderMetadata_def delegationSources_def
  by (intro keeps_splits boots.keeps_intros boots_asked assms)

text \<open>
  What the log has of the providers: the metadata of Maskinporten, the delegation sources and, with the
  feature enabled, the metadata of ID-porten were fetched without an error, and they are the ones of the
  configuration.
\<close>

definition provider_log :: "('w, 'x) bootLib \<Rightarrow> config \<Rightarrow> bootEffect list \<Rightarrow> bool" where
  "provider_log b cfg t \<longleftrightarrow> (\<exists>base req body sources.
     ApiV1URL (bl_URL b) (cfg_Admin cfg) = Inr base \<and>
     bl_NewRequest b (url_String (bl_URL b) (url_JoinPath (bl_URL b) base [''delegationsources''])) = Inr req \<and>
     bl_DecodeSources b body = Inr sources \<and>
     mp_DelegationSources (cfg_Maskinporten cfg) = delegationSourceMap sources \<and>
     t = [MetadataFetched (mp_WellKnownURL (cfg_Maskinporten cfg)) (Inr (mp_Metadata (cfg_Maskinporten cfg))), SourcesFetched req (Inr body)] @
       (if ft_IDPorten (cfg_Features cfg)
        then [MetadataFetched (idp_WellKnownURL (cfg_IDPorten cfg)) (Inr (idp_Metadata (cfg_IDPorten cfg)))] else []))"

lemma delegationSources_Inr:
  assumes "delegationSources u nr (\<lambda>req. asked (SourcesFetched req) (h req)) dec c s = (Inr m, s')"
  obtains base req body sources where "ApiV1URL u (cfg_Admin c) = Inr base"
    and "nr (url_String u (url_JoinPath u base [''delegationsources''])) = Inr req" and "dec body = Inr sources"
    and "m = delegationSourceMap sources" and "bt_log s' = bt_log s @ [SourcesFetched req (Inr body)]"
  using assms unfolding delegationSources_def by (auto elim!: bindE_InrE dest!: asked_log)

lemma WithProviderMetadata_Inr:
  assumes "WithProviderMetadata (\<lambda>u. asked (MetadataFetched u) (bl_NewMetadataOAuth b u))
       (\<lambda>u. asked (MetadataFetched u) (bl_NewMetadataOpenID b u))
       (delegationSources (bl_URL b) (bl_NewRequest b) (\<lambda>req. asked (SourcesFetched req) (bl_Do b req)) (bl_DecodeSources b)) c s = (Inr cfg, s')"
  shows "\<exists>t. bt_log s' = bt_log s @ t \<and> provider_log b cfg t"
proof -
  let ?src = "delegationSources (bl_URL b) (bl_NewRequest b) (\<lambda>req. asked (SourcesFetched req) (bl_Do b req)) (bl_DecodeSources b)"
  let ?c1 = "\<lambda>md m. c\<lparr>cfg_Maskinporten := (cfg_Maskinporten c)\<lparr>mp_Metadata := md, mp_DelegationSources := m\<rparr>\<rparr>"
  let ?k = "\<lambda>md m. if ft_IDPorten (cfg_Features c) then
       bindE (wrapE (''resolving ID-porten metadata from '' @ quote (idp_WellKnownURL (cfg_IDPorten c)))
         (asked (MetadataFetched (idp_WellKnownURL (cfg_IDPorten c))) (bl_NewMetadataOpenID b (idp_WellKnownURL (cfg_IDPorten c))))) (\<lambda>im.
       returnE ((?c1 md m)\<lparr>cfg_IDPorten := (cfg_IDPorten c)\<lparr>idp_Metadata := im\<rparr>\<rparr>))
     else returnE (?c1 md m)"
  have "bindE (wrapE (''resolving Maskinporten metadata from '' @ quote (mp_WellKnownURL (cfg_Maskinporten c)))
      (asked (MetadataFetched (mp_WellKnownURL (cfg_Maskinporten c))) (bl_NewMetadataOAuth b (mp_WellKnownURL (cfg_Maskinporten c))))) (\<lambda>md.
      bindE (wrapE ''resolving delegation sources'' (?src c)) (?k md)) s = (Inr cfg, s')"
    using assms by (simp add: WithProviderMetadata_def Let_def cong: if_cong)
  then obtain md s1 m s2 where 1: "asked (MetadataFetched (mp_WellKnownURL (cfg_Maskinporten c)))
      (bl_NewMetadataOAuth b (mp_WellKnownURL (cfg_Maskinporten c))) s = (Inr md, s1)"
    and 2: "?src c s1 = (Inr m, s2)" and 3: "?k md m s2 = (Inr cfg, s')"
    by (elim bindE_InrE) (simp only: wrapE_Inr_iff)
  note log1 = asked_log [OF 1]
  obtain base req body sources where src: "ApiV1URL (bl_URL b) (cfg_Admin c) = Inr base"
    "bl_NewRequest b (url_String (bl_URL b) (url_JoinPath (bl_URL b) base [''delegationsources''])) = Inr req"
    "bl_DecodeSources b body = Inr sources" "m = delegationSourceMap sources" "bt_log s2 = bt_log s1 @ [SourcesFetched req (Inr body)]"
    using 2 by (rule delegationSources_Inr)
  show ?thesis
  proof (cases "ft_IDPorten (cfg_Features c)")
    case True
    with 3 obtain im where "asked (MetadataFetched (idp_WellKnownURL (cfg_IDPorten c)))
        (bl_NewMetadataOpenID b (idp_WellKnownURL (cfg_IDPorten c))) s2 = (Inr im, s')"
      and "cfg = c\<lparr>cfg_Maskinporten := (cfg_Maskinporten c)\<lparr>mp_Metadata := md, mp_DelegationSources := m\<rparr>,
         cfg_IDPorten := (cfg_IDPorten c)\<lparr>idp_Metadata := im\<rparr>\<rparr>"
      by (auto elim!: bindE_InrE)
    with asked_log [OF this(1)] True log1 src show ?thesis by (auto simp: provider_log_def)
  next
    case False
    with 3 log1 src show ?thesis by (auto simp: provider_log_def)
  qed
qed

text \<open>
  The configuration is set up: it was read and differs from what was read in what the providers
  answered only, the required keys of the store have a value, and the base URL parses.
\<close>
definition set_up :: "('w, 'x) bootLib \<Rightarrow> config \<Rightarrow> bool" where
  "set_up b cfg \<longleftrightarrow> (\<exists>cfg0. New (bl_ReadInConfig b) (bl_BindPFlags b) (bl_Unmarshal b) = Inr cfg0 \<and>
     cfg_Features cfg = cfg_Features cfg0 \<and> cfg_Admin cfg = cfg_Admin cfg0 \<and>
     mp_WellKnownURL (cfg_Maskinporten cfg) = mp_WellKnownURL (cfg_Maskinporten cfg0) \<and>
     idp_WellKnownURL (cfg_IDPorten cfg) = idp_WellKnownURL (cfg_IDPorten cfg0) \<and>
     cfg\<lparr>cfg_Maskinporten := cfg_Maskinporten cfg0, cfg_IDPorten := cfg_IDPorten cfg0\<rparr> = cfg0 \<and>
     (\<forall>k \<in> set (bl_AllKeys b) \<inter> set required_keys. bl_GetString b k \<noteq> '''') \<and>
     (\<exists>url. url_Parse (bl_URL b) (ad_BaseURL (cfg_Admin cfg)) = Inr url))"

lemma setup_config_Inr:
  assumes "setup_config b s = (Inr cfg, s')"
  shows "set_up b cfg" and "\<exists>lvl p. bt_log s' = bt_log s @ [LoggerSet lvl,
    ConfigPrinted (Print (bl_AllKeys b) (bl_GetString b) [DigDirAdminCertChain])] @ p \<and> provider_log b cfg p"
proof -
  let ?p = "ConfigPrinted (Print (bl_AllKeys b) (bl_GetString b) [DigDirAdminCertChain])"
  obtain cfg0 lvl where new: "New (bl_ReadInConfig b) (bl_BindPFlags b) (bl_Unmarshal b) = Inr cfg0"
    and val: "fst (Validate (bl_URL b) cfg0 (bl_AllKeys b) (bl_GetString b) required_keys) = Inr ()"
    and m: "WithProviderMetadata (\<lambda>u. asked (MetadataFetched u) (bl_NewMetadataOAuth b u))
       (\<lambda>u. asked (MetadataFetched u) (bl_NewMetadataOpenID b u))
       (delegationSources (bl_URL b) (bl_NewRequest b) (\<lambda>req. asked (SourcesFetched req) (bl_Do b req)) (bl_DecodeSources b)) cfg0
       (s\<lparr>bt_log := bt_log s @ [LoggerSet lvl, ?p]\<rparr>) = (Inr cfg, s')"
    using assms unfolding setup_config_def setupLogger_def logs_def by (auto elim!: bindE_InrE)
  from val WithProviderMetadata_keeps [OF m] new show "set_up b cfg"
    unfolding set_up_def by (intro exI [of _ cfg0]) (simp add: Validate_ok_iff)
  from WithProviderMetadata_Inr [OF m] show "\<exists>lvl p. bt_log s' = bt_log s @ [LoggerSet lvl,
      ConfigPrinted (Print (bl_AllKeys b) (bl_GetString b) [DigDirAdminCertChain])] @ p \<and> provider_log b cfg p" by auto
qed
definition controller_log :: "config \<Rightarrow> bootEffect list" where
  "controller_log cfg =
     (if ft_IDPorten (cfg_Features cfg)
      then [ControllerCompleted KindIDPorten [GenerationChangedPredicate, AnnotationChangedPredicate, LabelChangedPredicate]] else []) @
     (if ft_Maskinporten (cfg_Features cfg)
      then [ControllerCompleted KindMaskinporten [GenerationChangedPredicate, AnnotationChangedPredicate, LabelChangedPredicate]] else [])"

lemma SetupWithManager_Inr:
  assumes "(if f then wrapE m (SetupWithManager b kind) else returnE ()) s = (Inr u, s')"
  shows "bt_log s' = bt_log s @ (if f then [ControllerCompleted kind
    [GenerationChangedPredicate, AnnotationChangedPredicate, LabelChangedPredicate]] else [])"
proof (cases f)
  case True
  then have "SetupWithManager b kind s = (Inr u, s')" using assms by (simp only: if_True wrapE_Inr_iff)
  then obtain s1 v where o: "outside (bl_Complete b kind [GenerationChangedPredicate, AnnotationChangedPredicate, LabelChangedPredicate]) s = (Inr v, s1)"
    and "s' = s1\<lparr>bt_log := bt_log s1 @ [ControllerCompleted kind [GenerationChangedPredicate, AnnotationChangedPredicate, LabelChangedPredicate]]\<rparr>"
    unfolding SetupWithManager_def Let_def logs_def by (auto elim!: bindE_InrE)
  with outside_log [OF o] True show ?thesis by simp
qed (use assms in simp)

lemma boots_SetupWithManager:
  "(\<And>f. P (ControllerCompleted kind f)) \<Longrightarrow> keeps (boots P) (SetupWithManager b kind)"
  unfolding SetupWithManager_def Let_def by (intro boots.keeps_intros boots_outside boots_logs)

text \<open>Everything before the manager runs.\<close>

definition assemble :: "('w, 'x) bootLib \<Rightarrow> ('w boot, config) eff" where
  "assemble b =
     bindE (setup_config b) (\<lambda>cfg.
     bindE (wrapE ''starting manager'' (outside (bl_NewManager b (manager_options cfg)))) (\<lambda>_.
     bindE (logs (ManagerCreated (manager_options cfg))) (\<lambda>_.
     bindE (wrapE ''setting up kms signer'' (kmsSigner b cfg)) (\<lambda>_.
     bindE (if ft_IDPorten (cfg_Features cfg)
            then wrapE ''creating idportenclient controller'' (SetupWithManager b KindIDPorten) else returnE ()) (\<lambda>_.
     bindE (if ft_Maskinporten (cfg_Features cfg)
            then wrapE ''creating maskinportenclient controller'' (SetupWithManager b KindMaskinporten) else returnE ()) (\<lambda>_.
     bindE (logs RefreshStarted) (\<lambda>_. returnE cfg)))))))"

lemma run_process_assemble: "run_process b = bindE (assemble b) (\<lambda>_. run_manager b)"
  unfolding run_process_def assemble_def by (simp add: bindE_assoc)

lemma assemble_no_start: "keeps (boots (\<lambda>e. \<forall>x. e \<noteq> ManagerStarted x)) (assemble b)"
  unfolding assemble_def setup_config_def setupLogger_def kmsSigner_def Let_def
  by (intro keeps_if boots.keeps_intros boots_outside boots_logs boots_asked boots_SetupWithManager
      boots_WithProviderMetadata) simp_all

lemma assemble_Inr:
  assumes "assemble b s = (Inr cfg, s')"
  shows "set_up b cfg \<and> (\<exists>lvl p h. bt_log s' = bt_log s @ [LoggerSet lvl,
    ConfigPrinted (Print (bl_AllKeys b) (bl_GetString b) [DigDirAdminCertChain])] @ p @
    [ManagerCreated (manager_options cfg), SignerCreated (Inr h)] @ controller_log cfg @ [RefreshStarted] \<and>
    provider_log b cfg p \<and> NewKmsSigner (bl_PemDecode b) (bl_ParseCertificate b) (bl_Raw b) (bl_WithHeader b) (Inr ())
      (ad_CertChain (cfg_Admin cfg)) = Some (Inr h))"
proof -
  obtain s1 s2 s4 s5 s6 u1 u2 u3 h where 1: "setup_config b s = (Inr cfg, s1)"
    and 2: "outside (bl_NewManager b (manager_options cfg)) s1 = (Inr u1, s2)"
    and 3: "kmsSigner b cfg (s2\<lparr>bt_log := bt_log s2 @ [ManagerCreated (manager_options cfg)]\<rparr>) = (Inr h, s4)"
    and 4: "(if ft_IDPorten (cfg_Features cfg)
            then wrapE ''creating idportenclient controller'' (SetupWithManager b KindIDPorten) else returnE ()) s4 = (Inr u2, s5)"
    and 5: "(if ft_Maskinporten (cfg_Features cfg)
            then wrapE ''creating maskinportenclient controller'' (SetupWithManager b KindMaskinporten) else returnE ()) s5 = (Inr u3, s6)"
    and 6: "s' = s6\<lparr>bt_log := bt_log s6 @ [RefreshStarted]\<rparr>"
    using assms unfolding assemble_def by (auto simp: logs_def elim!: bindE_InrE)
  obtain lvl p where "bt_log s1 = bt_log s @ [LoggerSet lvl,
      ConfigPrinted (Print (bl_AllKeys b) (bl_GetString b) [DigDirAdminCertChain])] @ p" "provider_log b cfg p"
    using setup_config_Inr(2) [OF 1] by blast
  with setup_config_Inr(1) [OF 1] kmsSigner_Inr [OF 3] outside_log [OF 2] SetupWithManager_Inr [OF 4] SetupWithManager_Inr [OF 5] 6
  show ?thesis by (intro conjI exI [of _ lvl] exI [of _ p] exI [of _ h]) (simp_all add: controller_log_def)
qed
text \<open>
  C20: the manager runs last and only in a process that is fully set up. When it was started, the
  configuration was read, every required key of the store has a value and the base URL of the API
  parses; the logger was set and the configuration printed; the metadata of the providers and the
  delegation sources were fetched without an error and are the ones of the configuration; then the
  manager and after it the signer were created, the signer with the certificates of the configured
  chain; and exactly the controllers of the enabled features are registered, each for changes of the
  generation, the annotations or the labels. The process fails afterwards exactly when the manager
  reports an error.
\<close>

theorem manager_starts_last:
  assumes "run_process b s = (r, s')" and "bt_log s' = bt_log s @ t" and "ManagerStarted e \<in> set t"
  shows "\<exists>cfg lvl p h. set_up b cfg \<and> provider_log b cfg p \<and>
    NewKmsSigner (bl_PemDecode b) (bl_ParseCertificate b) (bl_Raw b) (bl_WithHeader b) (Inr ()) (ad_CertChain (cfg_Admin cfg)) =
      Some (Inr h) \<and>
    t = [LoggerSet lvl, ConfigPrinted (Print (bl_AllKeys b) (bl_GetString b) [DigDirAdminCertChain])] @ p @
        [ManagerCreated (manager_options cfg), SignerCreated (Inr h)] @ controller_log cfg @ [RefreshStarted, ManagerStarted e] \<and>
    r = (case e of None \<Rightarrow> Inr () | Some x \<Rightarrow> Inl (wrapped ''running manager'' x))"
proof (cases "assemble b s")
  case (Pair r1 s1)
  obtain t1 where t1: "bt_log s1 = bt_log s @ t1" "list_all (\<lambda>e. \<forall>x. e \<noteq> ManagerStarted x) t1"
    using keepsD [OF assemble_no_start Pair] by (auto simp: boots_def)
  show ?thesis
  proof (cases r1)
    case (Inl err)
    with assms(1,2) Pair t1 have "t = t1" by (simp add: run_process_assemble bindE_Inl)
    with t1(2) assms(3) show ?thesis by (auto simp: list_all_iff)
  next
    case (Inr cfg)
    with assms(1) Pair have run: "run_manager b s1 = (r, s')" by (simp add: run_process_assemble bindE_Inr)
    then obtain e' where e': "bt_log s' = bt_log s1 @ [ManagerStarted e']"
      "r = (case e' of None \<Rightarrow> Inr () | Some x \<Rightarrow> Inl (wrapped ''running manager'' x))"
      by (auto simp: run_manager_def split: prod.splits)
    with assms(2,3) t1 have t: "t = t1 @ [ManagerStarted e]" "e' = e" by (auto simp: list_all_iff)
    from assemble_Inr [of b s cfg s1] Pair Inr obtain lvl p h where su: "set_up b cfg" "provider_log b cfg p"
      "NewKmsSigner (bl_PemDecode b) (bl_ParseCertificate b) (bl_Raw b) (bl_WithHeader b) (Inr ()) (ad_CertChain (cfg_Admin cfg)) =
         Some (Inr h)"
      and "bt_log s1 = bt_log s @ [LoggerSet lvl,
      ConfigPrinted (Print (bl_AllKeys b) (bl_GetString b) [DigDirAdminCertChain])] @ p @
      [ManagerCreated (manager_options cfg), SignerCreated (Inr h)] @ controller_log cfg @ [RefreshStarted]"
      by blast
    then have "t1 = [LoggerSet lvl, ConfigPrinted (Print (bl_AllKeys b) (bl_GetString b) [DigDirAdminCertChain])] @ p @
      [ManagerCreated (manager_options cfg), SignerCreated (Inr h)] @ controller_log cfg @ [RefreshStarted]"
      using t1(1) by simp
    with su t e'(2) show ?thesis by (intro exI [of _ cfg] exI [of _ lvl] exI [of _ p] exI [of _ h]) simp
  qed
qed

text \<open>A process whose libraries all succeed, with both features enabled.\<close>

definition demo_boot_config :: config where
  "demo_boot_config = demo_config\<lparr>cfg_Admin := (cfg_Admin demo_config)\<lparr>ad_CertChain := ''x''\<rparr>\<rparr>"

definition demo_boot :: "(nat, string) bootLib" where
  "demo_boot =
     \<lparr>bl_ReadInConfig = None, bl_BindPFlags = Inr (), bl_Unmarshal = Inr demo_boot_config,
      bl_AllKeys = [LogLevel, ClusterName], bl_GetString = (\<lambda>k. if k = ClusterName then ''c1'' else ''info''),
      bl_URL = demo_url, bl_NewMetadataOAuth = (\<lambda>u w. (Inr demo_metadata, Suc w)),
      bl_NewMetadataOpenID = (\<lambda>u w. (Inr demo_metadata, Suc w)), bl_NewRequest = Inr, bl_Do = (\<lambda>q w. (Inr ''[]'', Suc w)),
      bl_DecodeSources = (\<lambda>_. Inr []), bl_NewManager = (\<lambda>_ w. (Inr (), Suc w)),
      bl_PemDecode = (\<lambda>d. case d of [] \<Rightarrow> None | x # rest \<Rightarrow> Some (\<lparr>pb_Type = ''CERTIFICATE'', pb_Bytes = [x]\<rparr>, rest)),
      bl_ParseCertificate = Inr, bl_Raw = (\<lambda>x. x), bl_WithHeader = (\<lambda>k v hs. (k, v) # hs),
      bl_NewKmsClient = (\<lambda>w. (Inr (), Suc w)), bl_Complete = (\<lambda>k f w. (Inr (), Suc w)), bl_Start = (\<lambda>w. (None, Suc w))\<rparr>"
lemma demo_chain: "ConvertPEMChainToX509Chain (bl_PemDecode demo_boot) Inr [] ''x'' = Some (Inr [''x''])"
  by (subst ConvertPEMChainToX509Chain.simps, simp add: demo_boot_def,
      subst ConvertPEMChainToX509Chain.simps, simp)

lemma demo_outside:
  "works (\<lambda>_. True) (asked f1 (bl_NewMetadataOAuth demo_boot u))" "works (\<lambda>_. True) (asked f1 (bl_NewMetadataOpenID demo_boot u))"
  "works (\<lambda>_. True) (asked f2 (bl_Do demo_boot q))" "works (\<lambda>_. True) (outside (bl_NewManager demo_boot o'))"
  "works (\<lambda>_. True) (outside (bl_Complete demo_boot kind f))" "works (\<lambda>_. True) (logs e)"
  by (simp_all add: works_iff outside_def asked_def logs_def demo_boot_def)

lemma demo_setup: "works (\<lambda>_. True) (setup_config demo_boot)"
proof -
  have lvl: "\<not> isl (UnmarshalLevel (cfg_LogLevel demo_boot_config))"
  proof -
    have "UnmarshalLevel ''info'' = Inr 0" by code_simp
    then show ?thesis by (simp add: demo_boot_config_def demo_config_def)
  qed
  have val: "\<not> isl (fst (Validate (bl_URL demo_boot) demo_boot_config (bl_AllKeys demo_boot) (bl_GetString demo_boot) required_keys))"
  proof -
    have "fst (Validate (bl_URL demo_boot) demo_boot_config (bl_AllKeys demo_boot) (bl_GetString demo_boot) required_keys) = Inr ()"
      by (auto simp: Validate_ok_iff demo_boot_def demo_url_def)
    then show ?thesis by simp
  qed
  have url: "\<not> isl (ApiV1URL (bl_URL demo_boot) a)" "\<not> isl (bl_NewRequest demo_boot q)" "\<not> isl (bl_DecodeSources demo_boot d)" for a q d
    by (simp_all add: demo_boot_def demo_url_def ApiV1URL_def)
  have new: "New (bl_ReadInConfig demo_boot) (bl_BindPFlags demo_boot) (bl_Unmarshal demo_boot) = Inr demo_boot_config"
    by (simp add: demo_boot_def New_def)
  show ?thesis
    unfolding setup_config_def new liftE_Inr bindE_returnE setupLogger_def WithProviderMetadata_def delegationSources_def Let_def
    by (intro works_bindE works_wrapE works_return works_if works_liftE demo_outside lvl val url)
qed

lemma demo_assemble: "\<exists>cfg s'. assemble demo_boot s = (Inr cfg, s') \<and> cfg_Features cfg = cfg_Features demo_boot_config"
proof -
  obtain cfg s1 where s1: "setup_config demo_boot s = (Inr cfg, s1)" using demo_setup unfolding works_iff by blast
  from setup_config_Inr(1) [OF s1] have "cfg_Admin cfg = cfg_Admin demo_boot_config" "cfg_Features cfg = cfg_Features demo_boot_config"
    by (auto simp: set_up_def New_def demo_boot_def)
  note s = s1 this
  let ?rest = "bindE (wrapE ''starting manager'' (outside (bl_NewManager demo_boot (manager_options cfg)))) (\<lambda>_.
     bindE (logs (ManagerCreated (manager_options cfg))) (\<lambda>_.
     bindE (wrapE ''setting up kms signer'' (kmsSigner demo_boot cfg)) (\<lambda>_.
     bindE (if ft_IDPorten (cfg_Features cfg)
            then wrapE ''creating idportenclient controller'' (SetupWithManager demo_boot KindIDPorten) else returnE ()) (\<lambda>_.
     bindE (if ft_Maskinporten (cfg_Features cfg)
            then wrapE ''creating maskinportenclient controller'' (SetupWithManager demo_boot KindMaskinporten) else returnE ()) (\<lambda>_.
     bindE (logs RefreshStarted) (\<lambda>_. returnE cfg))))))"
  have kms: "works (\<lambda>_. True) (kmsSigner demo_boot cfg)"
    using demo_chain s(2) by (simp add: works_iff kmsSigner_def NewKmsSigner_def asked_def Let_def demo_boot_def demo_boot_config_def)
  have steps: "works (\<lambda>_. True) (SetupWithManager demo_boot kind)" for kind
    unfolding SetupWithManager_def Let_def by (intro works_bindE demo_outside)
  have "works (\<lambda>_. True) ?rest"
    by (intro works_intros works_if kms steps demo_outside)
  then obtain c' s' where "?rest s1 = (Inr c', s')" unfolding works_iff by blast
  moreover from this have "c' = cfg" by (auto elim!: bindE_InrE)
  ultimately show ?thesis using s(1,3) unfolding assemble_def by (auto simp: bindE_Inr)
qed

theorem manager_starts_last_witness:
  "\<exists>s' t h. run_process demo_boot \<lparr>bt_world = 0, bt_log = []\<rparr> = (Inr (), s') \<and>
     bt_log s' = t @ [SignerCreated (Inr h), ControllerCompleted KindIDPorten [GenerationChangedPredicate, AnnotationChangedPredicate, LabelChangedPredicate],
       ControllerCompleted KindMaskinporten [GenerationChangedPredicate, AnnotationChangedPredicate, LabelChangedPredicate],
       RefreshStarted, ManagerStarted None]"
proof -
  let ?s = "\<lparr>bt_world = 0, bt_log = []\<rparr> :: nat boot"
  obtain r s' where run: "run_process demo_boot ?s = (r, s')" by (cases "run_process demo_boot ?s")
  obtain cfg s1 where a: "assemble demo_boot ?s = (Inr cfg, s1)" using demo_assemble by blast
  have "run_manager demo_boot s1 = (r, s')" using run a by (simp add: run_process_assemble bindE_Inr)
  then have m: "ManagerStarted None \<in> set (bt_log s')" by (auto simp: run_manager_def demo_boot_def)
  have "bt_log s' = bt_log ?s @ bt_log s'" by simp
  from manager_starts_last [OF run this m] obtain cfg' lvl p h where w: "set_up demo_boot cfg'"
    "bt_log s' = [LoggerSet lvl, ConfigPrinted (Print (bl_AllKeys demo_boot) (bl_GetString demo_boot) [DigDirAdminCertChain])] @ p @
       [ManagerCreated (manager_options cfg'), SignerCreated (Inr h)] @ controller_log cfg' @ [RefreshStarted, ManagerStarted None]" "r = Inr ()"
    by auto
  have "cfg_Features cfg' = \<lparr>ft_IDPorten = True, ft_Maskinporten = True\<rparr>"
    using w(1) by (auto simp: set_up_def New_def demo_boot_def demo_boot_config_def demo_config_def)
  then have "bt_log s' = ([LoggerSet lvl, ConfigPrinted (Print (bl_AllKeys demo_boot) (bl_GetString demo_boot) [DigDirAdminCertChain])] @ p @
       [ManagerCreated (manager_options cfg')]) @ [SignerCreated (Inr h),
       ControllerCompleted KindIDPorten [GenerationChangedPredicate, AnnotationChangedPredicate, LabelChangedPredicate],
       ControllerCompleted KindMaskinporten [GenerationChangedPredicate, AnnotationChangedPredicate, LabelChangedPredicate],
       RefreshStarted, ManagerStarted None]"
    using w(2) by (simp add: controller_log_def)
  with run w(3) show ?thesis by blast
qed


text \<open>
  C21: the required configuration is enforced. With every flag bound to the store, validation passes
  exactly when each of the eight required keys has a value and the base URL of the API parses; the
  keys it logs are exactly the required ones without a value, in order, and with one of them missing
  the process does not start.
\<close>

theorem required_values_enforced:
  assumes "set (map fst flag_defaults) \<subseteq> set allKeys" and "Validate u c allKeys g required_keys = (r, missing)"
  shows "(r = Inr () \<longleftrightarrow> (\<forall>k \<in> set required_keys. g k \<noteq> '''') \<and> (\<exists>url. url_Parse u (ad_BaseURL (cfg_Admin c)) = Inr url)) \<and>
    set missing = {k \<in> set required_keys. g k = ''''} \<and> sorted missing \<and>
    (missing \<noteq> [] \<longrightarrow> r = Inl (Err ''missing configuration values''))"
proof -
  have "set required_keys \<subseteq> set (map fst flag_defaults)" unfolding required_keys_def flag_defaults_def by simp
  with assms(1) have keys: "set allKeys \<inter> set required_keys = set required_keys" by blast
  have missing: "missing = sort (filter (\<lambda>k. k \<in> set required_keys \<and> g k = []) allKeys)"
    using Validate_missing [of u c allKeys g required_keys] assms(2) by simp
  have "r = Inr () \<longleftrightarrow> (\<forall>k \<in> set required_keys. g k \<noteq> '''') \<and> (\<exists>url. url_Parse u (ad_BaseURL (cfg_Admin c)) = Inr url)"
    using Validate_ok_iff [of u c allKeys g required_keys] assms(2) keys by simp
  moreover have "set missing = {k \<in> set required_keys. g k = ''''}" unfolding missing using keys by auto
  moreover have "missing \<noteq> [] \<longrightarrow> r = Inl (Err ''missing configuration values'')"
    using assms(2) by (auto simp: Validate_def Let_def split: if_splits sum.splits)
  ultimately show ?thesis unfolding missing by simp
qed

theorem required_values_enforced_witness:
  "\<exists>e. Validate demo_url demo_config (map fst flag_defaults) (\<lambda>k. if k = ClusterName then '''' else ''x'') required_keys =
     (Inl e, [ClusterName])"
proof -
  let ?g = "\<lambda>k. if k = ClusterName then '''' else ''x''"
  obtain r missing where v: "Validate demo_url demo_config (map fst flag_defaults) ?g required_keys = (r, missing)"
    by (cases "Validate demo_url demo_config (map fst flag_defaults) ?g required_keys")
  have "ClusterName \<in> set required_keys" by (simp add: required_keys_def)
  with required_values_enforced [OF subset_refl v] have m: "set missing = {ClusterName}" "sorted missing"
    "missing \<noteq> [] \<longrightarrow> r = Inl (Err ''missing configuration values'')" by auto
  have "distinct (map fst flag_defaults)" by (simp add: flag_defaults_def key_defs)
  then have "distinct missing" using v by (auto simp: Validate_def Let_def split: if_splits sum.splits)
  with m(1) have "missing = [ClusterName]"
    by (cases missing; cases "tl missing") auto
  with v m(3) show ?thesis by blast
qed

end
