(* ===== verification/Spec2Isabelle.thy ===== *)
theory Spec2Isabelle
  imports Prelude Types Config Scopes Secrets Clients Crypto Runtime Demo Retry Metrics Digdir Common
    ScopeController SecretController Reconciler Frames Lifecycle Registration Startup
begin

text \<open>
  A model of digdirator, the Kubernetes operator that keeps clients of ID-porten and Maskinporten
  registered at DigDir's self-service API, and the theorems that make it correct.

  \<^bold>\<open>The program.\<close> A custom resource (\<open>IDPortenClient\<close> or \<open>MaskinportenClient\<close>) describes a client. For
  each change of a resource the operator runs \<open>Reconcile\<close> (\<open>controllers/common/reconciler.go\<close>): it
  registers a finalizer, asks DigDir for the client, creates or updates it, keeps the exposed scopes
  and their access lists (\<open>controllers/common/scopes.go\<close>), asks for the consumed scopes the
  organisation has access to, generates, keeps or rotates a signing key, registers its public part,
  stores the private part in a secret (\<open>controllers/common/secrets.go\<close>), removes unused secrets and
  writes the status. A resource that is being deleted is finalized
  (\<open>controllers/common/finalizer.go\<close>): its client is deleted and its disabled scopes are deactivated
  before the finalizer is taken off. All calls of DigDir go through \<open>pkg/digdir/client.go\<close>, which gets
  a token with a signed assertion (\<open>auth.go\<close>) and retries with a bounded backoff (\<open>pkg/retry\<close>).
  \<open>cmd/digdirator/main.go\<close> reads the configuration, sets everything up and runs the manager.

  \<^bold>\<open>How it is modelled.\<close> A Go function that only computes is a HOL function. A function with effects is
  a function from a state to a result and a state (\<open>eff\<close> in \<open>Prelude\<close>), the result an error or a value;
  \<open>bindE\<close> is the early return on an error, \<open>wrapE\<close> is \<open>fmt.Errorf\<close> with a wrapped error, \<open>catchE\<close> handles
  one, \<open>forE\<close> and \<open>foldE\<close> are loops over slices that may return early. A panic is an error of its own that
  no handler catches. The state of a reconcile (\<open>st\<close> in \<open>Runtime\<close>) holds the object under
  reconciliation, the process-wide counters, gauges and scope cache, an opaque outside world and the
  log of the calls that leave the process, each with its answer: the theorems about ordering and about
  what was or was not called are statements about that log. The libraries (HTTP, JSON, controller-
  runtime, apimachinery, the cache, the retry loop, the clock, key generation, viper) are records of
  functions that the definitions take as arguments; an operation that may answer differently each
  time takes and returns the outside world. Integers are kept at their width where the code depends on
  it: durations and times saturate or wrap as in Go, the number of retries is a 64-bit word, an expiry
  in seconds wraps.

  \<^bold>\<open>Theories.\<close>
  \<^item> \<open>Prelude\<close>: errors, effects, loops, strings, times; the locales \<open>state_preorder\<close> (frame rules for a
    relation between states), \<open>last_wins\<close> (a map filled in a loop) and \<open>first_wins\<close> (a slice without
    duplicates), interpreted by the components on their own loops.
  \<^item> \<open>Types\<close>: \<open>pkg/digdir/types\<close> and the parts of the Kubernetes objects the program reads and writes.
  \<^item> \<open>Config\<close>: \<open>pkg/config\<close>: keys, flags, printing, validation, provider metadata.
  \<^item> \<open>Scopes\<close>: \<open>pkg/digdir/scopes\<close>: names of scopes, the difference of an access list, which scopes are
    created and which updated.
  \<^item> \<open>Secrets\<close>, \<open>Clients\<close>: \<open>pkg/secrets\<close> and \<open>pkg/clients\<close>: contents of secrets, registration payloads,
    defaults, when a resource is up to date, labels.
  \<^item> \<open>Crypto\<close>: \<open>pkg/crypto\<close> and \<open>internal/crypto\<close>: keys, merged key sets, certificate chains, the compact
    serialization of a signature.
  \<^item> \<open>Runtime\<close>: the state, the libraries and the calls; the locale \<open>process_relation\<close> for relations that
    calls to the outside keep; the contract of the retry loop. \<open>Demo\<close>: concrete libraries that meet the
    contracts and on which the theorems are evaluated.
  \<^item> \<open>Retry\<close>: \<open>pkg/retry\<close>. \<open>Metrics\<close>: \<open>pkg/metrics\<close>: counters, gauges, their initialisation and refresh.
  \<^item> \<open>Digdir\<close>: \<open>pkg/digdir/client.go\<close> and \<open>auth.go\<close>: one operation per endpoint.
  \<^item> \<open>Common\<close>, \<open>ScopeController\<close>, \<open>SecretController\<close>, \<open>Reconciler\<close>: \<open>controllers/common\<close> and the two
    controllers.
  \<^item> \<open>Frames\<close>: the locale \<open>reconcile_relation\<close>: what every step of a reconcile keeps, \<open>Reconcile\<close> keeps;
    interpreted for the log, the counters and the gauges.
  \<^item> \<open>Lifecycle\<close>, \<open>Registration\<close>: properties of whole reconciles.
  \<^item> \<open>Startup\<close>: \<open>cmd/digdirator/main.go\<close> and \<open>SetupWithManager\<close> of both controllers.

  \<^bold>\<open>What is shown.\<close>
  \<^item> A reconcile: every secret written holds a key that DigDir confirmed before; a successful run leaves
    nothing to do, and the next look at the object makes no call; a resource is skipped exactly when
    nothing asks for work; the finalizer is the first write and its removal the last, after the client
    and the disabled scopes are gone; failures are recorded, counted and tried again; the outcome and
    the counter of a success follow from the conditions; a resource that is up to date or gone is left
    alone; the stored key is found again; the registration written is that of the resource, with scopes
    that were shown to be accessible.
  \<^item> Scopes: processing settles every exposed scope, an access list ends up with the desired
    organisations, finalizing touches disabled scopes only, the difference is exact, stable and reaches
    the desired list, subscopes are told apart.
  \<^item> DigDir's API: the outcome of a request by its answers with a bound on the number of attempts and
    the error of an answer of 400 or more, the registration found, access to a scope on evidence only.
  \<^item> Keys and secrets: merged key sets are public, unique and complete; the key kept is that of the
    newest secret; the current secret is never removed; the loop over a certificate chain ends; a
    signed token decodes to its header, payload and signature; an expiry wraps.
  \<^item> Metrics: the series of the listed namespaces after initialisation, the gauges against the listings
    of a refresh, the registered names; an activation of a scope is counted as a deletion, and two
    counters are forgotten.
  \<^item> Start-up: the manager runs last in a process whose configuration, metadata, signer and controllers
    are set up, and the required values are enforced.

  \<^bold>\<open>Hypotheses.\<close> Each states documented behaviour of a library and is met by \<open>Demo\<close>: \<open>retry_contract\<close>
  (the loop stops at the first success or the first error that is not retryable, makes no more attempts
  than the backoff allows, and reports an error when its context ends before), \<open>plain_errors\<close> (errors of the libraries are not the program's own
  error type), \<open>cache_contract\<close> (a hit is an entry that was set, an expired entry is only dropped),
  \<open>range_contract\<close> (ranging over a map visits its entries in some order), \<open>public_contract\<close> (the
  public form of a key), \<open>decode_consumes\<close> (decoding a PEM block shortens the input),
  \<open>status_contract\<close> and \<open>write_contract\<close> (conditions and writes of the API server).

  \<^bold>\<open>Bounds.\<close> A request makes at most six calls of the API, as the backoff says; the loop of the retry
  library itself is a parameter, and \<open>Runtime\<close> gives one that meets its contract. The loop over a
  certificate chain is a partial function whose termination is proved. The refresh of the metrics
  runs until its context ends; the model runs it for any number of ticks.

  \<^bold>\<open>Not modelled.\<close> The text of JSON documents and HTTP headers beyond those the program sets; the
  exposition of metrics; the interleaving of the refresh loop with reconciles, which share counters
  and gauges through the atomic operations of the metrics library only; the constructors that only
  fill a struct (\<open>NewClient\<close>, \<open>NewReconciler\<close>, \<open>NewTransaction\<close>); \<open>pkg/fixtures\<close> and
  \<open>controllers/common/test\<close>, which the tests use.

  \<^bold>\<open>Next.\<close> The behaviour over a sequence of reconciles (a step relation whose steps are whole
  reconciles and changes of the resource from outside), completeness of the check for accessible
  scopes under a cache that keeps its entries for their lifetime, and the refresh loop interleaved
  with reconciles.
\<close>

end
